(* ===== verification/Vocab_Prelude.thy ===== *)
theory Vocab_Prelude
  imports Main "HOL-Library.AList"
begin

text \<open>
  Shared vocabulary of the development. Python dictionaries keep their keys in
  insertion order and assignment to an existing key keeps its position; this is
  exactly an association list with distinct keys updated by \<open>AList.update\<close>,
  so a dictionary is a \<open>'v dict\<close> below. The collection \<open>vocab_defs\<close> gathers
  the definitions of the model that a concrete run unfolds, so that witnesses
  and scenario lemmas evaluate with \<open>simp add: vocab_defs\<close>.
\<close>

named_theorems vocab_defs "definitions of the model unfolded on concrete inputs"

type_synonym 'v dict = "(string \<times> 'v) list"

text \<open>Keys of a dictionary, in insertion order.\<close>

abbreviation dict_keys :: "'v dict \<Rightarrow> string list" where
  "dict_keys d \<equiv> map fst d"

text \<open>
  The Python exceptions the program can raise. An operation that may raise
  returns \<open>pyexc + 'a\<close>, the exception on the left. Where the code catches
  with \<^verbatim>\<open>except Exception\<close> the class is irrelevant; where it does not, the
  exception ends the process (\<open>Crash\<close> below).
\<close>

datatype pyexc =
    KeyError string
  | TypeError
  | ValueError
  | AttributeError
  | IndexError
  | FileNotFoundError
  | YAMLError

text \<open>How a command-line entry point ends: its \<^verbatim>\<open>exit(main())\<close> status, or an
  uncaught exception (a traceback and exit status 1).\<close>

datatype outcome = Exit int | Crash pyexc

subsection \<open>Association lists as Python dictionaries\<close>

lemma map_of_update_same [simp]: "map_of (AList.update k v d) k = Some v"
  by (simp add: update_conv')

lemma map_of_update_other [simp]: "k' \<noteq> k \<Longrightarrow> map_of (AList.update k v d) k' = map_of d k'"
  by (simp add: update_conv')

lemma dict_keys_update_present:
  "k \<in> set (dict_keys d) \<Longrightarrow> dict_keys (AList.update k v d) = dict_keys d"
  by (simp add: update_keys)

lemma dict_keys_update_absent:
  "k \<notin> set (dict_keys d) \<Longrightarrow> dict_keys (AList.update k v d) = dict_keys d @ [k]"
  by (simp add: update_keys)

lemma distinct_keys_update [intro]:
  "distinct (dict_keys d) \<Longrightarrow> distinct (dict_keys (AList.update k v d))"
  by (rule distinct_update)

lemma length_update_present:
  "k \<in> set (dict_keys d) \<Longrightarrow> length (AList.update k v d) = length d"
  by (metis dict_keys_update_present length_map)

subsection \<open>Lists\<close>

text \<open>A filter into three buckets by a precedence test, as a status report does.\<close>

lemma length_filter_three:
  "length (filter P xs) + length (filter (\<lambda>x. \<not> P x \<and> Q x) xs)
     + length (filter (\<lambda>x. \<not> P x \<and> \<not> Q x) xs) = length xs"
  by (induction xs) auto

lemma take_append_exact [simp]: "length xs = n \<Longrightarrow> take n (xs @ ys) = xs"
  by simp

lemma drop_append_exact [simp]: "length xs = n \<Longrightarrow> drop n (xs @ ys) = ys"
  by simp

subsection \<open>Floor division\<close>

text \<open>Python's \<^verbatim>\<open>//\<close> on \<open>int\<close> rounds down, as \<open>div\<close> does.\<close>

lemma int_le_div_iff:
  fixes x d n :: int
  assumes "0 < d"
  shows "n \<le> x div d \<longleftrightarrow> n * d \<le> x"
proof
  assume "n \<le> x div d"
  then have "n * d \<le> x div d * d" using assms by (simp add: mult_right_mono)
  also have "\<dots> \<le> x"
    using assms by (metis div_mult_mod_eq le_add_same_cancel1 pos_mod_sign)
  finally show "n * d \<le> x" .
next
  assume "n * d \<le> x"
  then have "(n * d) div d \<le> x div d" using assms by (rule zdiv_mono1)
  then show "n \<le> x div d" using assms by simp
qed

lemma int_div_eq_iff:
  fixes x d n :: int
  assumes "0 < d"
  shows "x div d = n \<longleftrightarrow> n * d \<le> x \<and> x < (n + 1) * d"
proof -
  have "x div d = n \<longleftrightarrow> n \<le> x div d \<and> \<not> n + 1 \<le> x div d" by auto
  then show ?thesis using assms by (simp add: int_le_div_iff not_le)
qed

end
