(* ===== verification/DateTime.thy ===== *)
theory DateTime
  imports Vocab_Prelude
begin

text \<open>
  The part of Python's \<^verbatim>\<open>datetime\<close> module the program relies on, following the
  pure-Python reference implementation (\<^verbatim>\<open>Lib/datetime.py\<close>): a naive
  \<^verbatim>\<open>datetime\<close> is its seven fields; \<^verbatim>\<open>toordinal\<close>, subtraction and the
  \<^verbatim>\<open>days\<close> of the resulting \<^verbatim>\<open>timedelta\<close>; \<^verbatim>\<open>isoformat()\<close>, which
  \<^verbatim>\<open>add_entry.py\<close> and \<^verbatim>\<open>mark_reviewed.py\<close> write into records; and
  \<^verbatim>\<open>fromisoformat\<close>, which \<^verbatim>\<open>is_due_for_review\<close> uses to read them back.
  The main results are that \<^verbatim>\<open>fromisoformat\<close> inverts \<^verbatim>\<open>isoformat\<close> on every
  valid datetime, and how the \<^verbatim>\<open>days\<close> of a difference truncates.
\<close>

record datetime =
  year :: nat
  month :: nat
  day :: nat
  hour :: nat
  minute :: nat
  second :: nat
  microsecond :: nat

subsection \<open>Calendar\<close>

definition is_leap :: "nat \<Rightarrow> bool" where
  "is_leap y \<longleftrightarrow> y mod 4 = 0 \<and> (y mod 100 \<noteq> 0 \<or> y mod 400 = 0)"

definition days_in_month :: "nat \<Rightarrow> nat \<Rightarrow> nat" where
  "days_in_month y m =
     (if m = 2 \<and> is_leap y then 29
      else [31, 28, 31, 30, 31, 30, 31, 31, 30, 31, 30, 31] ! (m - 1))"

definition days_before_month :: "nat \<Rightarrow> nat \<Rightarrow> nat" where
  "days_before_month y m =
     [0, 31, 59, 90, 120, 151, 181, 212, 243, 273, 304, 334] ! (m - 1)
     + (if 2 < m \<and> is_leap y then 1 else 0)"

definition days_before_year :: "nat \<Rightarrow> nat" where
  "days_before_year y = (let y' = y - 1 in y' * 365 + y' div 4 - y' div 100 + y' div 400)"

definition toordinal :: "datetime \<Rightarrow> nat" where
  "toordinal dt = days_before_year (year dt) + days_before_month (year dt) (month dt) + day dt"

text \<open>The checks of the \<^verbatim>\<open>datetime\<close> constructor: a value that fails them is
  never built (\<^verbatim>\<open>ValueError\<close>).\<close>

definition dt_valid :: "datetime \<Rightarrow> bool" where
  "dt_valid dt \<longleftrightarrow>
     1 \<le> year dt \<and> year dt \<le> 9999 \<and> 1 \<le> month dt \<and> month dt \<le> 12 \<and>
     1 \<le> day dt \<and> day dt \<le> days_in_month (year dt) (month dt) \<and>
     hour dt < 24 \<and> minute dt < 60 \<and> second dt < 60 \<and> microsecond dt < 1000000"

definition make_datetime ::
  "nat \<Rightarrow> nat \<Rightarrow> nat \<Rightarrow> nat \<Rightarrow> nat \<Rightarrow> nat \<Rightarrow> nat \<Rightarrow> pyexc + datetime" where
  "make_datetime y mo d h mi s us =
     (let dt = \<lparr>year = y, month = mo, day = d, hour = h, minute = mi, second = s,
                microsecond = us\<rparr>
      in if dt_valid dt then Inr dt else Inl ValueError)"

subsection \<open>Subtraction\<close>

text \<open>\<^verbatim>\<open>a - b\<close> builds \<^verbatim>\<open>timedelta(days1 - days2, secs1 - secs2, us1 - us2)\<close>,
  which normalises to a whole number of days and a non-negative remainder below
  one day; its \<^verbatim>\<open>days\<close> is therefore the floor of the difference in microseconds
  divided by the microseconds of a day.\<close>

definition us_per_day :: int where
  "us_per_day = 86400000000"

definition total_us :: "datetime \<Rightarrow> int" where
  "total_us dt =
     (int (toordinal dt) * 86400 + int (hour dt * 3600 + minute dt * 60 + second dt)) * 1000000
     + int (microsecond dt)"

definition sub_days :: "datetime \<Rightarrow> datetime \<Rightarrow> int" where
  "sub_days a b = (total_us a - total_us b) div us_per_day"

declare is_leap_def [vocab_defs] days_in_month_def [vocab_defs] days_before_month_def [vocab_defs]
  days_before_year_def [vocab_defs] toordinal_def [vocab_defs] dt_valid_def [vocab_defs]
  make_datetime_def [vocab_defs] us_per_day_def [vocab_defs] total_us_def [vocab_defs]
  sub_days_def [vocab_defs]

subsection \<open>Decimal digits\<close>

definition digit_char :: "nat \<Rightarrow> char" where
  "digit_char d = char_of (48 + d)"

definition is_digit :: "char \<Rightarrow> bool" where
  "is_digit c \<longleftrightarrow> 48 \<le> (of_char c :: nat) \<and> (of_char c :: nat) \<le> 57"

definition digit_val :: "char \<Rightarrow> nat" where
  "digit_val c = of_char c - 48"

text \<open>\<^verbatim>\<open>'%0<w>d' % n\<close> for \<open>n < 10 ^ w\<close>: the last \<open>w\<close> decimal digits.\<close>

fun pad_digits :: "nat \<Rightarrow> nat \<Rightarrow> string" where
  "pad_digits 0 n = []"
| "pad_digits (Suc w) n = pad_digits w (n div 10) @ [digit_char (n mod 10)]"

text \<open>\<^verbatim>\<open>int(s)\<close> on a string of decimal digits; anything else (the empty string
  included) raises \<^verbatim>\<open>ValueError\<close>, here \<open>None\<close>.\<close>

fun digits_acc :: "nat \<Rightarrow> string \<Rightarrow> nat option" where
  "digits_acc n [] = Some n"
| "digits_acc n (c # cs) = (if is_digit c then digits_acc (10 * n + digit_val c) cs else None)"

definition parse_digits :: "string \<Rightarrow> nat option" where
  "parse_digits s = (if s = [] then None else digits_acc 0 s)"

text \<open>Python's slice \<^verbatim>\<open>s[i:j]\<close> and index \<^verbatim>\<open>s[i]\<close> (which raises
  \<^verbatim>\<open>IndexError\<close>, here \<open>None\<close>, out of range).\<close>

definition py_slice :: "nat \<Rightarrow> nat \<Rightarrow> 'a list \<Rightarrow> 'a list" where
  "py_slice i j xs = take (j - i) (drop i xs)"

definition py_index :: "'a list \<Rightarrow> nat \<Rightarrow> 'a option" where
  "py_index xs i = (if i < length xs then Some (xs ! i) else None)"

declare digit_char_def [vocab_defs] is_digit_def [vocab_defs] digit_val_def [vocab_defs]
  parse_digits_def [vocab_defs] py_slice_def [vocab_defs] py_index_def [vocab_defs]

subsection \<open>\<^verbatim>\<open>isoformat\<close> and \<^verbatim>\<open>fromisoformat\<close>\<close>

text \<open>\<^verbatim>\<open>datetime.isoformat()\<close>: \<^verbatim>\<open>YYYY-MM-DDTHH:MM:SS\<close>, followed by
  \<^verbatim>\<open>.ffffff\<close> only when the microseconds are not zero.\<close>

definition isoformat :: "datetime \<Rightarrow> string" where
  "isoformat dt =
     pad_digits 4 (year dt) @ ''-'' @ pad_digits 2 (month dt) @ ''-'' @ pad_digits 2 (day dt)
     @ ''T'' @ pad_digits 2 (hour dt) @ '':'' @ pad_digits 2 (minute dt) @ '':''
     @ pad_digits 2 (second dt)
     @ (if microsecond dt = 0 then [] else ''.'' @ pad_digits 6 (microsecond dt))"

text \<open>\<^verbatim>\<open>_parse_isoformat_date(dtstr)\<close>: year, dash, month, dash, day, read by
  slicing and \<^verbatim>\<open>int\<close>.\<close>

definition parse_isoformat_date :: "string \<Rightarrow> (nat \<times> nat \<times> nat) option" where
  "parse_isoformat_date dstr =
     (case parse_digits (py_slice 0 4 dstr) of
        None \<Rightarrow> None
      | Some y \<Rightarrow>
          if py_index dstr 4 \<noteq> Some (CHR ''-'') then None
          else (case parse_digits (py_slice 5 7 dstr) of
                  None \<Rightarrow> None
                | Some m \<Rightarrow>
                    if py_index dstr 7 \<noteq> Some (CHR ''-'') then None
                    else (case parse_digits (py_slice 8 10 dstr) of
                            None \<Rightarrow> None
                          | Some d \<Rightarrow> Some (y, m, d))))"

text \<open>The loop of \<^verbatim>\<open>_parse_hh_mm_ss_ff\<close>: \<^verbatim>\<open>for comp in range(0, 3)\<close> reads
  two digits, stops at the end of the string or after the seconds, and otherwise
  requires a colon. The state is the component index, the position and the
  components read so far; the loop runs at most three times.\<close>

function hms_loop :: "nat \<Rightarrow> string \<Rightarrow> nat \<Rightarrow> nat list \<Rightarrow> (nat list \<times> nat) option" where
  "hms_loop k s pos acc =
     (if 3 \<le> k then Some (acc, pos)
      else if length s - pos < 2 then None
      else (case parse_digits (py_slice pos (pos + 2) s) of
              None \<Rightarrow> None
            | Some v \<Rightarrow>
                (let pos' = pos + 2; nxt = py_slice pos' (pos' + 1) s in
                 if nxt = [] \<or> 2 \<le> k then Some (acc @ [v], pos')
                 else if nxt \<noteq> '':'' then None
                 else hms_loop (Suc k) s (Suc pos') (acc @ [v]))))"
  by pat_completeness auto
termination
  by (relation "measure (\<lambda>(k, _, _, _). 3 - k)") auto

text \<open>After the loop: an optional fraction of exactly three or six digits
  (three digits are milliseconds).\<close>

definition parse_hh_mm_ss_ff :: "string \<Rightarrow> (nat \<times> nat \<times> nat \<times> nat) option" where
  "parse_hh_mm_ss_ff s =
     (case hms_loop 0 s 0 [] of
        None \<Rightarrow> None
      | Some (cs, pos) \<Rightarrow>
          (let comp_at = (\<lambda>i. if i < length cs then cs ! i else 0) in
           if pos < length s then
             (if s ! pos \<noteq> CHR ''.'' then None
              else (let rem = length s - Suc pos in
                    if rem \<notin> {3, 6} then None
                    else (case parse_digits (drop (Suc pos) s) of
                            None \<Rightarrow> None
                          | Some f \<Rightarrow>
                              Some (comp_at 0, comp_at 1, comp_at 2,
                                    if rem = 3 then f * 1000 else f))))
           else Some (comp_at 0, comp_at 1, comp_at 2, 0)))"

text \<open>\<^verbatim>\<open>_parse_isoformat_time\<close>. A string with a UTC offset (a \<^verbatim>\<open>+\<close> or
  \<^verbatim>\<open>-\<close>) gives an aware datetime in Python, whose subtraction from the naive
  \<^verbatim>\<open>datetime.now()\<close> raises; the model rejects it here, so that the same
  inputs end in an exception.\<close>

definition parse_isoformat_time :: "string \<Rightarrow> (nat \<times> nat \<times> nat \<times> nat) option" where
  "parse_isoformat_time tstr =
     (if length tstr < 2 then None
      else if CHR ''-'' \<in> set tstr \<or> CHR ''+'' \<in> set tstr then None
      else parse_hh_mm_ss_ff tstr)"

text \<open>\<^verbatim>\<open>datetime.fromisoformat(s)\<close>: the date in \<^verbatim>\<open>s[0:10]\<close>, the time (if
  any) in \<^verbatim>\<open>s[11:]\<close>, the character between them not inspected.\<close>

definition fromisoformat :: "string \<Rightarrow> pyexc + datetime" where
  "fromisoformat s =
     (let dstr = py_slice 0 10 s; tstr = drop 11 s in
      case parse_isoformat_date dstr of
        None \<Rightarrow> Inl ValueError
      | Some (y, mo, d) \<Rightarrow>
          if tstr = [] then make_datetime y mo d 0 0 0 0
          else (case parse_isoformat_time tstr of
                  None \<Rightarrow> Inl ValueError
                | Some (h, mi, sec, us) \<Rightarrow> make_datetime y mo d h mi sec us))"

declare isoformat_def [vocab_defs] parse_isoformat_date_def [vocab_defs]
  parse_hh_mm_ss_ff_def [vocab_defs] parse_isoformat_time_def [vocab_defs]
  fromisoformat_def [vocab_defs]

declare hms_loop.simps [simp del]

subsection \<open>Digits: printing and parsing\<close>

lemma length_pad_digits [simp]: "length (pad_digits w n) = w"
  by (induction w arbitrary: n) auto

lemma digits_acc_append:
  "digits_acc n (xs @ ys) = (case digits_acc n xs of None \<Rightarrow> None | Some m \<Rightarrow> digits_acc m ys)"
  by (induction xs arbitrary: n) auto

lemma is_digit_digit_char [simp]: "d < 10 \<Longrightarrow> is_digit (digit_char d)"
  by (simp add: is_digit_def digit_char_def)

lemma digit_val_digit_char [simp]: "d < 10 \<Longrightarrow> digit_val (digit_char d) = d"
  by (simp add: digit_val_def digit_char_def)

lemma digits_acc_pad_digits:
  "digits_acc a (pad_digits w n) = Some (a * 10 ^ w + n mod 10 ^ w)"
proof (induction w arbitrary: a n)
  case 0
  then show ?case by simp
next
  case (Suc w)
  have "n mod 10 ^ Suc w = 10 * (n div 10 mod 10 ^ w) + n mod 10"
    using mod_mult2_eq [of n 10 "10 ^ w"] by simp
  then show ?case
    by (simp add: digits_acc_append Suc.IH algebra_simps)
qed

lemma pad_digits_ne_Nil: "0 < w \<Longrightarrow> pad_digits w n \<noteq> []"
  by (cases w) auto

lemma parse_digits_pad_digits [simp]:
  "0 < w \<Longrightarrow> n < 10 ^ w \<Longrightarrow> parse_digits (pad_digits w n) = Some n"
  by (simp add: parse_digits_def digits_acc_pad_digits pad_digits_ne_Nil)

lemma digit_char_ne [simp]: "d < 10 \<Longrightarrow> \<not> is_digit c \<Longrightarrow> digit_char d \<noteq> c"
  by (metis is_digit_digit_char)

lemma not_digit_seps [simp]:
  "\<not> is_digit CHR ''-''" "\<not> is_digit CHR ''+''" "\<not> is_digit CHR '':''"
  "\<not> is_digit CHR ''.''" "\<not> is_digit CHR ''T''"
  by (simp_all add: is_digit_def)

lemma set_pad_digits_is_digit: "c \<in> set (pad_digits w n) \<Longrightarrow> is_digit c"
  by (induction w arbitrary: n) (auto simp: is_digit_def digit_char_def)

lemma parse_isoformat_date_pad:
  assumes "y < 10000" "m < 100" "d < 100"
  shows "parse_isoformat_date (pad_digits 4 y @ ''-'' @ pad_digits 2 m @ ''-'' @ pad_digits 2 d)
           = Some (y, m, d)"
  using assms by (simp add: parse_isoformat_date_def py_slice_def py_index_def nth_append)

lemma hms_loop_pad:
  assumes "h < 100" "mi < 100" "s < 100"
  shows "hms_loop 0 (pad_digits 2 h @ '':'' @ pad_digits 2 mi @ '':'' @ pad_digits 2 s @ rest) 0 []
           = Some ([h, mi, s], 8)"
  using assms by (simp add: hms_loop.simps py_slice_def)

lemma parse_hh_mm_ss_ff_pad:
  assumes "h < 100" "mi < 100" "s < 100" "us < 1000000"
  shows "parse_hh_mm_ss_ff (pad_digits 2 h @ '':'' @ pad_digits 2 mi @ '':'' @ pad_digits 2 s
           @ (if us = 0 then [] else ''.'' @ pad_digits 6 us)) = Some (h, mi, s, us)"
proof -
  let ?t = "pad_digits 2 h @ '':'' @ pad_digits 2 mi @ '':'' @ pad_digits 2 s
           @ (if us = 0 then [] else ''.'' @ pad_digits 6 us)"
  have loop: "hms_loop 0 ?t 0 [] = Some ([h, mi, s], 8)"
    using assms(1-3) by (rule hms_loop_pad)
  show ?thesis
  proof (cases "us = 0")
    case True
    then show ?thesis using loop by (simp add: parse_hh_mm_ss_ff_def)
  next
    case False
    then show ?thesis using loop assms(4) by (simp add: parse_hh_mm_ss_ff_def nth_append)
  qed
qed

theorem fromisoformat_isoformat:
  assumes "dt_valid dt"
  shows "fromisoformat (isoformat dt) = Inr dt"
proof -
  let ?d = "pad_digits 4 (year dt) @ ''-'' @ pad_digits 2 (month dt) @ ''-'' @ pad_digits 2 (day dt)"
  let ?t = "pad_digits 2 (hour dt) @ '':'' @ pad_digits 2 (minute dt) @ '':'' @ pad_digits 2 (second dt)
           @ (if microsecond dt = 0 then [] else ''.'' @ pad_digits 6 (microsecond dt))"
  have iso: "isoformat dt = ?d @ CHR ''T'' # ?t"
    by (simp add: isoformat_def)
  have len: "length ?d = 10" by simp
  have dm: "day dt \<le> 31"
    using assms by (auto simp: dt_valid_def days_in_month_def nth_Cons' split: if_splits)
  have date: "parse_isoformat_date ?d = Some (year dt, month dt, day dt)"
    using assms dm by (intro parse_isoformat_date_pad) (auto simp: dt_valid_def)
  have time: "parse_hh_mm_ss_ff ?t = Some (hour dt, minute dt, second dt, microsecond dt)"
    using assms by (intro parse_hh_mm_ss_ff_pad) (auto simp: dt_valid_def)
  have nosign: "CHR ''-'' \<notin> set ?t \<and> CHR ''+'' \<notin> set ?t"
    by (auto dest: set_pad_digits_is_digit)
  have mk: "make_datetime (year dt) (month dt) (day dt) (hour dt) (minute dt) (second dt)
              (microsecond dt) = Inr dt"
    using assms by (cases dt) (simp add: make_datetime_def Let_def)
  show ?thesis
    using date time nosign mk
    by (simp add: iso fromisoformat_def py_slice_def parse_isoformat_time_def)
qed

subsection \<open>Whole days between two datetimes\<close>

lemma sub_days_self [simp]: "sub_days a a = 0"
  by (simp add: sub_days_def)

text \<open>\<^verbatim>\<open>(a - b).days\<close> is \<open>n\<close> exactly when \<open>a\<close> lies between \<open>n\<close> and
  \<open>n + 1\<close> days after \<open>b\<close>: the partial day is dropped.\<close>

lemma sub_days_eq_iff:
  "sub_days a b = n \<longleftrightarrow>
     n * us_per_day \<le> total_us a - total_us b \<and> total_us a - total_us b < (n + 1) * us_per_day"
proof -
  have pos: "0 < us_per_day" by (simp add: us_per_day_def)
  show ?thesis
    unfolding sub_days_def using pos by (rule int_div_eq_iff)
qed

lemma sub_days_ge_iff:
  "n \<le> sub_days a b \<longleftrightarrow> n * us_per_day \<le> total_us a - total_us b"
proof -
  have pos: "0 < us_per_day" by (simp add: us_per_day_def)
  show ?thesis
    unfolding sub_days_def using pos by (rule int_le_div_iff)
qed

end
