(* ===== verification/PyValue.thy ===== *)
theory PyValue
  imports DateTime
begin

text \<open>
  The values a record file holds after \<^verbatim>\<open>yaml.safe_load\<close>, and the Python
  operations the scripts apply to them: \<^verbatim>\<open>entry.get(k)\<close>, \<^verbatim>\<open>entry[k]\<close>,
  \<^verbatim>\<open>k in entry\<close>, truth value (\<^verbatim>\<open>if not x\<close>), \<^verbatim>\<open>len\<close> and
  \<^verbatim>\<open>isinstance(x, list)\<close>. YAML timestamps load as \<^verbatim>\<open>date\<close> or naive
  \<^verbatim>\<open>datetime\<close> objects; floats and non-string keys do not occur in the records
  the program writes and are left out.
\<close>

datatype yval =
    YNone
  | YBool bool
  | YInt int
  | YStr string
  | YDate nat nat nat
  | YDateTime datetime
  | YList "yval list"
  | YMap "(string \<times> yval) list"

text \<open>A loaded record is a mapping from field names to values.\<close>

type_synonym entry = "yval dict"

text \<open>\<^verbatim>\<open>entry.get(k)\<close>: the value, or \<^verbatim>\<open>None\<close> when the key is absent.\<close>

definition dict_get :: "entry \<Rightarrow> string \<Rightarrow> yval" where
  "dict_get e k = (case map_of e k of None \<Rightarrow> YNone | Some v \<Rightarrow> v)"

text \<open>\<^verbatim>\<open>entry.get(k, default)\<close>.\<close>

definition dict_get_default :: "entry \<Rightarrow> string \<Rightarrow> yval \<Rightarrow> yval" where
  "dict_get_default e k dflt = (case map_of e k of None \<Rightarrow> dflt | Some v \<Rightarrow> v)"

text \<open>\<^verbatim>\<open>entry[k]\<close>: \<^verbatim>\<open>KeyError\<close> when the key is absent.\<close>

definition dict_index :: "entry \<Rightarrow> string \<Rightarrow> pyexc + yval" where
  "dict_index e k = (case map_of e k of None \<Rightarrow> Inl (KeyError k) | Some v \<Rightarrow> Inr v)"

text \<open>\<^verbatim>\<open>entry[k] = v\<close> on a dictionary: in place if the key exists, appended otherwise.\<close>

definition dict_set :: "entry \<Rightarrow> string \<Rightarrow> yval \<Rightarrow> entry" where
  "dict_set e k v = AList.update k v e"

text \<open>Attribute access such as \<^verbatim>\<open>entry.get\<close> succeeds only on a dictionary.\<close>

definition as_dict :: "yval \<Rightarrow> pyexc + entry" where
  "as_dict v = (case v of YMap e \<Rightarrow> Inr e | _ \<Rightarrow> Inl AttributeError)"

text \<open>Item assignment \<^verbatim>\<open>v[k] = x\<close> on a loaded document: a \<^verbatim>\<open>TypeError\<close>
  unless it is a dictionary (a list would need an integer index).\<close>

definition set_item :: "yval \<Rightarrow> string \<Rightarrow> yval \<Rightarrow> pyexc + yval" where
  "set_item v k x = (case v of YMap e \<Rightarrow> Inr (YMap (dict_set e k x)) | _ \<Rightarrow> Inl TypeError)"

text \<open>Item read \<^verbatim>\<open>v[k]\<close> on a loaded document.\<close>

definition get_item :: "yval \<Rightarrow> string \<Rightarrow> pyexc + yval" where
  "get_item v k = (case v of YMap e \<Rightarrow> dict_index e k | _ \<Rightarrow> Inl TypeError)"

text \<open>Python truth value.\<close>

fun py_truthy :: "yval \<Rightarrow> bool" where
  "py_truthy YNone = False"
| "py_truthy (YBool b) = b"
| "py_truthy (YInt i) = (i \<noteq> 0)"
| "py_truthy (YStr s) = (s \<noteq> [])"
| "py_truthy (YDate _ _ _) = True"
| "py_truthy (YDateTime _) = True"
| "py_truthy (YList xs) = (xs \<noteq> [])"
| "py_truthy (YMap m) = (m \<noteq> [])"

text \<open>\<^verbatim>\<open>len(x)\<close>: defined on strings, lists and dictionaries only.\<close>

fun py_len :: "yval \<Rightarrow> pyexc + nat" where
  "py_len (YStr s) = Inr (length s)"
| "py_len (YList xs) = Inr (length xs)"
| "py_len (YMap m) = Inr (length m)"
| "py_len _ = Inl TypeError"

text \<open>\<^verbatim>\<open>isinstance(x, list)\<close>.\<close>

fun is_list :: "yval \<Rightarrow> bool" where
  "is_list (YList _) = True"
| "is_list _ = False"

text \<open>A Python string, or \<^verbatim>\<open>None\<close>, as a value.\<close>

definition opt_str :: "string option \<Rightarrow> yval" where
  "opt_str s = (case s of None \<Rightarrow> YNone | Some x \<Rightarrow> YStr x)"

declare dict_get_def [vocab_defs] dict_get_default_def [vocab_defs] dict_index_def [vocab_defs]
  dict_set_def [vocab_defs] as_dict_def [vocab_defs] set_item_def [vocab_defs]
  get_item_def [vocab_defs] opt_str_def [vocab_defs]

subsection \<open>Lemmas\<close>

lemma dict_get_set_same [simp]: "dict_get (dict_set e k v) k = v"
  by (simp add: dict_get_def dict_set_def)

lemma dict_get_set_other [simp]: "k' \<noteq> k \<Longrightarrow> dict_get (dict_set e k v) k' = dict_get e k'"
  by (simp add: dict_get_def dict_set_def)

lemma dict_index_Inr_iff: "dict_index e k = Inr v \<longleftrightarrow> map_of e k = Some v"
  by (simp add: dict_index_def split: option.splits)

lemma dict_get_Some: "map_of e k = Some v \<Longrightarrow> dict_get e k = v"
  by (simp add: dict_get_def)

lemma dict_get_None: "map_of e k = None \<Longrightarrow> dict_get e k = YNone"
  by (simp add: dict_get_def)

text \<open>The test \<^verbatim>\<open>field not in entry or entry[field] is None\<close> is
  \<^verbatim>\<open>entry.get(field) is None\<close>.\<close>

lemma absent_or_none_iff:
  "(map_of e k = None \<or> map_of e k = Some YNone) \<longleftrightarrow> dict_get e k = YNone"
  by (simp add: dict_get_def split: option.splits)

lemma map_of_set_other: "a \<noteq> k \<Longrightarrow> map_of (dict_set e k v) a = map_of e a"
  by (simp add: dict_set_def)

lemma dict_keys_set_distinct:
  "distinct (dict_keys e) \<Longrightarrow> distinct (dict_keys (dict_set e k v))"
  by (simp add: dict_set_def distinct_keys_update)

end
