(* ===== verification/Lifecycle.thy ===== *)
theory Lifecycle
  imports PyValue
begin

text \<open>
  The lifecycle predicates of \<^verbatim>\<open>src/vocab_lib.py\<close>: \<^verbatim>\<open>is_promoted_word\<close>,
  \<^verbatim>\<open>is_promoted_idiom\<close>, \<^verbatim>\<open>is_promoted_terminology\<close>, their dispatcher
  \<^verbatim>\<open>is_promoted\<close>, \<^verbatim>\<open>is_due_for_review\<close> and \<^verbatim>\<open>get_entry_status\<close>.
  The clock read \<^verbatim>\<open>datetime.now()\<close> inside \<^verbatim>\<open>is_due_for_review\<close> is the
  explicit argument \<open>now\<close>. The lemmas characterise promotion per category in
  both directions, show that unpromoted entries are never due, that promoted
  entries never reviewed always are, and that a record reviewed at \<open>r\<close> is due
  exactly when the whole days since \<open>r\<close> reach the interval.
\<close>

text \<open>The loop of \<^verbatim>\<open>is_promoted_word\<close> and \<^verbatim>\<open>is_promoted_idiom\<close>: every
  required field present and not \<^verbatim>\<open>None\<close>, and \<^verbatim>\<open>examples\<close> a non-empty
  list; the first failing field returns \<^verbatim>\<open>False\<close>.\<close>

fun fields_ok_with_examples :: "entry \<Rightarrow> string list \<Rightarrow> bool" where
  "fields_ok_with_examples e [] = True"
| "fields_ok_with_examples e (f # fs) =
     (if map_of e f = None \<or> map_of e f = Some YNone then False
      else if f = ''examples'' \<and> \<not> (is_list (dict_get e f) \<and> py_len (dict_get e f) \<noteq> Inr 0)
      then False
      else fields_ok_with_examples e fs)"

text \<open>The loop of \<^verbatim>\<open>is_promoted_terminology\<close>: presence only.\<close>

fun fields_ok :: "entry \<Rightarrow> string list \<Rightarrow> bool" where
  "fields_ok e [] = True"
| "fields_ok e (f # fs) =
     (if map_of e f = None \<or> map_of e f = Some YNone then False else fields_ok e fs)"

definition is_promoted_word :: "entry \<Rightarrow> bool" where
  "is_promoted_word e =
     fields_ok_with_examples e [''name'', ''part_of_speech'', ''meaning'', ''examples'']"

definition is_promoted_idiom :: "entry \<Rightarrow> bool" where
  "is_promoted_idiom e = fields_ok_with_examples e [''name'', ''meaning'', ''examples'']"

definition is_promoted_terminology :: "entry \<Rightarrow> bool" where
  "is_promoted_terminology e = fields_ok e [''name'', ''context'', ''meaning'', ''example'']"

definition is_promoted :: "entry \<Rightarrow> bool" where
  "is_promoted e =
     (let t = dict_get e ''type'' in
      if t = YStr ''word'' then is_promoted_word e
      else if t = YStr ''idiom'' then is_promoted_idiom e
      else if t = YStr ''terminology'' then is_promoted_terminology e
      else False)"

text \<open>\<^verbatim>\<open>is_due_for_review(entry, days)\<close> with the current time \<open>now\<close>. A string
  timestamp goes through \<^verbatim>\<open>datetime.fromisoformat\<close> (which may raise); a
  YAML-loaded \<^verbatim>\<open>datetime\<close> is used as it is; for any other value the
  subtraction \<^verbatim>\<open>datetime.now() - last_reviewed_date\<close> raises \<^verbatim>\<open>TypeError\<close>.\<close>

definition is_due_for_review :: "datetime \<Rightarrow> entry \<Rightarrow> int \<Rightarrow> pyexc + bool" where
  "is_due_for_review now e days =
     (if \<not> is_promoted e then Inr False
      else (case dict_get e ''last_reviewed'' of
              YNone \<Rightarrow> Inr True
            | YStr s \<Rightarrow>
                (case fromisoformat s of
                   Inl x \<Rightarrow> Inl x
                 | Inr r \<Rightarrow> Inr (days \<le> sub_days now r))
            | YDateTime r \<Rightarrow> Inr (days \<le> sub_days now r)
            | _ \<Rightarrow> Inl TypeError))"

definition get_entry_status :: "entry \<Rightarrow> string" where
  "get_entry_status e =
     (if is_promoted e then
        (if dict_get e ''last_reviewed'' = YNone then ''promoted (never reviewed)''
         else ''promoted (reviewed)'')
      else ''stub'')"

declare is_promoted_word_def [vocab_defs] is_promoted_idiom_def [vocab_defs]
  is_promoted_terminology_def [vocab_defs] is_promoted_def [vocab_defs]
  is_due_for_review_def [vocab_defs] get_entry_status_def [vocab_defs]

text \<open>A field counts as present when \<^verbatim>\<open>entry.get(field)\<close> is not \<^verbatim>\<open>None\<close>;
  \<^verbatim>\<open>examples\<close> must moreover be a non-empty list.\<close>

definition present :: "entry \<Rightarrow> string \<Rightarrow> bool" where
  "present e f \<longleftrightarrow> dict_get e f \<noteq> YNone"

definition nonempty_list :: "yval \<Rightarrow> bool" where
  "nonempty_list v \<longleftrightarrow> is_list v \<and> v \<noteq> YList []"

text \<open>Sample records and times used by the witnesses below.\<close>

definition sample_idiom :: "yval \<Rightarrow> entry" where
  "sample_idiom lr =
     [(''id'', YStr ''0b6f''), (''name'', YStr ''spill the beans''), (''type'', YStr ''idiom''),
      (''created_at'', YStr ''2024-01-01T09:00:00''), (''meaning'', YStr ''reveal a secret''),
      (''examples'', YList [YStr ''She spilled the beans.'']), (''last_reviewed'', lr)]"

definition sample_dt :: "nat \<Rightarrow> datetime" where
  "sample_dt d = \<lparr>year = 2024, month = 1, day = d, hour = 9, minute = 30, second = 0,
                   microsecond = 250\<rparr>"

subsection \<open>The loops\<close>

lemma fields_ok_iff: "fields_ok e fs \<longleftrightarrow> list_all (present e) fs"
  by (induction fs) (auto simp: present_def absent_or_none_iff)

lemma list_ok_iff: "(is_list v \<and> py_len v \<noteq> Inr 0) \<longleftrightarrow> nonempty_list v"
  by (cases v) (auto simp: nonempty_list_def)

lemma fields_ok_with_examples_iff:
  "fields_ok_with_examples e fs \<longleftrightarrow>
     list_all (present e) fs \<and> (''examples'' \<in> set fs \<longrightarrow> nonempty_list (dict_get e ''examples''))"
  by (induction fs) (auto simp: present_def absent_or_none_iff list_ok_iff nonempty_list_def)

lemma nonempty_list_present: "nonempty_list (dict_get e f) \<Longrightarrow> present e f"
  by (auto simp: nonempty_list_def present_def)

lemmas promoted_simps = is_promoted_def is_promoted_word_def is_promoted_idiom_def
  is_promoted_terminology_def fields_ok_iff fields_ok_with_examples_iff

lemma is_promoted_present_name: "is_promoted e \<Longrightarrow> present e ''name''"
  by (auto simp: promoted_simps Let_def split: if_splits)

lemma is_promoted_present_meaning: "is_promoted e \<Longrightarrow> present e ''meaning''"
  by (auto simp: promoted_simps Let_def split: if_splits)

lemma is_promoted_has_name: "is_promoted e \<Longrightarrow> \<exists>v. map_of e ''name'' = Some v"
proof -
  assume "is_promoted e"
  then have "dict_get e ''name'' \<noteq> YNone"
    using is_promoted_present_name by (simp add: present_def)
  then show ?thesis by (auto simp: dict_get_def split: option.splits)
qed

text \<open>Promotion depends only on the fields it tests.\<close>

lemma fields_ok_cong:
  "list_all (\<lambda>f. map_of e f = map_of e' f) fs \<Longrightarrow> fields_ok e fs = fields_ok e' fs"
  by (induction fs) simp_all

lemma fields_ok_with_examples_cong:
  "list_all (\<lambda>f. map_of e f = map_of e' f) fs \<Longrightarrow>
     fields_ok_with_examples e fs = fields_ok_with_examples e' fs"
  unfolding fields_ok_with_examples_iff by (auto simp: list_all_iff present_def dict_get_def)

lemma list_all_map_of_set_other:
  "k \<notin> set fs \<Longrightarrow> list_all (\<lambda>f. map_of (dict_set e k v) f = map_of e f) fs"
  by (induction fs) (auto simp: map_of_set_other)

lemma is_promoted_set_other:
  assumes "k \<notin> {''type'', ''name'', ''part_of_speech'', ''meaning'', ''examples'', ''context'', ''example''}"
  shows "is_promoted (dict_set e k v) = is_promoted e"
proof -
  have "''type'' \<noteq> k" using assms by auto
  then have t: "dict_get (dict_set e k v) ''type'' = dict_get e ''type''"
    by (simp add: dict_get_def map_of_set_other)
  have w: "is_promoted_word (dict_set e k v) = is_promoted_word e"
    unfolding is_promoted_word_def using assms
    by (intro fields_ok_with_examples_cong list_all_map_of_set_other) auto
  have i: "is_promoted_idiom (dict_set e k v) = is_promoted_idiom e"
    unfolding is_promoted_idiom_def using assms
    by (intro fields_ok_with_examples_cong list_all_map_of_set_other) auto
  have r: "is_promoted_terminology (dict_set e k v) = is_promoted_terminology e"
    unfolding is_promoted_terminology_def using assms
    by (intro fields_ok_cong list_all_map_of_set_other) auto
  show ?thesis by (simp add: is_promoted_def t w i r)
qed

lemma is_promoted_set_last_reviewed [simp]:
  "is_promoted (dict_set e ''last_reviewed'' v) = is_promoted e"
  by (rule is_promoted_set_other) simp

lemma present_set_str: "present (dict_set e f (YStr s)) g = (g = f \<or> present e g)"
  by (cases "g = f") (simp_all add: present_def)

subsection \<open>Due for review\<close>

lemma is_due_promoted_cases:
  assumes "is_promoted e"
  shows "is_due_for_review now e days =
     (case dict_get e ''last_reviewed'' of
        YNone \<Rightarrow> Inr True
      | YStr s \<Rightarrow> (case fromisoformat s of Inl x \<Rightarrow> Inl x | Inr r \<Rightarrow> Inr (days \<le> sub_days now r))
      | YDateTime r \<Rightarrow> Inr (days \<le> sub_days now r)
      | _ \<Rightarrow> Inl TypeError)"
  using assms by (simp add: is_due_for_review_def)

text \<open>A promoted record whose \<^verbatim>\<open>last_reviewed\<close> is the \<^verbatim>\<open>isoformat()\<close> of a
  datetime \<open>r\<close> (as \<^verbatim>\<open>mark_reviewed.py\<close> writes it) is due exactly when the
  whole days from \<open>r\<close> to \<open>now\<close> reach the interval.\<close>

lemma is_due_isoformat:
  assumes "is_promoted e" and "dict_get e ''last_reviewed'' = YStr (isoformat r)" and "dt_valid r"
  shows "is_due_for_review now e days = Inr (days \<le> sub_days now r)"
  using assms by (simp add: is_due_promoted_cases fromisoformat_isoformat)

text \<open>C1: Promotion is exactly the per-category table of required fields: a
  word needs a name, a part of speech, a meaning and a non-empty list of
  examples; an idiom a name, a meaning and a non-empty list of examples; a
  terminology a name, a context, a meaning and an example. "Present" means the
  field exists and is not \<^verbatim>\<open>None\<close>; any other \<^verbatim>\<open>type\<close> is never promoted.\<close>

theorem is_promoted_iff:
  "is_promoted e \<longleftrightarrow>
     (dict_get e ''type'' = YStr ''word'' \<and> present e ''name'' \<and> present e ''part_of_speech''
        \<and> present e ''meaning'' \<and> nonempty_list (dict_get e ''examples''))
   \<or> (dict_get e ''type'' = YStr ''idiom'' \<and> present e ''name'' \<and> present e ''meaning''
        \<and> nonempty_list (dict_get e ''examples''))
   \<or> (dict_get e ''type'' = YStr ''terminology'' \<and> present e ''name'' \<and> present e ''context''
        \<and> present e ''meaning'' \<and> present e ''example'')"
  by (auto simp: promoted_simps Let_def nonempty_list_present)

text \<open>C2: An entry that is not promoted is never due for review, whatever its
  timestamps and the interval; in particular the predicate does not raise on it.\<close>

theorem is_due_unpromoted:
  assumes "\<not> is_promoted e"
  shows "is_due_for_review now e days = Inr False"
  using assms by (simp add: is_due_for_review_def)

text \<open>C3: A promoted entry that was never reviewed is due for every interval.\<close>

theorem is_due_never_reviewed:
  assumes "is_promoted e" and "dict_get e ''last_reviewed'' = YNone"
  shows "is_due_for_review now e days = Inr True"
  using assms by (simp add: is_due_promoted_cases)

text \<open>C4: A promoted entry last reviewed exactly \<open>n\<close> whole days ago is due
  with interval \<open>n\<close> and not due with interval \<open>n + 1\<close>.\<close>

theorem is_due_exact_days:
  assumes "is_promoted e" and "dict_get e ''last_reviewed'' = YStr (isoformat r)"
    and "dt_valid r" and "sub_days now r = n"
  shows "is_due_for_review now e n = Inr True \<and> is_due_for_review now e (n + 1) = Inr False"
  using assms by (simp add: is_due_isoformat)

text \<open>C5: A promoted entry whose \<^verbatim>\<open>last_reviewed\<close> is neither a timestamp
  string nor a \<^verbatim>\<open>datetime\<close> makes \<^verbatim>\<open>is_due_for_review\<close> raise: a bare YAML
  date (\<^verbatim>\<open>2024-01-05\<close> unquoted) gives \<^verbatim>\<open>TypeError\<close>.\<close>

theorem is_due_bare_date:
  assumes "is_promoted e" and "dict_get e ''last_reviewed'' = YDate y m d"
  shows "is_due_for_review now e days = Inl TypeError"
  using assms by (simp add: is_due_promoted_cases)

text \<open>C6: Contrary to the documented requirement that required fields be
  non-empty, presence is only ``not \<^verbatim>\<open>None\<close>'': for every record and every field
  other than \<^verbatim>\<open>type\<close> and \<^verbatim>\<open>examples\<close>, setting the field to the empty string
  promotes exactly as setting it to any other string does.\<close>

theorem empty_field_counts_as_filled:
  assumes "f \<noteq> ''type''" and "f \<noteq> ''examples''"
  shows "is_promoted (dict_set e f (YStr [])) = is_promoted (dict_set e f (YStr s))"
proof -
  have t: "dict_get (dict_set e f v) ''type'' = dict_get e ''type''"
    and x: "dict_get (dict_set e f v) ''examples'' = dict_get e ''examples''" for v
    using assms by (simp_all add: eq_commute [of f])
  have p: "present (dict_set e f (YStr [])) = present (dict_set e f (YStr s))"
    by (simp add: fun_eq_iff present_set_str)
  show ?thesis by (simp add: is_promoted_def Let_def promoted_simps t x p)
qed

subsection \<open>Witnesses\<close>

lemma sample_idiom_promoted: "is_promoted (sample_idiom lr)"
  by (simp add: sample_idiom_def promoted_simps present_def dict_get_def nonempty_list_def)

lemma sample_idiom_last_reviewed: "dict_get (sample_idiom lr) ''last_reviewed'' = lr"
  by (simp add: sample_idiom_def dict_get_def)

lemma sample_dt_valid: "d \<ge> 1 \<Longrightarrow> d \<le> 31 \<Longrightarrow> dt_valid (sample_dt d)"
  by (simp add: sample_dt_def dt_valid_def days_in_month_def is_leap_def)

lemma is_due_unpromoted_witness:
  "\<not> is_promoted [(''type'', YStr ''word''), (''name'', YStr ''ice'')]
   \<and> is_due_for_review (sample_dt 9) [(''type'', YStr ''word''), (''name'', YStr ''ice'')] 7 = Inr False"
proof -
  have p: "\<not> is_promoted [(''type'', YStr ''word''), (''name'', YStr ''ice'')]"
    by (simp add: promoted_simps dict_get_def present_def)
  show ?thesis using p is_due_unpromoted [OF p] by simp
qed

lemma is_due_never_reviewed_witness:
  "is_promoted (sample_idiom YNone) \<and> dict_get (sample_idiom YNone) ''last_reviewed'' = YNone
   \<and> is_due_for_review (sample_dt 2) (sample_idiom YNone) 7 = Inr True"
  using is_due_never_reviewed [OF sample_idiom_promoted sample_idiom_last_reviewed]
  by (simp add: sample_idiom_promoted sample_idiom_last_reviewed)

lemma is_due_exact_days_witness:
  "is_promoted (sample_idiom (YStr (isoformat (sample_dt 1))))
   \<and> dict_get (sample_idiom (YStr (isoformat (sample_dt 1)))) ''last_reviewed''
       = YStr (isoformat (sample_dt 1))
   \<and> dt_valid (sample_dt 1) \<and> sub_days (sample_dt 9) (sample_dt 1) = 8
   \<and> is_due_for_review (sample_dt 9) (sample_idiom (YStr (isoformat (sample_dt 1)))) 8 = Inr True
   \<and> is_due_for_review (sample_dt 9) (sample_idiom (YStr (isoformat (sample_dt 1)))) (8 + 1) = Inr False"
proof -
  have v: "dt_valid (sample_dt 1)" by (simp add: sample_dt_valid)
  have d: "sub_days (sample_dt 9) (sample_dt 1) = 8"
    by (simp add: sample_dt_def sub_days_def total_us_def toordinal_def us_per_day_def
        days_before_year_def days_before_month_def is_leap_def)
  show ?thesis
    using v d is_due_exact_days [OF sample_idiom_promoted sample_idiom_last_reviewed v d]
    by (simp add: sample_idiom_promoted sample_idiom_last_reviewed)
qed

lemma is_due_bare_date_witness:
  "is_promoted (sample_idiom (YDate 2024 1 5))
   \<and> dict_get (sample_idiom (YDate 2024 1 5)) ''last_reviewed'' = YDate 2024 1 5
   \<and> is_due_for_review (sample_dt 9) (sample_idiom (YDate 2024 1 5)) 7 = Inl TypeError"
  using is_due_bare_date [OF sample_idiom_promoted sample_idiom_last_reviewed]
  by (simp add: sample_idiom_promoted sample_idiom_last_reviewed)

lemma empty_field_counts_as_filled_witness:
  "''meaning'' \<noteq> ''type'' \<and> ''meaning'' \<noteq> ''examples''
   \<and> is_promoted (dict_set (sample_idiom YNone) ''meaning'' (YStr []))"
proof -
  have "dict_set (sample_idiom YNone) ''meaning'' (YStr ''reveal a secret'') = sample_idiom YNone"
    by (simp add: sample_idiom_def dict_set_def)
  then show ?thesis
    using empty_field_counts_as_filled [of "''meaning''" "sample_idiom YNone" "''reveal a secret''"]
      sample_idiom_promoted by simp
qed

end
