(* ===== verification/Slug.thy ===== *)
theory Slug
  imports Vocab_Prelude
begin

text \<open>
  Name normalisation. \<^verbatim>\<open>add_entry.py\<close> and \<^verbatim>\<open>mark_reviewed.py\<close> each define
  their own \<^verbatim>\<open>slugify(text)\<close>, \<^verbatim>\<open>text.lower().replace(' ', '-').replace('/', '-')\<close>;
  an entry is reachable by name only if the two agree. Names are byte strings
  here, and \<^verbatim>\<open>str.lower\<close> is modelled on ASCII letters (Python also lowers
  non-ASCII letters, which the byte model leaves alone). The lemmas show that the
  two copies are the same function, that a slug has no space, slash or upper-case
  ASCII letter, that normalising twice changes nothing, and which different names
  share a slug.
\<close>

text \<open>\<^verbatim>\<open>str.lower\<close> on one character.\<close>

definition lower_char :: "char \<Rightarrow> char" where
  "lower_char c =
     (if 65 \<le> (of_char c :: nat) \<and> (of_char c :: nat) \<le> 90 then char_of (of_char c + (32::nat)) else c)"

definition py_lower :: "string \<Rightarrow> string" where
  "py_lower s = map lower_char s"

text \<open>\<^verbatim>\<open>s.replace(old, new)\<close> for one-character \<^verbatim>\<open>old\<close> and \<^verbatim>\<open>new\<close>.\<close>

definition py_replace_char :: "char \<Rightarrow> char \<Rightarrow> string \<Rightarrow> string" where
  "py_replace_char a b s = map (\<lambda>x. if x = a then b else x) s"

text \<open>\<^verbatim>\<open>add_entry.slugify\<close>.\<close>

definition slugify :: "string \<Rightarrow> string" where
  "slugify text = py_replace_char CHR ''/'' CHR ''-'' (py_replace_char CHR '' '' CHR ''-'' (py_lower text))"

text \<open>\<^verbatim>\<open>mark_reviewed.slugify\<close>, a separate copy of the same expression.\<close>

definition slugify_mr :: "string \<Rightarrow> string" where
  "slugify_mr text = py_replace_char CHR ''/'' CHR ''-'' (py_replace_char CHR '' '' CHR ''-'' (py_lower text))"

text \<open>What normalisation does to one character.\<close>

definition slug_char :: "char \<Rightarrow> char" where
  "slug_char c = (let l = lower_char c in if l = CHR '' '' \<or> l = CHR ''/'' then CHR ''-'' else l)"

declare lower_char_def [vocab_defs] py_lower_def [vocab_defs] py_replace_char_def [vocab_defs]
  slugify_def [vocab_defs] slugify_mr_def [vocab_defs]

subsection \<open>Lemmas\<close>

lemma slugify_map: "slugify s = map slug_char s"
  by (simp add: slugify_def py_replace_char_def py_lower_def slug_char_def Let_def)

lemma slugify_mr_apply: "slugify_mr s = slugify s"
  by (simp add: slugify_mr_def slugify_def)

lemma of_char_lt_256: "(of_char c :: nat) < 256"
  using of_char_mod_256 [of c] by (metis mod_less_divisor zero_less_numeral)

lemma of_char_lower_char:
  "(of_char (lower_char c) :: nat) =
     (if 65 \<le> (of_char c :: nat) \<and> (of_char c :: nat) \<le> 90 then of_char c + 32 else of_char c)"
  using of_char_lt_256 [of c] by (simp add: lower_char_def)

lemma lower_char_idem [simp]: "lower_char (lower_char c) = lower_char c"
proof -
  have "\<not> (65 \<le> (of_char (lower_char c) :: nat) \<and> (of_char (lower_char c) :: nat) \<le> 90)"
    by (simp add: of_char_lower_char)
  then show ?thesis unfolding lower_char_def [of "lower_char c"] by (rule if_not_P)
qed

lemma lower_char_eq_nonletter:
  assumes "\<not> (65 \<le> (of_char d :: nat) \<and> (of_char d :: nat) \<le> 90)"
    and "\<not> (97 \<le> (of_char d :: nat) \<and> (of_char d :: nat) \<le> 122)"
  shows "lower_char c = d \<longleftrightarrow> c = d"
proof
  assume "lower_char c = d"
  then have "(of_char (lower_char c) :: nat) = of_char d" by simp
  with assms have "(of_char c :: nat) = of_char d"
    by (simp add: of_char_lower_char split: if_splits)
  then show "c = d" by simp
next
  assume "c = d"
  with assms show "lower_char c = d" unfolding lower_char_def by (auto intro: if_not_P)
qed

lemma lower_char_seps [simp]:
  "lower_char c = CHR '' '' \<longleftrightarrow> c = CHR '' ''"
  "lower_char c = CHR ''/'' \<longleftrightarrow> c = CHR ''/''"
  "lower_char c = CHR ''-'' \<longleftrightarrow> c = CHR ''-''"
  "CHR '' '' = lower_char c \<longleftrightarrow> c = CHR '' ''"
  "CHR ''/'' = lower_char c \<longleftrightarrow> c = CHR ''/''"
  by (simp_all add: lower_char_eq_nonletter eq_commute [of _ "lower_char c"])

lemma slug_char_idem [simp]: "slug_char (slug_char c) = slug_char c"
  by (simp add: slug_char_def Let_def)

lemma slug_char_not_sep [simp]:
  "slug_char c \<noteq> CHR '' ''" "slug_char c \<noteq> CHR ''/''"
  "CHR '' '' \<noteq> slug_char c" "CHR ''/'' \<noteq> slug_char c"
  by (simp_all add: slug_char_def Let_def)

lemma slug_char_not_upper:
  "\<not> (65 \<le> (of_char (slug_char c) :: nat) \<and> (of_char (slug_char c) :: nat) \<le> 90)"
  by (simp add: slug_char_def Let_def of_char_lower_char)

lemma slug_char_lower: "slug_char (lower_char c) = slug_char c"
  by (simp add: slug_char_def Let_def)

lemma slug_char_hyphen:
  "slug_char (if c = a then CHR ''-'' else c) = slug_char c" if "a = CHR '' '' \<or> a = CHR ''/''"
  using that by (auto simp: slug_char_def Let_def)

text \<open>C7: The two copies of \<^verbatim>\<open>slugify\<close>, the one that names the file at
  creation and the one that looks it up when marking reviewed, are the same
  function, so every name maps to the same slug on both paths.\<close>

theorem slugify_mr_eq: "slugify_mr = slugify"
  by (simp add: fun_eq_iff slugify_mr_def slugify_def)

text \<open>C8: Normalising a slug again changes nothing.\<close>

theorem slugify_idem: "slugify (slugify s) = slugify s"
  by (simp add: slugify_map)

text \<open>C9: A slug contains no space, no slash and no upper-case ASCII letter,
  so a record file name never has a separator in it and never depends on the
  case of the name's ASCII letters.\<close>

theorem slugify_safe:
  "CHR '' '' \<notin> set (slugify s) \<and> CHR ''/'' \<notin> set (slugify s)
   \<and> list_all (\<lambda>c. \<not> (65 \<le> (of_char c :: nat) \<and> (of_char c :: nat) \<le> 90)) (slugify s)"
  using slug_char_not_upper by (auto simp: slugify_map list_all_iff)

text \<open>C10: \<^verbatim>\<open>slugify\<close> does not tell apart a name, its lower-case form, and the
  name with its spaces or its slashes written as hyphens: all of them name the
  same record file (\<^verbatim>\<open>Break the ice\<close>, \<^verbatim>\<open>break the ice\<close>,
  \<^verbatim>\<open>break-the-ice\<close> and \<^verbatim>\<open>Break/the ice\<close> collide).\<close>

theorem slugify_collision:
  "slugify (py_lower s) = slugify s
   \<and> slugify (py_replace_char CHR '' '' CHR ''-'' s) = slugify s
   \<and> slugify (py_replace_char CHR ''/'' CHR ''-'' s) = slugify s"
  by (simp add: slugify_map py_lower_def py_replace_char_def slug_char_lower slug_char_hyphen)

end
