(* ===== verification/Store.thy ===== *)
theory Store
  imports Lifecycle Slug
begin

text \<open>
  The entry store: the working directory with its three category directories
  \<^verbatim>\<open>words/\<close>, \<^verbatim>\<open>idioms/\<close> and \<^verbatim>\<open>terminologies/\<close>, each a listing of
  record files. A file holds a YAML document, or text that
  \<^verbatim>\<open>yaml.safe_load\<close> rejects. \<^verbatim>\<open>yaml.dump\<close> followed by \<^verbatim>\<open>yaml.safe_load\<close>
  gives back the dumped value for the values the program writes (strings that
  look like timestamps are quoted by the dumper), so a written document is
  stored as the value itself. Directory listings keep the order in which the
  operating system returns them; a new file goes to the end.

  Operations: \<^verbatim>\<open>load_entry\<close> and \<^verbatim>\<open>save_entry\<close> and \<^verbatim>\<open>get_all_entries\<close> of
  \<^verbatim>\<open>vocab_lib.py\<close>, \<^verbatim>\<open>find_entry_by_name\<close> of \<^verbatim>\<open>mark_reviewed.py\<close>, and the
  file-system primitives they use (\<^verbatim>\<open>open\<close>, \<^verbatim>\<open>Path.exists\<close>,
  \<^verbatim>\<open>Path.mkdir(exist_ok=True)\<close>, \<^verbatim>\<open>Path.glob('*.yaml')\<close>).
  \<open>keeps_records st st'\<close> says that every mapping record of \<open>st\<close> is still in
  \<open>st'\<close> with the same fields, \<^verbatim>\<open>last_reviewed\<close> apart.
\<close>

datatype file_content = Doc yval | Unparsable

type_synonym listing = "(string \<times> file_content) list"

text \<open>A path is a directory name and a file name.\<close>

type_synonym path = "string \<times> string"

record store =
  dirs :: "(string \<times> listing) list"

definition listing_of :: "store \<Rightarrow> string \<Rightarrow> listing option" where
  "listing_of st d = map_of (dirs st) d"

text \<open>\<^verbatim>\<open>Path(d) / f).exists()\<close>.\<close>

definition path_exists :: "store \<Rightarrow> path \<Rightarrow> bool" where
  "path_exists st p =
     (case listing_of st (fst p) of None \<Rightarrow> False | Some l \<Rightarrow> map_of l (snd p) \<noteq> None)"

text \<open>\<^verbatim>\<open>open(p, 'r')\<close> and reading it.\<close>

definition read_file :: "store \<Rightarrow> path \<Rightarrow> pyexc + file_content" where
  "read_file st p =
     (case listing_of st (fst p) of
        None \<Rightarrow> Inl FileNotFoundError
      | Some l \<Rightarrow> (case map_of l (snd p) of None \<Rightarrow> Inl FileNotFoundError | Some c \<Rightarrow> Inr c))"

text \<open>\<^verbatim>\<open>open(p, 'w')\<close> and writing it: the directory must exist; the file is
  replaced, or created at the end of the listing.\<close>

definition write_file :: "store \<Rightarrow> path \<Rightarrow> file_content \<Rightarrow> pyexc + store" where
  "write_file st p c =
     (case listing_of st (fst p) of
        None \<Rightarrow> Inl FileNotFoundError
      | Some l \<Rightarrow> Inr (st\<lparr>dirs := AList.update (fst p) (AList.update (snd p) c l) (dirs st)\<rparr>))"

text \<open>\<^verbatim>\<open>Path(d).mkdir(exist_ok=True)\<close>.\<close>

definition mkdir_exist_ok :: "store \<Rightarrow> string \<Rightarrow> store" where
  "mkdir_exist_ok st d =
     (case listing_of st d of None \<Rightarrow> st\<lparr>dirs := AList.update d [] (dirs st)\<rparr> | Some _ \<Rightarrow> st)"

text \<open>\<^verbatim>\<open>vocab_lib.load_entry\<close>: \<^verbatim>\<open>yaml.safe_load\<close> of the file.\<close>

definition load_entry :: "store \<Rightarrow> path \<Rightarrow> pyexc + yval" where
  "load_entry st p =
     (case read_file st p of
        Inl x \<Rightarrow> Inl x
      | Inr (Doc v) \<Rightarrow> Inr v
      | Inr Unparsable \<Rightarrow> Inl YAMLError)"

text \<open>\<^verbatim>\<open>vocab_lib.save_entry\<close>: \<^verbatim>\<open>yaml.dump\<close> into the file.\<close>

definition save_entry :: "store \<Rightarrow> path \<Rightarrow> yval \<Rightarrow> pyexc + store" where
  "save_entry st p v = write_file st p (Doc v)"

text \<open>The directories in the fixed order of the scripts' loops.\<close>

definition category_dirs :: "string list" where
  "category_dirs = [''words'', ''idioms'', ''terminologies'']"

text \<open>The pattern \<^verbatim>\<open>*.yaml\<close>.\<close>

definition is_yaml_name :: "string \<Rightarrow> bool" where
  "is_yaml_name f \<longleftrightarrow> drop (length f - 5) f = ''.yaml''"

text \<open>\<^verbatim>\<open>vocab_lib.get_all_entries\<close>: the \<^verbatim>\<open>*.yaml\<close> files of each existing
  category directory, directory by directory.\<close>

definition get_all_entries :: "store \<Rightarrow> path list" where
  "get_all_entries st =
     concat (map (\<lambda>d. case listing_of st d of
                         None \<Rightarrow> []
                       | Some l \<Rightarrow> map (\<lambda>f. (d, f)) (filter is_yaml_name (map fst l)))
                 category_dirs)"

text \<open>The loop of \<^verbatim>\<open>find_entry_by_name\<close>: the first directory holding the file.\<close>

fun find_in_dirs :: "store \<Rightarrow> string \<Rightarrow> string list \<Rightarrow> path option" where
  "find_in_dirs st fn [] = None"
| "find_in_dirs st fn (d # ds) =
     (if path_exists st (d, fn) then Some (d, fn) else find_in_dirs st fn ds)"

definition find_entry_by_name :: "store \<Rightarrow> string \<Rightarrow> path option" where
  "find_entry_by_name st name = find_in_dirs st (slugify_mr name @ ''.yaml'') category_dirs"

text \<open>Well-formedness: no directory appears twice, and no file twice in one
  directory (what a file system guarantees).\<close>

definition store_wf :: "store \<Rightarrow> bool" where
  "store_wf st \<longleftrightarrow>
     distinct (map fst (dirs st)) \<and> list_all (\<lambda>(d, l). distinct (map fst l)) (dirs st)"

text \<open>A sample store for the witnesses: a word record, a file that is not
  YAML, and an idiom record.\<close>

definition sample_store :: store where
  "sample_store =
     \<lparr>dirs = [(''words'', [(''ice.yaml'', Doc (YMap [(''name'', YStr ''ice''), (''type'', YStr ''word'')])),
                             (''notes.txt'', Unparsable)]),
               (''idioms'', [(''spill-the-beans.yaml'', Doc (YMap (sample_idiom YNone)))])]\<rparr>"

text \<open>Every record file of \<open>st\<close> that holds a mapping still holds one in
  \<open>st'\<close>, with the same keys in the same order and the same values, except
  possibly \<^verbatim>\<open>last_reviewed\<close>.\<close>

definition keeps_records :: "store \<Rightarrow> store \<Rightarrow> bool" where
  "keeps_records st st' \<longleftrightarrow>
     (\<forall>q e. load_entry st q = Inr (YMap e) \<longrightarrow>
        (\<exists>e'. load_entry st' q = Inr (YMap e')
              \<and> AList.delete ''last_reviewed'' e' = AList.delete ''last_reviewed'' e))"

declare listing_of_def [vocab_defs] path_exists_def [vocab_defs] read_file_def [vocab_defs]
  write_file_def [vocab_defs] mkdir_exist_ok_def [vocab_defs] load_entry_def [vocab_defs]
  save_entry_def [vocab_defs] category_dirs_def [vocab_defs] is_yaml_name_def [vocab_defs]
  get_all_entries_def [vocab_defs] find_entry_by_name_def [vocab_defs] store_wf_def [vocab_defs]

subsection \<open>Lemmas\<close>

lemma write_file_Inr:
  "write_file st p c = Inr st' \<longleftrightarrow>
     (\<exists>l. listing_of st (fst p) = Some l
          \<and> st' = st\<lparr>dirs := AList.update (fst p) (AList.update (snd p) c l) (dirs st)\<rparr>)"
  by (auto simp: write_file_def split: option.splits)

lemma listing_of_write:
  assumes "write_file st p c = Inr st'" and "listing_of st (fst p) = Some l"
  shows "listing_of st' d = (if d = fst p then Some (AList.update (snd p) c l) else listing_of st d)"
  using assms by (auto simp: write_file_Inr listing_of_def update_conv')

lemma read_write_same:
  assumes "write_file st p c = Inr st'"
  shows "read_file st' p = Inr c"
proof -
  obtain l where l: "listing_of st (fst p) = Some l" using assms by (auto simp: write_file_Inr)
  show ?thesis using listing_of_write [OF assms l] by (simp add: read_file_def update_conv')
qed

lemma read_write_other:
  assumes "write_file st p c = Inr st'" and "p' \<noteq> p"
  shows "read_file st' p' = read_file st p'"
proof -
  obtain l where l: "listing_of st (fst p) = Some l" using assms by (auto simp: write_file_Inr)
  show ?thesis
    using listing_of_write [OF assms(1) l] assms(2) l
    by (cases p, cases p') (auto simp: read_file_def update_conv')
qed

lemma path_exists_read: "path_exists st p \<longleftrightarrow> (\<exists>c. read_file st p = Inr c)"
  by (auto simp: path_exists_def read_file_def split: option.splits)

lemma path_exists_write:
  assumes "write_file st p c = Inr st'"
  shows "path_exists st' p' \<longleftrightarrow> p' = p \<or> path_exists st p'"
proof (cases "p' = p")
  case True
  then show ?thesis using read_write_same [OF assms] by (simp add: path_exists_read)
next
  case False
  then show ?thesis using read_write_other [OF assms False] by (simp add: path_exists_read)
qed

lemma list_all_update:
  "list_all P al \<Longrightarrow> P (k, v) \<Longrightarrow> list_all P (AList.update k v al)"
  by (induction al) auto

lemma write_file_wf:
  assumes "store_wf st" and "write_file st p c = Inr st'"
  shows "store_wf st'"
proof -
  obtain l where l: "listing_of st (fst p) = Some l"
    and st': "st' = st\<lparr>dirs := AList.update (fst p) (AList.update (snd p) c l) (dirs st)\<rparr>"
    using assms(2) by (auto simp: write_file_Inr)
  have "(fst p, l) \<in> set (dirs st)" using l by (simp add: listing_of_def map_of_SomeD)
  then have "distinct (map fst l)" using assms(1) by (auto simp: store_wf_def list_all_iff)
  then have dl: "distinct (map fst (AList.update (snd p) c l))" by (rule distinct_update)
  have "list_all (\<lambda>(d, l). distinct (map fst l)) (AList.update (fst p) (AList.update (snd p) c l) (dirs st))"
    using assms(1) dl by (auto simp: store_wf_def intro: list_all_update)
  then show ?thesis using assms(1) st' by (simp add: store_wf_def distinct_update)
qed

lemma listing_of_mkdir:
  "listing_of (mkdir_exist_ok st d) d' =
     (if d' = d \<and> listing_of st d = None then Some [] else listing_of st d')"
  by (auto simp: mkdir_exist_ok_def listing_of_def update_conv' split: option.splits)

lemma mkdir_exist_ok_present: "listing_of (mkdir_exist_ok st d) d \<noteq> None"
  by (simp add: listing_of_mkdir)

lemma mkdir_wf: "store_wf st \<Longrightarrow> store_wf (mkdir_exist_ok st d)"
  by (auto simp: mkdir_exist_ok_def store_wf_def distinct_update intro: list_all_update
      split: option.splits)

lemma path_exists_mkdir: "path_exists (mkdir_exist_ok st d) p = path_exists st p"
  by (auto simp: path_exists_def listing_of_mkdir split: option.splits)

lemma read_file_mkdir: "read_file (mkdir_exist_ok st d) p = read_file st p"
  by (auto simp: read_file_def listing_of_mkdir split: option.splits)

lemma listing_of_wf: "store_wf st \<Longrightarrow> listing_of st d = Some l \<Longrightarrow> distinct (map fst l)"
  by (auto simp: store_wf_def listing_of_def list_all_iff dest!: map_of_SomeD)

lemma distinct_category_dirs: "distinct category_dirs"
  by (simp add: category_dirs_def)

lemma set_dir_entries:
  "set (case listing_of st d of None \<Rightarrow> [] | Some l \<Rightarrow> map (Pair d) (filter is_yaml_name (map fst l)))
     = {p. fst p = d \<and> path_exists st p \<and> is_yaml_name (snd p)}"
  by (cases "listing_of st d") (force simp: path_exists_def map_of_eq_None_iff image_iff)+

lemma mem_get_all_entries:
  "p \<in> set (get_all_entries st) \<longleftrightarrow>
     fst p \<in> set category_dirs \<and> path_exists st p \<and> is_yaml_name (snd p)"
  by (auto simp: get_all_entries_def set_dir_entries)

lemma distinct_concat_map_dirs:
  assumes "distinct ds" and "\<And>d. distinct (f d)" and "\<And>d p. p \<in> set (f d) \<Longrightarrow> fst p = d"
  shows "distinct (concat (map f ds))"
  using assms(1)
proof (induction ds)
  case Nil
  then show ?case by simp
next
  case (Cons a ds)
  have "set (f a) \<inter> set (concat (map f ds)) = {}"
  proof (rule ccontr)
    assume "set (f a) \<inter> set (concat (map f ds)) \<noteq> {}"
    then obtain p d where "p \<in> set (f a)" "d \<in> set ds" "p \<in> set (f d)" by auto
    then have "a = d" using assms(3) by metis
    with \<open>d \<in> set ds\<close> Cons.prems show False by simp
  qed
  then show ?case using Cons assms(2) by simp
qed

lemma distinct_get_all_entries:
  assumes "store_wf st"
  shows "distinct (get_all_entries st)"
  unfolding get_all_entries_def
proof (rule distinct_concat_map_dirs [OF distinct_category_dirs])
  fix d
  show "distinct (case listing_of st d of None \<Rightarrow> []
          | Some l \<Rightarrow> map (Pair d) (filter is_yaml_name (map fst l)))"
    using listing_of_wf [OF assms] by (auto simp: distinct_map inj_on_def split: option.splits)
qed (auto split: option.splits)

lemma find_in_dirs_Some:
  "find_in_dirs st fn ds = Some p \<longleftrightarrow>
     (\<exists>d. p = (d, fn) \<and> d \<in> set ds \<and> path_exists st (d, fn)
          \<and> list_all (\<lambda>d'. \<not> path_exists st (d', fn)) (takeWhile (\<lambda>d'. d' \<noteq> d) ds))"
  by (induction ds) auto

lemma find_in_dirs_None:
  "find_in_dirs st fn ds = None \<longleftrightarrow> list_all (\<lambda>d. \<not> path_exists st (d, fn)) ds"
  by (induction ds) auto

lemma save_entry_Inr_iff:
  "(\<exists>st'. save_entry st p v = Inr st') \<longleftrightarrow> listing_of st (fst p) \<noteq> None"
  by (auto simp: save_entry_def write_file_def split: option.splits)

lemma save_load_same: "save_entry st p v = Inr st' \<Longrightarrow> load_entry st' p = Inr v"
  using read_write_same by (simp add: save_entry_def load_entry_def)

lemma save_load_other: "save_entry st p v = Inr st' \<Longrightarrow> q \<noteq> p \<Longrightarrow> load_entry st' q = load_entry st q"
  using read_write_other by (simp add: save_entry_def load_entry_def)

lemma keeps_records_refl: "keeps_records st st"
  by (auto simp: keeps_records_def)

lemma keeps_records_trans: "keeps_records a b \<Longrightarrow> keeps_records b c \<Longrightarrow> keeps_records a c"
  unfolding keeps_records_def by fastforce

lemma keeps_records_same_loads:
  "(\<And>q v. load_entry st q = Inr v \<Longrightarrow> load_entry st' q = Inr v) \<Longrightarrow> keeps_records st st'"
  by (auto simp: keeps_records_def)

text \<open>C14: \<^verbatim>\<open>get_all_entries\<close> lists exactly the existing \<^verbatim>\<open>*.yaml\<close> files of
  the three category directories, each once.\<close>

theorem get_all_entries_spec:
  assumes "store_wf st"
  shows "distinct (get_all_entries st)
         \<and> (p \<in> set (get_all_entries st) \<longleftrightarrow>
              fst p \<in> set category_dirs \<and> path_exists st p \<and> is_yaml_name (snd p))"
  using distinct_get_all_entries [OF assms] mem_get_all_entries by blast

subsection \<open>Witnesses\<close>

lemma sample_store_wf: "store_wf sample_store"
  by (simp add: sample_store_def store_wf_def)

lemma get_all_entries_spec_witness:
  "store_wf sample_store \<and> distinct (get_all_entries sample_store)
   \<and> ((''words'', ''ice.yaml'') \<in> set (get_all_entries sample_store) \<longleftrightarrow>
        ''words'' \<in> set category_dirs \<and> path_exists sample_store (''words'', ''ice.yaml'')
        \<and> is_yaml_name ''ice.yaml'')"
  using sample_store_wf get_all_entries_spec [OF sample_store_wf, of "(''words'', ''ice.yaml'')"]
  by simp

end
