(* ===== verification/AddEntry.thy ===== *)
theory AddEntry
  imports Store
begin

text \<open>
  Entry creation, \<^verbatim>\<open>src/add_entry.py\<close>: the three stub constructors, the
  choice among them in \<^verbatim>\<open>main\<close> (with the refusal of a terminology without
  context), \<^verbatim>\<open>save_entry\<close> with its conflict check, and \<^verbatim>\<open>main\<close> itself as a
  function from the store and the parsed arguments to the new store, the
  messages printed and the exit status. \<^verbatim>\<open>uuid.uuid4()\<close> and
  \<^verbatim>\<open>datetime.now()\<close> are the arguments \<open>uid\<close> and \<open>now\<close>. The lemmas show that
  a stub is never promoted (so never due), that a missing context or an existing
  file leaves the store untouched with exit status 1, and that a successful
  creation stores exactly the stub, reachable by name through
  \<^verbatim>\<open>mark_reviewed.py\<close>'s lookup unless an earlier category holds the same slug.
\<close>

text \<open>The category argument, restricted by argparse to three choices.\<close>

datatype category = Word | Idiom | Terminology

definition category_name :: "category \<Rightarrow> string" where
  "category_name c = (case c of Word \<Rightarrow> ''word'' | Idiom \<Rightarrow> ''idiom'' | Terminology \<Rightarrow> ''terminology'')"

text \<open>\<^verbatim>\<open>dir_map\<close> of \<^verbatim>\<open>save_entry\<close>.\<close>

definition dir_map :: "category \<Rightarrow> string" where
  "dir_map c = (case c of Word \<Rightarrow> ''words'' | Idiom \<Rightarrow> ''idioms'' | Terminology \<Rightarrow> ''terminologies'')"

text \<open>\<^verbatim>\<open>[example] if example else []\<close>, for the optional \<^verbatim>\<open>--example\<close>.\<close>

definition example_list :: "string option \<Rightarrow> yval list" where
  "example_list ex = (case ex of None \<Rightarrow> [] | Some x \<Rightarrow> if x = [] then [] else [YStr x])"

definition create_word_stub :: "string \<Rightarrow> datetime \<Rightarrow> string \<Rightarrow> string option \<Rightarrow> entry" where
  "create_word_stub uid now name example =
     [(''id'', YStr uid), (''name'', YStr name), (''type'', YStr ''word''),
      (''created_at'', YStr (isoformat now)), (''part_of_speech'', YNone), (''meaning'', YNone),
      (''examples'', YList (example_list example)), (''last_reviewed'', YNone)]"

definition create_idiom_stub :: "string \<Rightarrow> datetime \<Rightarrow> string \<Rightarrow> string option \<Rightarrow> entry" where
  "create_idiom_stub uid now name example =
     [(''id'', YStr uid), (''name'', YStr name), (''type'', YStr ''idiom''),
      (''created_at'', YStr (isoformat now)), (''meaning'', YNone),
      (''examples'', YList (example_list example)), (''last_reviewed'', YNone)]"

definition create_terminology_stub ::
  "string \<Rightarrow> datetime \<Rightarrow> string \<Rightarrow> string \<Rightarrow> string option \<Rightarrow> entry" where
  "create_terminology_stub uid now name context example =
     [(''id'', YStr uid), (''name'', YStr name), (''type'', YStr ''terminology''),
      (''created_at'', YStr (isoformat now)), (''context'', YStr context), (''meaning'', YNone),
      (''example'', opt_str example), (''last_reviewed'', YNone)]"

text \<open>The \<^verbatim>\<open>if/elif\<close> chain of \<^verbatim>\<open>main\<close> that builds the stub; \<open>Inl ()\<close> is the
  early \<^verbatim>\<open>return 1\<close> when \<^verbatim>\<open>--context\<close> is missing or empty.\<close>

definition create_stub ::
  "string \<Rightarrow> datetime \<Rightarrow> category \<Rightarrow> string \<Rightarrow> string option \<Rightarrow> string option \<Rightarrow> unit + entry" where
  "create_stub uid now ty name example context =
     (case ty of
        Word \<Rightarrow> Inr (create_word_stub uid now name example)
      | Idiom \<Rightarrow> Inr (create_idiom_stub uid now name example)
      | Terminology \<Rightarrow>
          (case context of
             None \<Rightarrow> Inl ()
           | Some c \<Rightarrow> if c = [] then Inl () else Inr (create_terminology_stub uid now name c example)))"

text \<open>What \<^verbatim>\<open>add_entry.py\<close> prints.\<close>

datatype add_msg =
    Warn_exists string path
  | Err_context_required
  | Created path string

text \<open>\<^verbatim>\<open>add_entry.save_entry\<close>: create the directory, refuse an existing file
  (printing a warning and returning \<^verbatim>\<open>None\<close>), else write the record. The
  result is the new store, the messages and the path written.\<close>

definition save_entry_add ::
  "store \<Rightarrow> category \<Rightarrow> entry \<Rightarrow> pyexc + (store \<times> add_msg list \<times> path option)" where
  "save_entry_add st ty e =
     (let d = dir_map ty; st1 = mkdir_exist_ok st d in
      case dict_index e ''name'' of
        Inl x \<Rightarrow> Inl x
      | Inr (YStr n) \<Rightarrow>
          (let p = (d, slugify n @ ''.yaml'') in
           if path_exists st1 p then Inr (st1, [Warn_exists n p], None)
           else (case write_file st1 p (Doc (YMap e)) of
                   Inl x \<Rightarrow> Inl x
                 | Inr st2 \<Rightarrow> Inr (st2, [], Some p)))
      | Inr _ \<Rightarrow> Inl AttributeError)"

text \<open>\<^verbatim>\<open>add_entry.main\<close> with its parsed arguments: the new store, the messages,
  and how the process ends.\<close>

definition add_entry_main ::
  "store \<Rightarrow> string \<Rightarrow> datetime \<Rightarrow> category \<Rightarrow> string \<Rightarrow> string option \<Rightarrow> string option
   \<Rightarrow> store \<times> add_msg list \<times> outcome" where
  "add_entry_main st uid now ty name example context =
     (case create_stub uid now ty name example context of
        Inl _ \<Rightarrow> (st, [Err_context_required], Exit 1)
      | Inr e \<Rightarrow>
          (case save_entry_add st ty e of
             Inl x \<Rightarrow> (st, [], Crash x)
           | Inr (st', msgs, None) \<Rightarrow> (st', msgs, Exit 1)
           | Inr (st', msgs, Some p) \<Rightarrow> (st', msgs @ [Created p uid], Exit 0)))"

text \<open>Whether \<^verbatim>\<open>main\<close> gets past the context check.\<close>

definition context_ok :: "category \<Rightarrow> string option \<Rightarrow> bool" where
  "context_ok ty context =
     (case ty of Terminology \<Rightarrow> (case context of None \<Rightarrow> False | Some c \<Rightarrow> c \<noteq> []) | _ \<Rightarrow> True)"

text \<open>The record path \<^verbatim>\<open>main\<close> writes for a category and a name.\<close>

definition stub_path :: "category \<Rightarrow> string \<Rightarrow> path" where
  "stub_path ty name = (dir_map ty, slugify name @ ''.yaml'')"

text \<open>The fields every stub fixes.\<close>

definition stub_fields :: "string \<Rightarrow> datetime \<Rightarrow> string \<Rightarrow> category \<Rightarrow> entry \<Rightarrow> bool" where
  "stub_fields uid now name ty e \<longleftrightarrow>
     dict_index e ''name'' = Inr (YStr name) \<and> dict_get e ''meaning'' = YNone
     \<and> dict_get e ''type'' = YStr (category_name ty) \<and> dict_get e ''last_reviewed'' = YNone
     \<and> dict_get e ''created_at'' = YStr (isoformat now) \<and> dict_get e ''id'' = YStr uid"

declare category_name_def [vocab_defs] dir_map_def [vocab_defs] example_list_def [vocab_defs]
  create_word_stub_def [vocab_defs] create_idiom_stub_def [vocab_defs]
  create_terminology_stub_def [vocab_defs] create_stub_def [vocab_defs]
  save_entry_add_def [vocab_defs] add_entry_main_def [vocab_defs] context_ok_def [vocab_defs]
  stub_path_def [vocab_defs]

subsection \<open>Lemmas\<close>

lemma create_stub_Inr_iff: "(\<exists>e. create_stub uid now ty name ex ctx = Inr e) \<longleftrightarrow> context_ok ty ctx"
  by (auto simp: create_stub_def context_ok_def split: category.splits option.splits)

lemma create_stub_Inl_iff: "create_stub uid now ty name ex ctx = Inl u \<longleftrightarrow> \<not> context_ok ty ctx"
  by (auto simp: create_stub_def context_ok_def split: category.splits option.splits)

lemma stub_fields_word: "stub_fields uid now name Word (create_word_stub uid now name ex)"
  by (simp add: stub_fields_def create_word_stub_def dict_index_def dict_get_def category_name_def)

lemma stub_fields_idiom: "stub_fields uid now name Idiom (create_idiom_stub uid now name ex)"
  by (simp add: stub_fields_def create_idiom_stub_def dict_index_def dict_get_def category_name_def)

lemma stub_fields_terminology:
  "stub_fields uid now name Terminology (create_terminology_stub uid now name c ex)"
  by (simp add: stub_fields_def create_terminology_stub_def dict_index_def dict_get_def category_name_def)

lemma create_stub_fields:
  assumes "create_stub uid now ty name ex ctx = Inr e"
  shows "stub_fields uid now name ty e"
proof (cases ty)
  case Word
  with assms have "e = create_word_stub uid now name ex" by (simp add: create_stub_def)
  then show ?thesis using Word by (simp add: stub_fields_word)
next
  case Idiom
  with assms have "e = create_idiom_stub uid now name ex" by (simp add: create_stub_def)
  then show ?thesis using Idiom by (simp add: stub_fields_idiom)
next
  case Terminology
  with assms obtain c where "e = create_terminology_stub uid now name c ex"
    by (auto simp: create_stub_def split: option.splits if_splits)
  then show ?thesis using Terminology by (simp add: stub_fields_terminology)
qed

lemma create_stub_not_promoted:
  assumes "create_stub uid now ty name ex ctx = Inr e"
  shows "\<not> is_promoted e"
proof -
  have "dict_get e ''meaning'' = YNone" using create_stub_fields [OF assms] by (simp add: stub_fields_def)
  then show ?thesis using is_promoted_present_meaning by (auto simp: present_def)
qed

lemma mkdir_exist_ok_existing: "listing_of st d \<noteq> None \<Longrightarrow> mkdir_exist_ok st d = st"
  by (auto simp: mkdir_exist_ok_def)

lemma path_exists_listing: "path_exists st (d, f) \<Longrightarrow> listing_of st d \<noteq> None"
  by (auto simp: path_exists_def split: option.splits)

lemma save_entry_add_conflict:
  assumes "create_stub uid now ty name ex ctx = Inr e" and "path_exists st (stub_path ty name)"
  shows "save_entry_add st ty e = Inr (st, [Warn_exists name (stub_path ty name)], None)"
proof -
  have "mkdir_exist_ok st (dir_map ty) = st"
    using assms(2) path_exists_listing by (auto simp: stub_path_def intro: mkdir_exist_ok_existing)
  then show ?thesis
    using assms create_stub_fields [OF assms(1), unfolded stub_fields_def] by (simp add: save_entry_add_def stub_path_def Let_def)
qed

lemma save_entry_add_fresh:
  assumes "create_stub uid now ty name ex ctx = Inr e" and "\<not> path_exists st (stub_path ty name)"
  obtains st' where "write_file (mkdir_exist_ok st (dir_map ty)) (stub_path ty name) (Doc (YMap e)) = Inr st'"
    and "save_entry_add st ty e = Inr (st', [], Some (stub_path ty name))"
proof -
  obtain l where l: "listing_of (mkdir_exist_ok st (dir_map ty)) (dir_map ty) = Some l"
    using mkdir_exist_ok_present by blast
  then obtain st' where w: "write_file (mkdir_exist_ok st (dir_map ty)) (stub_path ty name) (Doc (YMap e)) = Inr st'"
    by (simp add: write_file_def stub_path_def)
  have "save_entry_add st ty e = Inr (st', [], Some (stub_path ty name))"
    using assms w create_stub_fields [OF assms(1), unfolded stub_fields_def]
    by (simp add: save_entry_add_def stub_path_def Let_def path_exists_mkdir)
  with w show ?thesis by (rule that)
qed

lemma add_entry_main_fresh:
  assumes "create_stub uid now ty name ex ctx = Inr e" and "\<not> path_exists st (stub_path ty name)"
  obtains st' where "write_file (mkdir_exist_ok st (dir_map ty)) (stub_path ty name) (Doc (YMap e)) = Inr st'"
    and "add_entry_main st uid now ty name ex ctx = (st', [Created (stub_path ty name) uid], Exit 0)"
proof -
  obtain st' where w: "write_file (mkdir_exist_ok st (dir_map ty)) (stub_path ty name) (Doc (YMap e)) = Inr st'"
    and s: "save_entry_add st ty e = Inr (st', [], Some (stub_path ty name))"
    using save_entry_add_fresh [OF assms] .
  have "add_entry_main st uid now ty name ex ctx = (st', [Created (stub_path ty name) uid], Exit 0)"
    using assms(1) s by (simp add: add_entry_main_def)
  with w show ?thesis by (rule that)
qed

lemma dir_map_category_dirs: "dir_map ty \<in> set category_dirs"
  by (cases ty) (simp_all add: dir_map_def category_dirs_def)

subsection \<open>Store invariants\<close>

lemma save_entry_add_wf:
  assumes "store_wf st" and "save_entry_add st ty e = Inr (st', msgs, r)"
  shows "store_wf st' \<and> (\<forall>q. path_exists st q \<longrightarrow> path_exists st' q)"
proof -
  have w1: "store_wf (mkdir_exist_ok st (dir_map ty))" using mkdir_wf [OF assms(1)] .
  have e1: "path_exists (mkdir_exist_ok st (dir_map ty)) q = path_exists st q" for q
    by (rule path_exists_mkdir)
  show ?thesis
  proof (cases "dict_index e ''name''")
    case (Inl x)
    then show ?thesis using assms(2) by (simp add: save_entry_add_def Let_def)
  next
    case (Inr v)
    show ?thesis
    proof (cases v)
      case (YStr n)
      let ?p = "(dir_map ty, slugify n @ ''.yaml'')"
      show ?thesis
      proof (cases "path_exists (mkdir_exist_ok st (dir_map ty)) ?p")
        case True
        then have "st' = mkdir_exist_ok st (dir_map ty)"
          using assms(2) Inr YStr by (simp add: save_entry_add_def Let_def)
        then show ?thesis using w1 e1 by simp
      next
        case False
        then obtain st2 where w: "write_file (mkdir_exist_ok st (dir_map ty)) ?p (Doc (YMap e)) = Inr st2"
          and "st' = st2"
          using assms(2) Inr YStr by (auto simp: save_entry_add_def Let_def split: sum.splits)
        then show ?thesis using write_file_wf [OF w1 w] path_exists_write [OF w] e1 by auto
      qed
    qed (use assms(2) Inr in \<open>simp_all add: save_entry_add_def Let_def\<close>)
  qed
qed

lemma add_entry_main_wf:
  assumes "store_wf st"
  shows "store_wf (fst (add_entry_main st uid now ty name ex ctx))
    \<and> (\<forall>q. path_exists st q \<longrightarrow> path_exists (fst (add_entry_main st uid now ty name ex ctx)) q)"
proof (cases "create_stub uid now ty name ex ctx")
  case (Inl u)
  then show ?thesis using assms by (simp add: add_entry_main_def)
next
  case (Inr e)
  then show ?thesis
  proof (cases "save_entry_add st ty e")
    case (Inl x)
    then show ?thesis using assms Inr by (simp add: add_entry_main_def)
  next
    case (Inr r)
    obtain st' msgs p where r: "r = (st', msgs, p)" by (cases r)
    have "fst (add_entry_main st uid now ty name ex ctx) = st'"
      using \<open>create_stub uid now ty name ex ctx = Inr e\<close> Inr r
      by (cases p) (simp_all add: add_entry_main_def)
    then show ?thesis using save_entry_add_wf [OF assms, of ty e st' msgs p] Inr r by simp
  qed
qed

lemma save_entry_add_loads:
  assumes "save_entry_add st ty e = Inr (st', msgs, r)" and "load_entry st q = Inr v"
  shows "load_entry st' q = Inr v"
proof -
  have l1: "load_entry (mkdir_exist_ok st (dir_map ty)) q = Inr v"
    using assms(2) by (simp add: load_entry_def read_file_mkdir)
  have ex: "path_exists (mkdir_exist_ok st (dir_map ty)) q"
    using l1 by (auto simp: load_entry_def path_exists_read split: sum.splits)
  show ?thesis
  proof (cases "dict_index e ''name''")
    case (Inl x)
    then show ?thesis using assms(1) by (simp add: save_entry_add_def Let_def)
  next
    case (Inr n)
    show ?thesis
    proof (cases n)
      case (YStr nm)
      let ?p = "(dir_map ty, slugify nm @ ''.yaml'')"
      show ?thesis
      proof (cases "path_exists (mkdir_exist_ok st (dir_map ty)) ?p")
        case True
        then show ?thesis using assms(1) Inr YStr l1 by (simp add: save_entry_add_def Let_def)
      next
        case False
        then obtain st2 where w: "write_file (mkdir_exist_ok st (dir_map ty)) ?p (Doc (YMap e)) = Inr st2"
          and "st' = st2"
          using assms(1) Inr YStr by (auto simp: save_entry_add_def Let_def split: sum.splits)
        moreover have "q \<noteq> ?p" using False ex by auto
        ultimately show ?thesis using read_write_other [OF w] l1 by (simp add: load_entry_def)
      qed
    qed (use assms(1) Inr in \<open>simp_all add: save_entry_add_def Let_def\<close>)
  qed
qed

text \<open>\<^verbatim>\<open>add_entry.py\<close> never changes a record that exists: the conflict check
  guards the only write.\<close>

lemma add_entry_main_keeps: "keeps_records st (fst (add_entry_main st uid now ty name ex ctx))"
proof (rule keeps_records_same_loads)
  fix q v assume l: "load_entry st q = Inr v"
  show "load_entry (fst (add_entry_main st uid now ty name ex ctx)) q = Inr v"
  proof (cases "create_stub uid now ty name ex ctx")
    case (Inr e)
    show ?thesis
    proof (cases "save_entry_add st ty e")
      case (Inr r)
      obtain st' msgs p where r: "r = (st', msgs, p)" by (cases r)
      have "fst (add_entry_main st uid now ty name ex ctx) = st'"
        using \<open>create_stub uid now ty name ex ctx = Inr e\<close> Inr r
        by (cases p) (simp_all add: add_entry_main_def)
      then show ?thesis using save_entry_add_loads [of st ty e st' msgs p] Inr r l by simp
    qed (use l \<open>create_stub uid now ty name ex ctx = Inr e\<close> in \<open>simp add: add_entry_main_def\<close>)
  qed (use l in \<open>simp add: add_entry_main_def\<close>)
qed

lemma add_entry_main_Exit0:
  assumes "add_entry_main st uid now ty name ex ctx = (st', msgs, Exit 0)"
  obtains e where "create_stub uid now ty name ex ctx = Inr e"
    and "\<not> path_exists st (stub_path ty name)"
    and "write_file (mkdir_exist_ok st (dir_map ty)) (stub_path ty name) (Doc (YMap e)) = Inr st'"
proof (cases "create_stub uid now ty name ex ctx")
  case (Inl u)
  then show ?thesis using assms by (simp add: add_entry_main_def)
next
  case (Inr e)
  show ?thesis
  proof (cases "path_exists st (stub_path ty name)")
    case True
    then show ?thesis using assms save_entry_add_conflict [OF Inr True] Inr by (simp add: add_entry_main_def)
  next
    case False
    obtain st'' where w: "write_file (mkdir_exist_ok st (dir_map ty)) (stub_path ty name) (Doc (YMap e)) = Inr st''"
      and m: "add_entry_main st uid now ty name ex ctx = (st'', [Created (stub_path ty name) uid], Exit 0)"
      using add_entry_main_fresh [OF Inr False] .
    have "st' = st''" using m assms by simp
    then show ?thesis using that Inr False w by blast
  qed
qed

subsection \<open>Properties\<close>

text \<open>C16: Every stub \<^verbatim>\<open>add_entry.py\<close> builds is unpromoted (its meaning is
  \<^verbatim>\<open>None\<close>): its status is \<^verbatim>\<open>stub\<close> and it is never due for review.\<close>

theorem create_stub_is_stub:
  assumes "create_stub uid now ty name ex ctx = Inr e"
  shows "\<not> is_promoted e \<and> get_entry_status e = ''stub'' \<and> is_due_for_review now' e days = Inr False"
  using create_stub_not_promoted [OF assms]
  by (simp add: get_entry_status_def is_due_for_review_def)

text \<open>C17: A terminology entry without \<^verbatim>\<open>--context\<close>, or with an empty one, is
  refused with exit status 1 before anything is written.\<close>

theorem add_entry_missing_context:
  "add_entry_main st uid now Terminology name ex None = (st, [Err_context_required], Exit 1)
   \<and> add_entry_main st uid now Terminology name ex (Some []) = (st, [Err_context_required], Exit 1)"
  by (simp add: add_entry_main_def create_stub_def)

text \<open>C18: Creating an entry whose file already exists prints a warning, exits
  with status 1 and leaves the store (the existing record included) unchanged.\<close>

theorem add_entry_conflict:
  assumes "context_ok ty ctx" and "path_exists st (stub_path ty name)"
  shows "add_entry_main st uid now ty name ex ctx = (st, [Warn_exists name (stub_path ty name)], Exit 1)"
proof -
  obtain e where e: "create_stub uid now ty name ex ctx = Inr e"
    using assms(1) create_stub_Inr_iff by blast
  show ?thesis using save_entry_add_conflict [OF e assms(2)] e by (simp add: add_entry_main_def)
qed

text \<open>C19: Creating an entry whose file does not exist exits with status 0 and
  writes exactly the stub at \<^verbatim>\<open><dir>/<slug>.yaml\<close>; every other file is
  unchanged and the store stays well-formed.\<close>

theorem add_entry_creates:
  assumes "create_stub uid now ty name ex ctx = Inr e" and "\<not> path_exists st (stub_path ty name)"
  shows "\<exists>st'. add_entry_main st uid now ty name ex ctx = (st', [Created (stub_path ty name) uid], Exit 0)
           \<and> load_entry st' (stub_path ty name) = Inr (YMap e)
           \<and> (\<forall>p. p \<noteq> stub_path ty name \<longrightarrow> load_entry st' p = load_entry st p)
           \<and> (store_wf st \<longrightarrow> store_wf st')"
proof -
  obtain st' where w: "write_file (mkdir_exist_ok st (dir_map ty)) (stub_path ty name) (Doc (YMap e)) = Inr st'"
    and main: "add_entry_main st uid now ty name ex ctx = (st', [Created (stub_path ty name) uid], Exit 0)"
    using add_entry_main_fresh [OF assms] .
  have load: "load_entry st' (stub_path ty name) = Inr (YMap e)"
    using read_write_same [OF w] by (simp add: load_entry_def)
  have other: "\<forall>p. p \<noteq> stub_path ty name \<longrightarrow> load_entry st' p = load_entry st p"
    using read_write_other [OF w] by (simp add: load_entry_def read_file_mkdir)
  have "store_wf st \<longrightarrow> store_wf st'"
    using w mkdir_wf write_file_wf by blast
  with main load other show ?thesis by blast
qed

text \<open>C20: After a successful creation, \<^verbatim>\<open>mark_reviewed.py\<close>'s lookup by the
  same name finds the new file, provided no category directory searched before
  it holds a file with the same slug.\<close>

theorem add_entry_then_find:
  assumes "create_stub uid now ty name ex ctx = Inr e" and "\<not> path_exists st (stub_path ty name)"
    and "list_all (\<lambda>d. \<not> path_exists st (d, slugify name @ ''.yaml''))
           (takeWhile (\<lambda>d. d \<noteq> dir_map ty) category_dirs)"
    and "add_entry_main st uid now ty name ex ctx = (st', msgs, out)"
  shows "find_entry_by_name st' name = Some (stub_path ty name)"
proof -
  obtain st'' where w: "write_file (mkdir_exist_ok st (dir_map ty)) (stub_path ty name) (Doc (YMap e)) = Inr st''"
    and main: "add_entry_main st uid now ty name ex ctx = (st'', [Created (stub_path ty name) uid], Exit 0)"
    using add_entry_main_fresh [OF assms(1,2)] .
  have st': "st' = st''" using main assms(4) by simp
  have ex: "\<And>p. path_exists st' p \<longleftrightarrow> p = stub_path ty name \<or> path_exists st p"
    using path_exists_write [OF w] st' by (simp add: path_exists_mkdir)
  have "list_all (\<lambda>d. \<not> path_exists st' (d, slugify name @ ''.yaml''))
          (takeWhile (\<lambda>d. d \<noteq> dir_map ty) category_dirs)"
    using assms(3) by (auto simp: ex stub_path_def list_all_iff dest: set_takeWhileD)
  then show ?thesis
    using dir_map_category_dirs ex
    by (auto simp: find_entry_by_name_def slugify_mr_apply find_in_dirs_Some stub_path_def)
qed

text \<open>C21: The lookup of \<^verbatim>\<open>mark_reviewed.py\<close> searches \<^verbatim>\<open>words\<close> first,
  while the conflict check of \<^verbatim>\<open>add_entry.py\<close> looks only in the target
  directory: in any store that has a word with the slug of \<open>name\<close>, creating an
  idiom or terminology of that name may succeed and write its file, yet looking
  the name up afterwards always returns the word.\<close>

theorem add_entry_shadowed_by_word:
  assumes "store_wf st" and "path_exists st (''words'', slugify name @ ''.yaml'')"
    and "add_entry_main st uid now ty name ex ctx = (st', msgs, out)"
  shows "find_entry_by_name st' name = Some (''words'', slugify name @ ''.yaml'')
         \<and> (out = Exit 0 \<longrightarrow> path_exists st' (stub_path ty name))"
proof -
  have "path_exists st' (''words'', slugify name @ ''.yaml'')"
    using add_entry_main_wf [OF assms(1), of uid now ty name ex ctx] assms(2,3) by simp
  then have f: "find_entry_by_name st' name = Some (''words'', slugify name @ ''.yaml'')"
    by (simp add: find_entry_by_name_def category_dirs_def slugify_mr_apply)
  have "path_exists st' (stub_path ty name)" if "out = Exit 0"
  proof -
    from assms(3) that have "add_entry_main st uid now ty name ex ctx = (st', msgs, Exit 0)" by simp
    then obtain e where "write_file (mkdir_exist_ok st (dir_map ty)) (stub_path ty name) (Doc (YMap e)) = Inr st'"
      by (rule add_entry_main_Exit0)
    then show ?thesis using path_exists_write by blast
  qed
  with f show ?thesis by blast
qed

subsection \<open>Witnesses\<close>

lemma create_stub_is_stub_witness:
  "create_stub ''u1'' (sample_dt 3) Word ''Break the ice'' None None
     = Inr (create_word_stub ''u1'' (sample_dt 3) ''Break the ice'' None)
   \<and> dict_get (create_word_stub ''u1'' (sample_dt 3) ''Break the ice'' None) ''meaning'' = YNone
   \<and> dict_get (create_word_stub ''u1'' (sample_dt 3) ''Break the ice'' None) ''examples'' = YList []
   \<and> \<not> is_promoted (create_word_stub ''u1'' (sample_dt 3) ''Break the ice'' None)
   \<and> get_entry_status (create_word_stub ''u1'' (sample_dt 3) ''Break the ice'' None) = ''stub''
   \<and> is_due_for_review (sample_dt 9) (create_word_stub ''u1'' (sample_dt 3) ''Break the ice'' None) 7
       = Inr False"
proof -
  have c: "create_stub ''u1'' (sample_dt 3) Word ''Break the ice'' None None
             = Inr (create_word_stub ''u1'' (sample_dt 3) ''Break the ice'' None)"
    by (simp add: create_stub_def)
  have f: "dict_get (create_word_stub ''u1'' (sample_dt 3) ''Break the ice'' None) ''meaning'' = YNone
     \<and> dict_get (create_word_stub ''u1'' (sample_dt 3) ''Break the ice'' None) ''examples'' = YList []"
    by (simp add: create_word_stub_def dict_get_def example_list_def)
  show ?thesis using c f create_stub_is_stub [OF c, of "sample_dt 9" 7] by simp
qed

lemma add_entry_conflict_witness:
  "context_ok Word None
   \<and> path_exists \<lparr>dirs = [(''words'', [(''ice.yaml'', Doc (YMap []))])]\<rparr> (stub_path Word ''Ice'')
   \<and> add_entry_main \<lparr>dirs = [(''words'', [(''ice.yaml'', Doc (YMap []))])]\<rparr> ''u1'' (sample_dt 3) Word ''Ice''
       None None
     = (\<lparr>dirs = [(''words'', [(''ice.yaml'', Doc (YMap []))])]\<rparr>,
        [Warn_exists ''Ice'' (stub_path Word ''Ice'')], Exit 1)"
proof -
  have h1: "context_ok Word None" by (simp add: context_ok_def)
  have h2: "path_exists \<lparr>dirs = [(''words'', [(''ice.yaml'', Doc (YMap []))])]\<rparr> (stub_path Word ''Ice'')"
    by code_simp
  show ?thesis using h1 h2 add_entry_conflict [OF h1 h2, of "''u1''" "sample_dt 3" None] by simp
qed

lemma add_entry_creates_witness:
  "create_stub ''u2'' (sample_dt 3) Idiom ''Hit the sack'' (Some ''I hit the sack early.'') None
     = Inr (create_idiom_stub ''u2'' (sample_dt 3) ''Hit the sack'' (Some ''I hit the sack early.''))
   \<and> \<not> path_exists sample_store (stub_path Idiom ''Hit the sack'')
   \<and> (\<exists>st'. add_entry_main sample_store ''u2'' (sample_dt 3) Idiom ''Hit the sack''
               (Some ''I hit the sack early.'') None
             = (st', [Created (stub_path Idiom ''Hit the sack'') ''u2''], Exit 0)
           \<and> load_entry st' (stub_path Idiom ''Hit the sack'')
             = Inr (YMap (create_idiom_stub ''u2'' (sample_dt 3) ''Hit the sack'' (Some ''I hit the sack early.''))))"
proof -
  have c: "create_stub ''u2'' (sample_dt 3) Idiom ''Hit the sack'' (Some ''I hit the sack early.'') None
     = Inr (create_idiom_stub ''u2'' (sample_dt 3) ''Hit the sack'' (Some ''I hit the sack early.''))"
    by (simp add: create_stub_def)
  have n: "\<not> path_exists sample_store (stub_path Idiom ''Hit the sack'')"
    by code_simp
  show ?thesis using c n add_entry_creates [OF c n] by blast
qed

lemma add_entry_then_find_witness:
  "create_stub ''u2'' (sample_dt 3) Idiom ''Hit the sack'' None None
     = Inr (create_idiom_stub ''u2'' (sample_dt 3) ''Hit the sack'' None)
   \<and> \<not> path_exists sample_store (stub_path Idiom ''Hit the sack'')
   \<and> list_all (\<lambda>d. \<not> path_exists sample_store (d, slugify ''Hit the sack'' @ ''.yaml''))
       (takeWhile (\<lambda>d. d \<noteq> dir_map Idiom) category_dirs)
   \<and> find_entry_by_name
       (fst (add_entry_main sample_store ''u2'' (sample_dt 3) Idiom ''Hit the sack'' None None))
       ''Hit the sack'' = Some (stub_path Idiom ''Hit the sack'')"
proof -
  have c: "create_stub ''u2'' (sample_dt 3) Idiom ''Hit the sack'' None None
     = Inr (create_idiom_stub ''u2'' (sample_dt 3) ''Hit the sack'' None)"
    by (simp add: create_stub_def)
  have n: "\<not> path_exists sample_store (stub_path Idiom ''Hit the sack'')"
    by code_simp
  have b: "list_all (\<lambda>d. \<not> path_exists sample_store (d, slugify ''Hit the sack'' @ ''.yaml''))
       (takeWhile (\<lambda>d. d \<noteq> dir_map Idiom) category_dirs)"
    by code_simp
  obtain st' msgs out where r: "add_entry_main sample_store ''u2'' (sample_dt 3) Idiom ''Hit the sack'' None None
      = (st', msgs, out)"
    by (metis prod_cases3)
  show ?thesis using c n b r add_entry_then_find [OF c n b r] by simp
qed

lemma add_entry_shadowed_by_word_witness:
  "\<exists>st' msgs. add_entry_main sample_store ''u1'' (sample_dt 1) Idiom ''ice'' None None = (st', msgs, Exit 0)
     \<and> path_exists st' (''idioms'', ''ice.yaml'') \<and> find_entry_by_name st' ''ice'' = Some (''words'', ''ice.yaml'')"
proof -
  have c: "create_stub ''u1'' (sample_dt 1) Idiom ''ice'' None None = Inr (create_idiom_stub ''u1'' (sample_dt 1) ''ice'' None)"
    by (simp add: create_stub_def)
  have n: "\<not> path_exists sample_store (stub_path Idiom ''ice'')" by code_simp
  have w: "path_exists sample_store (''words'', slugify ''ice'' @ ''.yaml'')" by code_simp
  have s: "slugify ''ice'' = ''ice''" by code_simp
  obtain st' where m: "add_entry_main sample_store ''u1'' (sample_dt 1) Idiom ''ice'' None None =
      (st', [Created (stub_path Idiom ''ice'') ''u1''], Exit 0)"
    using add_entry_main_fresh [OF c n] by blast
  show ?thesis
    using add_entry_shadowed_by_word [OF sample_store_wf w m] m s by (auto simp: stub_path_def dir_map_def)
qed

end
