(* ===== verification/MarkReviewed.thy ===== *)
theory MarkReviewed
  imports AddEntry
begin

text \<open>
  The review workflow, \<^verbatim>\<open>src/mark_reviewed.py\<close>: \<^verbatim>\<open>mark_as_reviewed\<close>
  (load, set \<^verbatim>\<open>last_reviewed\<close> to \<^verbatim>\<open>datetime.now().isoformat()\<close>, save), the
  targeted mode of \<^verbatim>\<open>main\<close> (each name looked up and marked, unknown names
  reported) and its batch mode (every due entry selected, then marked one by one).
  Each loop is a recursive function with the Python lists it appends to as
  accumulators; an exception the code does not catch stops the loop and is
  returned beside the store as it is at that point, since the writes made before
  it stay on disk.
  Any relation between stores that one \<^verbatim>\<open>mark_as_reviewed\<close> establishes and
  that is reflexive and transitive holds across a whole run; it is applied to
  \<open>keeps_records\<close>.
\<close>

text \<open>What \<^verbatim>\<open>mark_reviewed.py\<close> prints.\<close>

datatype mr_msg =
    Marked_as_reviewed yval path
  | Entry_not_found string
  | Successfully_marked nat
  | Could_not_find nat
  | Could_not_load path pyexc
  | No_entries_due int
  | Found_due nat
  | Tick yval

text \<open>\<^verbatim>\<open>mark_as_reviewed(filepath)\<close>: the new store and the updated entry.\<close>

definition mark_as_reviewed :: "store \<Rightarrow> datetime \<Rightarrow> path \<Rightarrow> pyexc + (store \<times> yval)" where
  "mark_as_reviewed st now p =
     (case load_entry st p of
        Inl x \<Rightarrow> Inl x
      | Inr v \<Rightarrow>
          (case set_item v ''last_reviewed'' (YStr (isoformat now)) of
             Inl x \<Rightarrow> Inl x
           | Inr v' \<Rightarrow>
               (case save_entry st p v' of
                  Inl x \<Rightarrow> Inl x
                | Inr st' \<Rightarrow> Inr (st', v'))))"

text \<open>The targeted loop \<^verbatim>\<open>for name in args.names\<close>: the lists \<^verbatim>\<open>marked\<close> and
  \<^verbatim>\<open>not_found\<close> and the messages so far are accumulators. The uncaught
  exceptions of \<^verbatim>\<open>mark_as_reviewed\<close> and of \<^verbatim>\<open>entry['name']\<close> end it.\<close>

fun mark_names ::
  "store \<Rightarrow> datetime \<Rightarrow> string list \<Rightarrow> (path \<times> yval) list \<Rightarrow> string list \<Rightarrow> mr_msg list
   \<Rightarrow> pyexc option \<times> store \<times> (path \<times> yval) list \<times> string list \<times> mr_msg list" where
  "mark_names st now [] marked nf msgs = (None, st, marked, nf, msgs)"
| "mark_names st now (n # ns) marked nf msgs =
     (case find_entry_by_name st n of
        None \<Rightarrow> mark_names st now ns marked (nf @ [n]) (msgs @ [Entry_not_found n])
      | Some p \<Rightarrow>
          (case mark_as_reviewed st now p of
             Inl x \<Rightarrow> (Some x, st, marked, nf, msgs)
           | Inr (st1, v) \<Rightarrow>
               (case get_item v ''name'' of
                  Inl x \<Rightarrow> (Some x, st1, marked, nf, msgs)
                | Inr nm \<Rightarrow> mark_names st1 now ns (marked @ [(p, nm)]) nf
                             (msgs @ [Marked_as_reviewed nm p]))))"

text \<open>The selection loop of the batch mode: load each file, keep it when it is
  due; a load failure or an exception of \<^verbatim>\<open>is_due_for_review\<close> (a record that
  is no mapping, a malformed timestamp) is caught and reported.\<close>

fun collect_due_paths ::
  "store \<Rightarrow> datetime \<Rightarrow> int \<Rightarrow> path list \<Rightarrow> path list \<Rightarrow> mr_msg list \<Rightarrow> path list \<times> mr_msg list" where
  "collect_due_paths st now days [] due msgs = (due, msgs)"
| "collect_due_paths st now days (p # ps) due msgs =
     (case load_entry st p of
        Inl x \<Rightarrow> collect_due_paths st now days ps due (msgs @ [Could_not_load p x])
      | Inr v \<Rightarrow>
          (case as_dict v of
             Inl x \<Rightarrow> collect_due_paths st now days ps due (msgs @ [Could_not_load p x])
           | Inr e \<Rightarrow>
               (case is_due_for_review now e days of
                  Inl x \<Rightarrow> collect_due_paths st now days ps due (msgs @ [Could_not_load p x])
                | Inr b \<Rightarrow> collect_due_paths st now days ps (if b then due @ [p] else due) msgs)))"

text \<open>The marking loop of the batch mode (no exception handler).\<close>

fun mark_paths ::
  "store \<Rightarrow> datetime \<Rightarrow> path list \<Rightarrow> yval list \<Rightarrow> mr_msg list
   \<Rightarrow> pyexc option \<times> store \<times> yval list \<times> mr_msg list" where
  "mark_paths st now [] marked msgs = (None, st, marked, msgs)"
| "mark_paths st now (p # ps) marked msgs =
     (case mark_as_reviewed st now p of
        Inl x \<Rightarrow> (Some x, st, marked, msgs)
      | Inr (st1, v) \<Rightarrow>
          (case get_item v ''name'' of
             Inl x \<Rightarrow> (Some x, st1, marked, msgs)
           | Inr nm \<Rightarrow> mark_paths st1 now ps (marked @ [nm]) (msgs @ [Tick nm])))"

text \<open>\<^verbatim>\<open>mark_reviewed.main\<close>: targeted when names are given, batch otherwise.\<close>

definition mark_reviewed_main ::
  "store \<Rightarrow> datetime \<Rightarrow> string list \<Rightarrow> int \<Rightarrow> store \<times> mr_msg list \<times> outcome" where
  "mark_reviewed_main st now names days =
     (if names \<noteq> [] then
        (case mark_names st now names [] [] [] of
           (Some x, st', _, _, msgs) \<Rightarrow> (st', msgs, Crash x)
         | (None, st', marked, nf, msgs) \<Rightarrow>
             (st', msgs @ (if marked \<noteq> [] then [Successfully_marked (length marked)] else [])
                       @ (if nf \<noteq> [] then [Could_not_find (length nf)] else []), Exit 0))
      else
        (let (due, msgs) = collect_due_paths st now days (get_all_entries st) [] [] in
         if due = [] then (st, msgs @ [No_entries_due days], Exit 0)
         else
           (case mark_paths st now due [] (msgs @ [Found_due (length due)]) of
              (Some x, st', _, msgs') \<Rightarrow> (st', msgs', Crash x)
            | (None, st', marked, msgs') \<Rightarrow> (st', msgs' @ [Successfully_marked (length marked)], Exit 0))))"

text \<open>The record after \<^verbatim>\<open>entry['last_reviewed'] = now.isoformat()\<close>.\<close>

definition reviewed :: "datetime \<Rightarrow> yval \<Rightarrow> yval" where
  "reviewed now v = (case v of YMap e \<Rightarrow> YMap (dict_set e ''last_reviewed'' (YStr (isoformat now))) | _ \<Rightarrow> v)"

text \<open>A file that the selection loop of the batch mode keeps: it loads as a
  mapping that \<^verbatim>\<open>is_due_for_review\<close> accepts.\<close>

definition due_at :: "store \<Rightarrow> datetime \<Rightarrow> int \<Rightarrow> path \<Rightarrow> bool" where
  "due_at st now days p =
     (case load_entry st p of Inr (YMap e) \<Rightarrow> is_due_for_review now e days = Inr True | _ \<Rightarrow> False)"

text \<open>What a file holds after the files \<open>ps\<close> have been marked reviewed.\<close>

definition after_marking :: "datetime \<Rightarrow> path list \<Rightarrow> store \<Rightarrow> path \<Rightarrow> pyexc + yval" where
  "after_marking now ps st q =
     (if q \<in> set ps then (case load_entry st q of Inr v \<Rightarrow> Inr (reviewed now v) | l \<Rightarrow> l)
      else load_entry st q)"

text \<open>A store with an empty record file and a record without a name.\<close>

definition broken_store :: store where
  "broken_store =
     \<lparr>dirs = [(''words'', [(''blank.yaml'', Doc YNone),
                             (''noname.yaml'', Doc (YMap [(''type'', YStr ''word'')]))])]\<rparr>"

declare mark_as_reviewed_def [vocab_defs] mark_reviewed_main_def [vocab_defs] reviewed_def [vocab_defs]
  due_at_def [vocab_defs]

subsection \<open>Lemmas\<close>

lemma load_entry_listing: "load_entry st p = Inr v \<Longrightarrow> listing_of st (fst p) \<noteq> None"
  by (auto simp: load_entry_def read_file_def split: option.splits sum.splits)

lemma mark_as_reviewed_dict:
  assumes "load_entry st p = Inr (YMap e)"
  obtains st' where "save_entry st p (reviewed now (YMap e)) = Inr st'"
    and "mark_as_reviewed st now p = Inr (st', reviewed now (YMap e))"
proof -
  obtain st' where s: "save_entry st p (reviewed now (YMap e)) = Inr st'"
    using load_entry_listing [OF assms] save_entry_Inr_iff by blast
  then have "mark_as_reviewed st now p = Inr (st', reviewed now (YMap e))"
    using assms by (simp add: mark_as_reviewed_def set_item_def reviewed_def)
  with s show ?thesis by (rule that)
qed

lemma is_due_after_review:
  assumes "is_promoted e" and "dt_valid now"
  shows "is_due_for_review now' (dict_set e ''last_reviewed'' (YStr (isoformat now))) days
           = Inr (days \<le> sub_days now' now)"
  using assms by (simp add: is_due_isoformat)

lemma collect_due_paths_fst:
  "fst (collect_due_paths st now days ps due msgs) = due @ filter (due_at st now days) ps"
proof (induction ps arbitrary: due msgs)
  case Nil
  then show ?case by simp
next
  case (Cons p ps)
  show ?case
  proof (cases "load_entry st p")
    case (Inl x)
    then show ?thesis using Cons.IH by (simp add: due_at_def)
  next
    case (Inr v)
    then show ?thesis
    proof (cases v)
      case (YMap e)
      with Inr show ?thesis using Cons.IH
        by (cases "is_due_for_review now e days") (auto simp: due_at_def as_dict_def)
    qed (use Cons.IH in \<open>simp_all add: due_at_def as_dict_def\<close>)
  qed
qed

lemma get_item_reviewed_name:
  assumes "is_promoted e"
  shows "\<exists>nm. get_item (reviewed now (YMap e)) ''name'' = Inr nm"
proof -
  obtain v where "map_of e ''name'' = Some v" using is_promoted_has_name [OF assms] by blast
  then show ?thesis by (simp add: reviewed_def get_item_def dict_index_def map_of_set_other)
qed

lemma load_entry_path_exists: "load_entry st p = Inr v \<Longrightarrow> path_exists st p"
  by (auto simp: load_entry_def path_exists_read split: sum.splits)

lemma save_path_exists:
  assumes "save_entry st p v = Inr st'" and "path_exists st p"
  shows "path_exists st' q = path_exists st q"
  using path_exists_write [of st p "Doc v" st' q] assms by (auto simp: save_entry_def)

lemma mark_paths_run:
  assumes "distinct ps" and "list_all (\<lambda>p. \<exists>e. load_entry st p = Inr (YMap e) \<and> is_promoted e) ps"
  shows "\<exists>st' names msgs'. mark_paths st now ps marked msgs = (None, st', marked @ names, msgs')
           \<and> length names = length ps \<and> (\<forall>q. load_entry st' q = after_marking now ps st q)
           \<and> (\<forall>q. path_exists st' q = path_exists st q)"
  using assms
proof (induction ps arbitrary: st marked msgs)
  case Nil
  then show ?case by (simp add: after_marking_def)
next
  case (Cons p ps)
  obtain e where le: "load_entry st p = Inr (YMap e)" and pe: "is_promoted e"
    using Cons.prems(2) by auto
  obtain st1 where sv: "save_entry st p (reviewed now (YMap e)) = Inr st1"
    and m: "mark_as_reviewed st now p = Inr (st1, reviewed now (YMap e))"
    using mark_as_reviewed_dict [OF le] .
  obtain nm where nm: "get_item (reviewed now (YMap e)) ''name'' = Inr nm"
    using get_item_reviewed_name [OF pe] by blast
  have pns: "p \<notin> set ps" and dps: "distinct ps" using Cons.prems(1) by auto
  have same: "load_entry st1 q = load_entry st q" if "q \<in> set ps" for q
  proof -
    have "q \<noteq> p" using that pns by blast
    then show ?thesis by (rule save_load_other [OF sv])
  qed
  have ex1: "path_exists st1 q = path_exists st q" for q
    using save_path_exists [OF sv load_entry_path_exists [OF le]] .
  have "list_all (\<lambda>p. \<exists>e. load_entry st1 p = Inr (YMap e) \<and> is_promoted e) ps"
    using Cons.prems(2) same by (auto simp: list_all_iff)
  then obtain st' names msgs' where
      run: "mark_paths st1 now ps (marked @ [nm]) (msgs @ [Tick nm]) = (None, st', (marked @ [nm]) @ names, msgs')"
      and len: "length names = length ps"
      and ld: "\<forall>q. load_entry st' q = after_marking now ps st1 q"
      and ex: "\<forall>q. path_exists st' q = path_exists st1 q"
    using Cons.IH [OF dps] by blast
  have "mark_paths st now (p # ps) marked msgs = (None, st', marked @ (nm # names), msgs')"
    using m nm run by simp
  moreover have "\<forall>q. load_entry st' q = after_marking now (p # ps) st q"
  proof
    fix q
    show "load_entry st' q = after_marking now (p # ps) st q"
    proof (cases "q = p")
      case True
      have "load_entry st' p = after_marking now ps st1 p" using ld by blast
      then have "load_entry st' p = load_entry st1 p" using pns by (simp add: after_marking_def)
      then show ?thesis using True save_load_same [OF sv] le by (simp add: after_marking_def)
    next
      case False
      have "load_entry st' q = after_marking now ps st1 q" using ld by blast
      then show ?thesis using False same save_load_other [OF sv False] by (simp add: after_marking_def)
    qed
  qed
  moreover have "\<forall>q. path_exists st' q = path_exists st q" using ex ex1 by blast
  ultimately show ?case using len by auto
qed

lemma is_due_True_promoted: "is_due_for_review now e days = Inr True \<Longrightarrow> is_promoted e"
  by (simp add: is_due_for_review_def split: if_splits)

lemma mark_names_not_found:
  "list_all (\<lambda>n. find_entry_by_name st n = None) ns \<Longrightarrow>
   mark_names st now ns marked nf msgs = (None, st, marked, nf @ ns, msgs @ map Entry_not_found ns)"
  by (induction ns arbitrary: nf msgs) auto

lemma batch_due_split:
  obtains msgs where "collect_due_paths st now days (get_all_entries st) [] [] =
      (filter (due_at st now days) (get_all_entries st), msgs)"
  using collect_due_paths_fst [of st now days "get_all_entries st" "[]" "[]"]
  by (cases "collect_due_paths st now days (get_all_entries st) [] []") auto

lemma due_at_loads:
  "due_at st now days p \<Longrightarrow> \<exists>e. load_entry st p = Inr (YMap e) \<and> is_promoted e"
  by (auto simp: due_at_def is_due_True_promoted split: sum.splits yval.splits)

lemma due_list_props:
  assumes "store_wf st"
  shows "distinct (filter (due_at st now days) (get_all_entries st))"
    and "list_all (\<lambda>p. \<exists>e. load_entry st p = Inr (YMap e) \<and> is_promoted e)
           (filter (due_at st now days) (get_all_entries st))"
  using distinct_get_all_entries [OF assms] due_at_loads by (auto simp: list_all_iff)

text \<open>The batch mode, when the due list is not empty: the marking loop runs to
  its end.\<close>

lemma batch_main_effect:
  assumes "store_wf st" and "mark_reviewed_main st now [] days = (st', msgs, out)"
  shows "out = Exit 0 \<and> (\<forall>q. load_entry st' q = after_marking now (filter (due_at st now days) (get_all_entries st)) st q)
         \<and> (\<forall>q. path_exists st' q = path_exists st q)
         \<and> (filter (due_at st now days) (get_all_entries st) \<noteq> [] \<longrightarrow>
              last msgs = Successfully_marked (length (filter (due_at st now days) (get_all_entries st))))"
proof -
  define due where "due = filter (due_at st now days) (get_all_entries st)"
  obtain msgs0 where c: "collect_due_paths st now days (get_all_entries st) [] [] = (due, msgs0)"
    using batch_due_split due_def by metis
  show ?thesis
  proof (cases "due = []")
    case True
    then have "mark_reviewed_main st now [] days = (st, msgs0 @ [No_entries_due days], Exit 0)"
      using c by (simp add: mark_reviewed_main_def)
    then have "st' = st" and "out = Exit 0" using assms(2) by auto
    then show ?thesis using True unfolding due_def [symmetric] by (simp add: after_marking_def)
  next
    case False
    obtain st2 names msgs' where
        r: "mark_paths st now due [] (msgs0 @ [Found_due (length due)]) = (None, st2, [] @ names, msgs')"
        and len: "length names = length due"
        and ld: "\<forall>q. load_entry st2 q = after_marking now due st q"
        and ex: "\<forall>q. path_exists st2 q = path_exists st q"
      using mark_paths_run [OF due_list_props [OF assms(1), of now days], of now "[]" "msgs0 @ [Found_due (length due)]"]
      unfolding due_def [symmetric] by blast
    have "mark_reviewed_main st now [] days = (st2, msgs' @ [Successfully_marked (length due)], Exit 0)"
      using c False r len by (simp add: mark_reviewed_main_def)
    then show ?thesis using assms(2) ld ex unfolding due_def [symmetric] by auto
  qed
qed

text \<open>C22: \<^verbatim>\<open>mark_as_reviewed\<close> on a record that is a mapping sets its
  \<^verbatim>\<open>last_reviewed\<close> field to the ISO text of the current time, in place when
  the field exists and as a new last field otherwise, writes the record back to
  the same file and leaves every other file as it was.\<close>

theorem mark_as_reviewed_spec:
  assumes "load_entry st p = Inr (YMap e)"
  shows "\<exists>st'. mark_as_reviewed st now p = Inr (st', YMap (dict_set e ''last_reviewed'' (YStr (isoformat now))))
     \<and> load_entry st' p = Inr (YMap (dict_set e ''last_reviewed'' (YStr (isoformat now))))
     \<and> (\<forall>q. q \<noteq> p \<longrightarrow> load_entry st' q = load_entry st q)
     \<and> dict_keys (dict_set e ''last_reviewed'' (YStr (isoformat now))) =
         (if ''last_reviewed'' \<in> set (dict_keys e) then dict_keys e else dict_keys e @ [''last_reviewed''])"
proof -
  obtain st' where sv: "save_entry st p (reviewed now (YMap e)) = Inr st'"
    and m: "mark_as_reviewed st now p = Inr (st', reviewed now (YMap e))"
    using mark_as_reviewed_dict [OF assms] .
  have "dict_keys (dict_set e ''last_reviewed'' (YStr (isoformat now))) =
         (if ''last_reviewed'' \<in> set (dict_keys e) then dict_keys e else dict_keys e @ [''last_reviewed''])"
    by (simp add: dict_set_def dict_keys_update_present dict_keys_update_absent)
  then show ?thesis
    using m save_load_same [OF sv] save_load_other [OF sv] by (auto simp: reviewed_def)
qed

text \<open>C23: Right after an entry is marked reviewed at a valid time \<open>now\<close>, it is
  due at a later time \<open>now'\<close> exactly when at least \<open>days\<close> whole days separate
  \<open>now'\<close> from \<open>now\<close>: the timestamp written is read back by
  \<^verbatim>\<open>is_due_for_review\<close> as the same instant.\<close>

theorem mark_then_due:
  assumes "load_entry st p = Inr (YMap e)" and "is_promoted e" and "dt_valid now"
    and "mark_as_reviewed st now p = Inr (st', v)"
  shows "\<exists>e'. v = YMap e' \<and> load_entry st' p = Inr v
           \<and> is_due_for_review now' e' days = Inr (days \<le> sub_days now' now)"
proof -
  obtain st1 where sv: "save_entry st p (reviewed now (YMap e)) = Inr st1"
    and m: "mark_as_reviewed st now p = Inr (st1, reviewed now (YMap e))"
    using mark_as_reviewed_dict [OF assms(1)] .
  have "st' = st1" and v: "v = reviewed now (YMap e)" using m assms(4) by auto
  then show ?thesis
    using save_load_same [OF sv] is_due_after_review [OF assms(2,3)] by (simp add: reviewed_def)
qed

text \<open>C24: Targeted marking of names none of which has a record changes no
  file, warns once per name, reports their number and exits with status 0.\<close>

theorem mark_unknown_names:
  assumes "ns \<noteq> []" and "list_all (\<lambda>n. find_entry_by_name st n = None) ns"
  shows "mark_reviewed_main st now ns days = (st, map Entry_not_found ns @ [Could_not_find (length ns)], Exit 0)"
  using assms by (simp add: mark_reviewed_main_def mark_names_not_found)

text \<open>C25: Targeted marking of a name whose file holds no mapping (an empty
  file loads as \<^verbatim>\<open>None\<close>) ends with an uncaught \<^verbatim>\<open>TypeError\<close>: the
  assignment \<^verbatim>\<open>entry['last_reviewed'] = ...\<close> has no handler, although the
  command is meant to exit 0 always.\<close>

theorem mark_non_mapping_crash:
  assumes "find_entry_by_name st n = Some p" and "load_entry st p = Inr v" and "\<forall>e. v \<noteq> YMap e"
  shows "mark_reviewed_main st now (n # ns) days = (st, [], Crash TypeError)"
proof -
  have "set_item v ''last_reviewed'' (YStr (isoformat now)) = Inl TypeError"
    using assms(3) by (cases v) (auto simp: set_item_def)
  then show ?thesis using assms(1,2) by (simp add: mark_reviewed_main_def mark_as_reviewed_def)
qed

text \<open>C26: Targeted marking of a record that has no \<^verbatim>\<open>name\<close> field first
  writes the new \<^verbatim>\<open>last_reviewed\<close> to the file and then ends with an
  uncaught \<^verbatim>\<open>KeyError\<close> on \<^verbatim>\<open>entry['name']\<close>.\<close>

theorem mark_nameless_crash:
  assumes "find_entry_by_name st n = Some p" and "load_entry st p = Inr (YMap e)"
    and "map_of e ''name'' = None"
  shows "\<exists>st'. mark_reviewed_main st now (n # ns) days = (st', [], Crash (KeyError ''name''))
           \<and> load_entry st' p = Inr (YMap (dict_set e ''last_reviewed'' (YStr (isoformat now))))"
proof -
  obtain st1 where sv: "save_entry st p (reviewed now (YMap e)) = Inr st1"
    and m: "mark_as_reviewed st now p = Inr (st1, reviewed now (YMap e))"
    using mark_as_reviewed_dict [OF assms(2)] .
  have "get_item (reviewed now (YMap e)) ''name'' = Inl (KeyError ''name'')"
    using assms(3) by (simp add: reviewed_def get_item_def dict_index_def map_of_set_other)
  then show ?thesis
    using assms(1) m save_load_same [OF sv] by (simp add: mark_reviewed_main_def reviewed_def)
qed

text \<open>C27: The batch mode marks exactly the due entries: after it, every record
  file of the three directories that was due holds its record with
  \<^verbatim>\<open>last_reviewed\<close> set to now, every other file is as before, no file is
  created or removed, and the run exits with status 0.\<close>

theorem batch_marks_due:
  assumes "store_wf st" and "mark_reviewed_main st now [] days = (st', msgs, out)"
  shows "out = Exit 0
    \<and> (\<forall>q. load_entry st' q =
          (if q \<in> set (get_all_entries st) \<and> due_at st now days q then
             (case load_entry st q of Inr v \<Rightarrow> Inr (reviewed now v) | l \<Rightarrow> l)
           else load_entry st q))
    \<and> (\<forall>q. path_exists st' q = path_exists st q)"
  using batch_main_effect [OF assms] by (simp add: after_marking_def)

text \<open>C28: The batch mode is idempotent: run again at the same time with a
  positive interval, it finds nothing due, changes nothing and exits 0.\<close>

theorem batch_idempotent:
  assumes "store_wf st" and "dt_valid now" and "0 < days"
    and "mark_reviewed_main st now [] days = (st', msgs, out)"
  shows "\<exists>msgs'. mark_reviewed_main st' now [] days = (st', msgs', Exit 0)
           \<and> last msgs' = No_entries_due days"
proof -
  define due where "due = filter (due_at st now days) (get_all_entries st)"
  have eff: "\<forall>q. load_entry st' q = after_marking now due st q"
    and ex: "\<forall>q. path_exists st' q = path_exists st q"
    using batch_main_effect [OF assms(1,4)] unfolding due_def by auto
  have nd: "\<not> due_at st' now days q" if q: "q \<in> set (get_all_entries st')" for q
  proof -
    have qa: "q \<in> set (get_all_entries st)" using q ex by (simp add: mem_get_all_entries)
    have lq: "load_entry st' q = after_marking now due st q" using eff by blast
    show ?thesis
    proof (cases "due_at st now days q")
      case True
      then obtain e where le: "load_entry st q = Inr (YMap e)" and pe: "is_promoted e"
        using due_at_loads by blast
      have "q \<in> set due" using True qa by (simp add: due_def)
      then have "load_entry st' q = Inr (YMap (dict_set e ''last_reviewed'' (YStr (isoformat now))))"
        using lq le by (simp add: after_marking_def reviewed_def)
      then show ?thesis using is_due_after_review [OF pe assms(2), of now days] assms(3)
        by (simp add: due_at_def)
    next
      case False
      then have "q \<notin> set due" by (simp add: due_def)
      then show ?thesis using lq False by (simp add: after_marking_def due_at_def)
    qed
  qed
  then have "filter (due_at st' now days) (get_all_entries st') = []"
    by (simp add: filter_empty_conv)
  moreover obtain msgs0 where
    "collect_due_paths st' now days (get_all_entries st') [] [] = (filter (due_at st' now days) (get_all_entries st'), msgs0)"
    using batch_due_split .
  ultimately show ?thesis by (simp add: mark_reviewed_main_def)
qed

subsection \<open>Witnesses\<close>

lemma sample_spill_load:
  "load_entry sample_store (''idioms'', ''spill-the-beans.yaml'') = Inr (YMap (sample_idiom YNone))"
  by (simp add: load_entry_def read_file_def listing_of_def sample_store_def)

lemma sample_dt_gap: "sub_days (sample_dt 9) (sample_dt 1) = 8"
  by (simp add: sample_dt_def sub_days_def total_us_def toordinal_def us_per_day_def
      days_before_year_def days_before_month_def is_leap_def)

lemma mark_as_reviewed_spec_witness:
  "\<exists>st'. mark_as_reviewed sample_store (sample_dt 1) (''idioms'', ''spill-the-beans.yaml'') =
          Inr (st', YMap (dict_set (sample_idiom YNone) ''last_reviewed'' (YStr (isoformat (sample_dt 1)))))
     \<and> load_entry st' (''words'', ''ice.yaml'') = load_entry sample_store (''words'', ''ice.yaml'')"
  using mark_as_reviewed_spec [OF sample_spill_load, of "sample_dt 1"] by auto

lemma mark_then_due_witness:
  "\<exists>st' e'. mark_as_reviewed sample_store (sample_dt 1) (''idioms'', ''spill-the-beans.yaml'') = Inr (st', YMap e')
     \<and> is_due_for_review (sample_dt 1) e' 7 = Inr False
     \<and> is_due_for_review (sample_dt 9) e' 7 = Inr True"
proof -
  obtain st' where m: "mark_as_reviewed sample_store (sample_dt 1) (''idioms'', ''spill-the-beans.yaml'') =
      Inr (st', reviewed (sample_dt 1) (YMap (sample_idiom YNone)))"
    using mark_as_reviewed_dict [OF sample_spill_load] by metis
  have v: "dt_valid (sample_dt 1)" by (simp add: sample_dt_valid)
  obtain e' where e': "reviewed (sample_dt 1) (YMap (sample_idiom YNone)) = YMap e'"
    and a: "is_due_for_review (sample_dt 1) e' 7 = Inr (7 \<le> sub_days (sample_dt 1) (sample_dt 1))"
    using mark_then_due [OF sample_spill_load sample_idiom_promoted v m, of "sample_dt 1" 7] by blast
  have b: "is_due_for_review (sample_dt 9) e' 7 = Inr (7 \<le> sub_days (sample_dt 9) (sample_dt 1))"
    using mark_then_due [OF sample_spill_load sample_idiom_promoted v m, of "sample_dt 9" 7] e' by auto
  show ?thesis using m e' a b sample_dt_gap by auto
qed

lemma mark_unknown_names_witness:
  "mark_reviewed_main sample_store (sample_dt 1) [''no such word''] 7 =
     (sample_store, [Entry_not_found ''no such word'', Could_not_find 1], Exit 0)"
proof -
  have "find_entry_by_name sample_store ''no such word'' = None" by code_simp
  then show ?thesis using mark_unknown_names [of "[''no such word'']" sample_store "sample_dt 1" 7] by simp
qed

lemma mark_non_mapping_crash_witness:
  "mark_reviewed_main broken_store (sample_dt 1) [''blank''] 7 = (broken_store, [], Crash TypeError)"
proof -
  have f: "find_entry_by_name broken_store ''blank'' = Some (''words'', ''blank.yaml'')" by code_simp
  have l: "load_entry broken_store (''words'', ''blank.yaml'') = Inr YNone"
    by (simp add: load_entry_def read_file_def listing_of_def broken_store_def)
  show ?thesis using mark_non_mapping_crash [OF f l] by simp
qed

lemma mark_nameless_crash_witness:
  "\<exists>st'. mark_reviewed_main broken_store (sample_dt 1) [''noname''] 7 = (st', [], Crash (KeyError ''name''))
     \<and> load_entry st' (''words'', ''noname.yaml'') =
         Inr (YMap [(''type'', YStr ''word''), (''last_reviewed'', YStr (isoformat (sample_dt 1)))])"
proof -
  have f: "find_entry_by_name broken_store ''noname'' = Some (''words'', ''noname.yaml'')" by code_simp
  have l: "load_entry broken_store (''words'', ''noname.yaml'') = Inr (YMap [(''type'', YStr ''word'')])"
    by (simp add: load_entry_def read_file_def listing_of_def broken_store_def)
  show ?thesis using mark_nameless_crash [OF f l, of "sample_dt 1" "[]" 7] by (simp add: dict_set_def)
qed

lemma sample_store_due:
  "due_at sample_store (sample_dt 1) 7 (''idioms'', ''spill-the-beans.yaml'')
   \<and> (''idioms'', ''spill-the-beans.yaml'') \<in> set (get_all_entries sample_store)
   \<and> \<not> due_at sample_store (sample_dt 1) 7 (''words'', ''ice.yaml'')"
proof -
  have a: "due_at sample_store (sample_dt 1) 7 (''idioms'', ''spill-the-beans.yaml'')"
    using sample_spill_load sample_idiom_promoted
    by (simp add: due_at_def is_due_promoted_cases sample_idiom_last_reviewed)
  have b: "(''idioms'', ''spill-the-beans.yaml'') \<in> set (get_all_entries sample_store)" by code_simp
  have c: "\<not> due_at sample_store (sample_dt 1) 7 (''words'', ''ice.yaml'')"
    by (simp add: due_at_def load_entry_def read_file_def listing_of_def sample_store_def
        is_due_for_review_def promoted_simps dict_get_def present_def)
  show ?thesis using a b c by blast
qed

lemma batch_marks_due_witness:
  "\<exists>st' msgs. mark_reviewed_main sample_store (sample_dt 1) [] 7 = (st', msgs, Exit 0)
     \<and> load_entry st' (''idioms'', ''spill-the-beans.yaml'') =
         Inr (YMap (dict_set (sample_idiom YNone) ''last_reviewed'' (YStr (isoformat (sample_dt 1)))))
     \<and> load_entry st' (''words'', ''ice.yaml'') = load_entry sample_store (''words'', ''ice.yaml'')"
proof -
  obtain st' msgs out where r: "mark_reviewed_main sample_store (sample_dt 1) [] 7 = (st', msgs, out)"
    by (cases "mark_reviewed_main sample_store (sample_dt 1) [] 7") auto
  show ?thesis
    using batch_marks_due [OF sample_store_wf r] r sample_store_due sample_spill_load
    by (auto simp: reviewed_def)
qed

lemma batch_idempotent_witness:
  "\<exists>st' msgs msgs'. mark_reviewed_main sample_store (sample_dt 1) [] 7 = (st', msgs, Exit 0)
     \<and> mark_reviewed_main st' (sample_dt 1) [] 7 = (st', msgs', Exit 0)
     \<and> last msgs' = No_entries_due 7"
proof -
  obtain st' msgs out where r: "mark_reviewed_main sample_store (sample_dt 1) [] 7 = (st', msgs, out)"
    by (cases "mark_reviewed_main sample_store (sample_dt 1) [] 7") auto
  have v: "dt_valid (sample_dt 1)" by (simp add: sample_dt_valid)
  have "out = Exit 0" using batch_main_effect [OF sample_store_wf r] by blast
  then show ?thesis using batch_idempotent [OF sample_store_wf v _ r] r by auto
qed

subsection \<open>Marking one record\<close>

lemma mark_as_reviewed_Inr:
  assumes "mark_as_reviewed st now p = Inr (st1, v)"
  shows "\<exists>e. load_entry st p = Inr (YMap e) \<and> v = reviewed now (YMap e)
           \<and> (\<forall>q. load_entry st1 q = (if q = p then Inr v else load_entry st q))
           \<and> (\<forall>q. path_exists st1 q = path_exists st q)"
proof -
  obtain v0 where l: "load_entry st p = Inr v0"
    using assms by (cases "load_entry st p") (simp_all add: mark_as_reviewed_def)
  then obtain e where e: "v0 = YMap e"
    using assms by (cases v0) (simp_all add: mark_as_reviewed_def set_item_def)
  obtain st2 where sv: "save_entry st p (reviewed now (YMap e)) = Inr st2"
    and m: "mark_as_reviewed st now p = Inr (st2, reviewed now (YMap e))"
    using mark_as_reviewed_dict [OF l [unfolded e]] .
  have "st1 = st2" "v = reviewed now (YMap e)" using m assms by simp_all
  moreover have "\<forall>q. load_entry st2 q = (if q = p then Inr (reviewed now (YMap e)) else load_entry st q)"
    using save_load_same [OF sv] save_load_other [OF sv] by simp
  moreover have "\<forall>q. path_exists st2 q = path_exists st q"
    using save_path_exists [OF sv load_entry_path_exists [OF l]] by blast
  ultimately show ?thesis using l e by blast
qed

lemma find_entry_by_name_paths:
  "(\<forall>q. path_exists st' q = path_exists st q) \<Longrightarrow> find_entry_by_name st' n = find_entry_by_name st n"
proof -
  assume h: "\<forall>q. path_exists st' q = path_exists st q"
  have "find_in_dirs st' fn ds = find_in_dirs st fn ds" for fn ds
    using h by (induction ds) auto
  then show ?thesis by (simp add: find_entry_by_name_def)
qed

text \<open>C11: Marking a record reviewed never changes whether it is promoted: a stub
  named on the command line is stamped but stays a stub, and a promoted entry
  gets the status \<^verbatim>\<open>promoted (reviewed)\<close>.\<close>

theorem mark_keeps_status:
  assumes "mark_as_reviewed st now p = Inr (st', v)"
  shows "\<exists>e e'. load_entry st p = Inr (YMap e) \<and> v = YMap e' \<and> is_promoted e' = is_promoted e
           \<and> get_entry_status e' = (if is_promoted e then ''promoted (reviewed)'' else ''stub'')"
proof -
  obtain e where l: "load_entry st p = Inr (YMap e)" and v: "v = reviewed now (YMap e)"
    using mark_as_reviewed_Inr [OF assms] by blast
  have "v = YMap (dict_set e ''last_reviewed'' (YStr (isoformat now)))" using v by (simp add: reviewed_def)
  then show ?thesis using l by (simp add: get_entry_status_def)
qed

lemma delete_dict_set: "AList.delete k (dict_set e k v) = AList.delete k e"
  by (simp add: dict_set_def delete_update_same)

lemma marked_record_step:
  assumes "mark_as_reviewed st now p = Inr (st1, v)" and "load_entry st q = Inr (YMap e)"
  shows "\<exists>e'. load_entry st1 q = Inr (YMap e')
           \<and> AList.delete ''last_reviewed'' e' = AList.delete ''last_reviewed'' e
           \<and> (q = p \<or> dict_get e ''last_reviewed'' = YStr (isoformat now)
                \<longrightarrow> dict_get e' ''last_reviewed'' = YStr (isoformat now))"
proof -
  obtain e0 where l: "load_entry st p = Inr (YMap e0)" and v: "v = reviewed now (YMap e0)"
    and ld: "\<forall>q. load_entry st1 q = (if q = p then Inr v else load_entry st q)"
    using mark_as_reviewed_Inr [OF assms(1)] by blast
  show ?thesis
  proof (cases "q = p")
    case True
    then have "e0 = e" using l assms(2) by simp
    moreover have "load_entry st1 p = Inr v" using spec [OF ld, of p] by simp
    ultimately show ?thesis using True v by (simp add: reviewed_def delete_dict_set)
  next
    case False
    then show ?thesis using spec [OF ld, of q] assms(2) by simp
  qed
qed

lemma map_of_delete_eq:
  "AList.delete k e' = AList.delete k e \<Longrightarrow> x \<noteq> k \<Longrightarrow> map_of e' x = map_of e x"
  by (metis delete_conv fun_upd_other)

lemma get_item_reviewed: "map_of e ''name'' = Some w \<Longrightarrow> get_item (reviewed now (YMap e)) ''name'' = Inr w"
  by (simp add: reviewed_def get_item_def dict_index_def map_of_set_other)

lemma mark_names_found:
  assumes "list_all (\<lambda>n. \<exists>p e. find_entry_by_name st n = Some p \<and> load_entry st p = Inr (YMap e)
                             \<and> map_of e ''name'' \<noteq> None) ns"
    and "list_all (\<lambda>n. \<exists>p e. find_entry_by_name st n = Some p \<and> load_entry st p = Inr (YMap e)
                             \<and> dict_get e ''last_reviewed'' = YStr (isoformat now)) ds"
  shows "\<exists>st' ms msgs'. mark_names st now ns marked nf msgs = (None, st', marked @ ms, nf, msgs')
    \<and> length ms = length ns
    \<and> list_all (\<lambda>n. \<exists>p e. find_entry_by_name st n = Some p \<and> load_entry st' p = Inr (YMap e)
                        \<and> dict_get e ''last_reviewed'' = YStr (isoformat now)) (ds @ ns)"
  using assms
proof (induction ns arbitrary: st ds marked msgs)
  case Nil
  then show ?case by simp
next
  case (Cons n ns)
  obtain p e w where f: "find_entry_by_name st n = Some p" and l: "load_entry st p = Inr (YMap e)"
    and nm: "map_of e ''name'' = Some w"
    using Cons.prems(1) by auto
  obtain st1 where m: "mark_as_reviewed st now p = Inr (st1, reviewed now (YMap e))"
    using mark_as_reviewed_dict [OF l] by blast
  have fe: "find_entry_by_name st1 x = find_entry_by_name st x" for x
    using mark_as_reviewed_Inr [OF m] find_entry_by_name_paths by blast
  have step: "\<exists>e'. load_entry st1 q = Inr (YMap e')
           \<and> AList.delete ''last_reviewed'' e' = AList.delete ''last_reviewed'' e0
           \<and> (q = p \<or> dict_get e0 ''last_reviewed'' = YStr (isoformat now)
                \<longrightarrow> dict_get e' ''last_reviewed'' = YStr (isoformat now))"
    if "load_entry st q = Inr (YMap e0)" for q e0
    using marked_record_step [OF m that] .
  have a1: "list_all (\<lambda>n. \<exists>p e. find_entry_by_name st1 n = Some p \<and> load_entry st1 p = Inr (YMap e)
                             \<and> map_of e ''name'' \<noteq> None) ns"
    unfolding list_all_iff
  proof
    fix x assume "x \<in> set ns"
    then obtain q e0 where "find_entry_by_name st x = Some q" "load_entry st q = Inr (YMap e0)"
      "map_of e0 ''name'' \<noteq> None"
      using Cons.prems(1) by (auto simp: list_all_iff)
    note q = this
    obtain e1 where e1: "load_entry st1 q = Inr (YMap e1)"
      and d: "AList.delete ''last_reviewed'' e1 = AList.delete ''last_reviewed'' e0"
      using step [OF q(2)] by blast
    have "map_of e1 ''name'' = map_of e0 ''name''" using map_of_delete_eq [OF d] by simp
    then show "\<exists>p e. find_entry_by_name st1 x = Some p \<and> load_entry st1 p = Inr (YMap e) \<and> map_of e ''name'' \<noteq> None"
      using q(1,3) e1 fe by auto
  qed
  have a2: "list_all (\<lambda>n. \<exists>p e. find_entry_by_name st1 n = Some p \<and> load_entry st1 p = Inr (YMap e)
                             \<and> dict_get e ''last_reviewed'' = YStr (isoformat now)) (ds @ [n])"
    unfolding list_all_iff
  proof
    fix x assume x: "x \<in> set (ds @ [n])"
    show "\<exists>p e. find_entry_by_name st1 x = Some p \<and> load_entry st1 p = Inr (YMap e)
                \<and> dict_get e ''last_reviewed'' = YStr (isoformat now)"
    proof (cases "x = n")
      case True
      obtain e1 where "load_entry st1 p = Inr (YMap e1)"
        and "dict_get e1 ''last_reviewed'' = YStr (isoformat now)"
        using step [OF l] by blast
      then show ?thesis using True f fe by auto
    next
      case False
      then obtain q e0 where "find_entry_by_name st x = Some q" "load_entry st q = Inr (YMap e0)"
        "dict_get e0 ''last_reviewed'' = YStr (isoformat now)"
        using x Cons.prems(2) by (auto simp: list_all_iff)
      note q = this
      obtain e1 where "load_entry st1 q = Inr (YMap e1)"
        and "dict_get e1 ''last_reviewed'' = YStr (isoformat now)"
        using step [OF q(2)] q(3) by blast
      then show ?thesis using q(1) fe by auto
    qed
  qed
  obtain st' ms msgs' where
      r: "mark_names st1 now ns (marked @ [(p, w)]) nf (msgs @ [Marked_as_reviewed w p]) =
            (None, st', (marked @ [(p, w)]) @ ms, nf, msgs')"
      and len: "length ms = length ns"
      and fin: "list_all (\<lambda>n. \<exists>p e. find_entry_by_name st1 n = Some p \<and> load_entry st' p = Inr (YMap e)
                        \<and> dict_get e ''last_reviewed'' = YStr (isoformat now)) ((ds @ [n]) @ ns)"
    using Cons.IH [OF a1 a2] by blast
  have "mark_names st now (n # ns) marked nf msgs = (None, st', marked @ ((p, w) # ms), nf, msgs')"
    using f m get_item_reviewed [OF nm] r by simp
  moreover have "list_all (\<lambda>n. \<exists>p e. find_entry_by_name st n = Some p \<and> load_entry st' p = Inr (YMap e)
                        \<and> dict_get e ''last_reviewed'' = YStr (isoformat now)) (ds @ n # ns)"
    using fin by (simp add: fe)
  ultimately show ?case using len by auto
qed

text \<open>C13: Targeted marking stamps every named record it finds, whether due or
  not, promoted or a stub: when every name resolves to a record that is a
  mapping with a name, the run writes \<^verbatim>\<open>last_reviewed\<close> = now into each of
  them, reports their number and exits 0.\<close>

theorem mark_named_entries:
  assumes "names \<noteq> []"
    and "list_all (\<lambda>n. \<exists>p e. find_entry_by_name st n = Some p \<and> load_entry st p = Inr (YMap e)
                             \<and> map_of e ''name'' \<noteq> None) names"
  shows "\<exists>st' msgs. mark_reviewed_main st now names days = (st', msgs @ [Successfully_marked (length names)], Exit 0)
    \<and> list_all (\<lambda>n. \<exists>p e. find_entry_by_name st n = Some p \<and> load_entry st' p = Inr (YMap e)
                        \<and> dict_get e ''last_reviewed'' = YStr (isoformat now)) names"
proof -
  obtain st' ms msgs' where r: "mark_names st now names [] [] [] = (None, st', ms, [], msgs')"
    and len: "length ms = length names"
    and fin: "list_all (\<lambda>n. \<exists>p e. find_entry_by_name st n = Some p \<and> load_entry st' p = Inr (YMap e)
                        \<and> dict_get e ''last_reviewed'' = YStr (isoformat now)) names"
    using mark_names_found [OF assms(2), where now = now and ds = "[]" and marked = "[]" and nf = "[]" and msgs = "[]"] by auto
  have "ms \<noteq> []" using len assms(1) by auto
  then have "mark_reviewed_main st now names days = (st', msgs' @ [Successfully_marked (length names)], Exit 0)"
    using assms(1) r len by (simp add: mark_reviewed_main_def)
  then show ?thesis using fin by blast
qed

subsection \<open>Relations kept by a run\<close>

text \<open>A relation between stores that holds across one successful
  \<^verbatim>\<open>mark_as_reviewed\<close> and is reflexive and transitive holds between the store
  before and the store after a whole run, crashed or not (after the
  invariant-lifting lemma of the Unix file-system model).\<close>

lemma mark_names_rel:
  assumes step: "\<And>s t p s1 v. mark_as_reviewed s t p = Inr (s1, v) \<Longrightarrow> R s s1"
    and refl: "\<And>s. R s s" and trans: "\<And>a b c. R a b \<Longrightarrow> R b c \<Longrightarrow> R a c"
  shows "mark_names st now ns marked nf msgs = (r, st', rest) \<Longrightarrow> R st st'"
proof (induction st now ns marked nf msgs arbitrary: r st' rest rule: mark_names.induct)
  case (1 st now marked nf msgs)
  then show ?case using refl by simp
next
  case (2 st now' n ns marked nf msgs)
  show ?case
  proof (cases "find_entry_by_name st n")
    case None
    then show ?thesis using 2 by simp
  next
    case (Some p)
    show ?thesis
    proof (cases "mark_as_reviewed st now' p")
      case (Inl x)
      then show ?thesis using "2.prems" Some refl by simp
    next
      case (Inr sv)
      obtain st1 v where sv: "sv = (st1, v)" by (cases sv)
      show ?thesis
      proof (cases "get_item v ''name''")
        case (Inl x)
        then show ?thesis using "2.prems" Some Inr sv step by simp
      next
        case nm: (Inr nm)
        have "mark_names st1 now' ns (marked @ [(p, nm)]) nf (msgs @ [Marked_as_reviewed nm p]) = (r, st', rest)"
          using "2.prems" Some Inr sv nm by simp
        from "2.IH"(2) [OF Some Inr sv [symmetric] nm this] have "R st1 st'" .
        moreover have "R st st1" using Inr sv step by simp
        ultimately show ?thesis using trans by blast
      qed
    qed
  qed
qed

lemma mark_paths_rel:
  assumes step: "\<And>s t p s1 v. mark_as_reviewed s t p = Inr (s1, v) \<Longrightarrow> R s s1"
    and refl: "\<And>s. R s s" and trans: "\<And>a b c. R a b \<Longrightarrow> R b c \<Longrightarrow> R a c"
  shows "mark_paths st now ps marked msgs = (r, st', rest) \<Longrightarrow> R st st'"
proof (induction st now ps marked msgs arbitrary: r st' rest rule: mark_paths.induct)
  case (1 st now marked msgs)
  then show ?case using refl by simp
next
  case (2 st now' p ps marked msgs)
  show ?case
  proof (cases "mark_as_reviewed st now' p")
    case (Inl x)
    then show ?thesis using "2.prems" refl by simp
  next
    case (Inr sv)
    obtain st1 v where sv: "sv = (st1, v)" by (cases sv)
    show ?thesis
    proof (cases "get_item v ''name''")
      case (Inl x)
      then show ?thesis using "2.prems" Inr sv step by simp
    next
      case nm: (Inr nm)
      have "mark_paths st1 now' ps (marked @ [nm]) (msgs @ [Tick nm]) = (r, st', rest)"
        using "2.prems" Inr sv nm by simp
      from "2.IH" [OF Inr sv [symmetric] nm this] have "R st1 st'" .
      moreover have "R st st1" using Inr sv step by simp
      ultimately show ?thesis using trans by blast
    qed
  qed
qed

lemma mark_reviewed_main_rel:
  assumes step: "\<And>s t p s1 v. mark_as_reviewed s t p = Inr (s1, v) \<Longrightarrow> R s s1"
    and refl: "\<And>s. R s s" and trans: "\<And>a b c. R a b \<Longrightarrow> R b c \<Longrightarrow> R a c"
  shows "R st (fst (mark_reviewed_main st now names days))"
proof (cases "names = []")
  case False
  obtain r st' rest where m: "mark_names st now names [] [] [] = (r, st', rest)"
    by (cases "mark_names st now names [] [] []") auto
  have "fst (mark_reviewed_main st now names days) = st'"
    using False m by (auto simp: mark_reviewed_main_def split: option.splits prod.splits)
  then show ?thesis using mark_names_rel [where R = R, OF step refl trans m] by simp
next
  case True
  obtain due msgs where c: "collect_due_paths st now days (get_all_entries st) [] [] = (due, msgs)"
    by (cases "collect_due_paths st now days (get_all_entries st) [] []")
  obtain r st' rest where m: "mark_paths st now due [] (msgs @ [Found_due (length due)]) = (r, st', rest)"
    by (cases "mark_paths st now due [] (msgs @ [Found_due (length due)])") auto
  have "fst (mark_reviewed_main st now names days) = (if due = [] then st else st')"
    using True c m by (auto simp: mark_reviewed_main_def split: option.splits prod.splits)
  then show ?thesis using mark_paths_rel [where R = R, OF step refl trans m] refl by simp
qed

lemma mark_as_reviewed_keeps:
  "mark_as_reviewed st now p = Inr (st1, v) \<Longrightarrow> keeps_records st st1"
  using marked_record_step unfolding keeps_records_def by blast

lemma mark_reviewed_main_keeps: "keeps_records st (fst (mark_reviewed_main st now names days))"
  by (rule mark_reviewed_main_rel [where R = keeps_records])
     (fact mark_as_reviewed_keeps keeps_records_refl keeps_records_trans)+

subsection \<open>Witnesses of the marking properties\<close>

lemma mark_keeps_status_witness:
  "\<exists>st' e'. mark_as_reviewed sample_store (sample_dt 1) (''idioms'', ''spill-the-beans.yaml'') = Inr (st', YMap e')
     \<and> get_entry_status e' = ''promoted (reviewed)''"
proof -
  obtain st' where m: "mark_as_reviewed sample_store (sample_dt 1) (''idioms'', ''spill-the-beans.yaml'') =
      Inr (st', reviewed (sample_dt 1) (YMap (sample_idiom YNone)))"
    using mark_as_reviewed_dict [OF sample_spill_load] by metis
  show ?thesis using mark_keeps_status [OF m] m sample_spill_load sample_idiom_promoted by auto
qed

lemma mark_named_entries_witness:
  "\<exists>st' msgs e. mark_reviewed_main sample_store (sample_dt 1) [''ice'', ''spill the beans''] 7 =
        (st', msgs @ [Successfully_marked 2], Exit 0)
     \<and> load_entry st' (''words'', ''ice.yaml'') = Inr (YMap e)
     \<and> dict_get e ''last_reviewed'' = YStr (isoformat (sample_dt 1))"
proof -
  have f1: "find_entry_by_name sample_store ''ice'' = Some (''words'', ''ice.yaml'')" by code_simp
  have f2: "find_entry_by_name sample_store ''spill the beans'' = Some (''idioms'', ''spill-the-beans.yaml'')"
    by code_simp
  have l1: "load_entry sample_store (''words'', ''ice.yaml'') = Inr (YMap [(''name'', YStr ''ice''), (''type'', YStr ''word'')])"
    by (simp add: load_entry_def read_file_def listing_of_def sample_store_def)
  have "list_all (\<lambda>n. \<exists>p e. find_entry_by_name sample_store n = Some p \<and> load_entry sample_store p = Inr (YMap e)
                          \<and> map_of e ''name'' \<noteq> None) [''ice'', ''spill the beans'']"
    using f1 f2 l1 sample_spill_load by (simp add: sample_idiom_def)
  from mark_named_entries [OF _ this, of "sample_dt 1" 7] show ?thesis using f1 by auto
qed

end
