(* ===== verification/Review.thy ===== *)
theory Review
  imports MarkReviewed
begin

text \<open>
  The read-only presentation path, \<^verbatim>\<open>src/review.py\<close>: \<^verbatim>\<open>display_entry\<close>
  (what is printed for one entry, per category) and \<^verbatim>\<open>main\<close> (the due
  selection with its exception handler, the display limit with Python slice
  semantics, and the display loop). The output is a list of messages; the store is
  an argument only, so the path cannot change it. The lemmas show that the
  selection is the one of the batch mode of \<^verbatim>\<open>mark_reviewed.py\<close>, that the
  command shows the first \<open>limit\<close> due entries and never crashes, and what a
  zero or negative limit does.
\<close>

text \<open>One printed line of \<^verbatim>\<open>display_entry\<close>: the header (index, total, name,
  file, type), a labelled field, or a numbered example.\<close>

datatype rv_line =
    Header nat nat yval path yval
  | Field string yval
  | Example nat yval

text \<open>What \<^verbatim>\<open>review.py\<close> prints besides the entries.\<close>

datatype rv_msg =
    No_entries_found
  | Rv_could_not_load path pyexc
  | Rv_no_entries_due int
  | Rv_found_due nat
  | Rv_line rv_line
  | Rv_guidance

text \<open>Iterating over a loaded value (\<^verbatim>\<open>for x in v\<close>): the items of a list, the
  characters of a string, the keys of a mapping; anything else is not iterable.\<close>

fun py_iter :: "yval \<Rightarrow> pyexc + yval list" where
  "py_iter (YList xs) = Inr xs"
| "py_iter (YStr s) = Inr (map (\<lambda>c. YStr [c]) s)"
| "py_iter (YMap m) = Inr (map (\<lambda>kv. YStr (fst kv)) m)"
| "py_iter _ = Inl TypeError"

text \<open>\<^verbatim>\<open>for i, example in enumerate(entry.get('examples', []), 1)\<close>.\<close>

definition example_lines :: "entry \<Rightarrow> pyexc + rv_line list" where
  "example_lines e =
     (case py_iter (dict_get_default e ''examples'' (YList [])) of
        Inl x \<Rightarrow> Inl x
      | Inr xs \<Rightarrow> Inr (map (\<lambda>(i, x). Example i x) (zip [1..<length xs + 1] xs)))"

text \<open>\<^verbatim>\<open>display_entry(filepath, entry, index, total)\<close>.\<close>

definition display_entry :: "path \<Rightarrow> entry \<Rightarrow> nat \<Rightarrow> nat \<Rightarrow> pyexc + rv_line list" where
  "display_entry p e i n =
     (case dict_index e ''name'' of
        Inl x \<Rightarrow> Inl x
      | Inr nm \<Rightarrow>
          (let hd = [Header i n nm p (dict_get_default e ''type'' (YStr ''unknown''))];
               t = dict_get e ''type'';
               na = YStr ''N/A'' in
           if t = YStr ''word'' then
             (case example_lines e of
                Inl x \<Rightarrow> Inl x
              | Inr ex \<Rightarrow> Inr (hd @ [Field ''Part of Speech'' (dict_get_default e ''part_of_speech'' na),
                                     Field ''Meaning'' (dict_get_default e ''meaning'' na)] @ ex))
           else if t = YStr ''idiom'' then
             (case example_lines e of
                Inl x \<Rightarrow> Inl x
              | Inr ex \<Rightarrow> Inr (hd @ [Field ''Meaning'' (dict_get_default e ''meaning'' na)] @ ex))
           else if t = YStr ''terminology'' then
             Inr (hd @ [Field ''Context'' (dict_get_default e ''context'' na),
                        Field ''Meaning'' (dict_get_default e ''meaning'' na),
                        Field ''Example'' (dict_get_default e ''example'' na)])
           else Inr hd))"

text \<open>The selection loop of \<^verbatim>\<open>main\<close>: the due entries with their records; a
  load failure or an exception of \<^verbatim>\<open>is_due_for_review\<close> is caught and
  reported.\<close>

fun collect_due_entries ::
  "store \<Rightarrow> datetime \<Rightarrow> int \<Rightarrow> path list \<Rightarrow> (path \<times> entry) list \<Rightarrow> rv_msg list
   \<Rightarrow> (path \<times> entry) list \<times> rv_msg list" where
  "collect_due_entries st now days [] due msgs = (due, msgs)"
| "collect_due_entries st now days (p # ps) due msgs =
     (case load_entry st p of
        Inl x \<Rightarrow> collect_due_entries st now days ps due (msgs @ [Rv_could_not_load p x])
      | Inr v \<Rightarrow>
          (case as_dict v of
             Inl x \<Rightarrow> collect_due_entries st now days ps due (msgs @ [Rv_could_not_load p x])
           | Inr e \<Rightarrow>
               (case is_due_for_review now e days of
                  Inl x \<Rightarrow> collect_due_entries st now days ps due (msgs @ [Rv_could_not_load p x])
                | Inr b \<Rightarrow> collect_due_entries st now days ps (if b then due @ [(p, e)] else due) msgs)))"

text \<open>\<^verbatim>\<open>xs[:limit]\<close> for an integer \<open>limit\<close>: a negative limit counts from the end.\<close>

definition py_prefix :: "int \<Rightarrow> 'a list \<Rightarrow> 'a list" where
  "py_prefix l xs = (if 0 \<le> l then take (nat l) xs else take (length xs - nat (- l)) xs)"

text \<open>The display loop \<^verbatim>\<open>for index, (filepath, entry) in enumerate(due_entries, 1)\<close>:
  the lines printed, and the exception that ends it, if any.\<close>

fun display_all :: "(path \<times> entry) list \<Rightarrow> nat \<Rightarrow> nat \<Rightarrow> rv_line list \<times> pyexc option" where
  "display_all [] i n = ([], None)"
| "display_all ((p, e) # es) i n =
     (case display_entry p e i n of
        Inl x \<Rightarrow> ([], Some x)
      | Inr ls \<Rightarrow> (let (rest, r) = display_all es (Suc i) n in (ls @ rest, r)))"

text \<open>\<^verbatim>\<open>review.main\<close> with its parsed arguments \<^verbatim>\<open>--days\<close>, \<^verbatim>\<open>--limit\<close> and
  \<^verbatim>\<open>--all\<close>.\<close>

definition review_main :: "store \<Rightarrow> datetime \<Rightarrow> int \<Rightarrow> int \<Rightarrow> bool \<Rightarrow> rv_msg list \<times> outcome" where
  "review_main st now days limit show_all =
     (let ps = get_all_entries st in
      if ps = [] then ([No_entries_found], Exit 0)
      else
        (let (due0, msgs) = collect_due_entries st now days ps [] [];
             due = (if \<not> show_all \<and> int (length due0) > limit then py_prefix limit due0 else due0)
         in if due = [] then (msgs @ [Rv_no_entries_due days], Exit 0)
            else
              (case display_all due 1 (length due) of
                 (ls, Some x) \<Rightarrow> (msgs @ [Rv_found_due (length due)] @ map Rv_line ls, Crash x)
               | (ls, None) \<Rightarrow>
                   (msgs @ [Rv_found_due (length due)] @ map Rv_line ls @ [Rv_guidance], Exit 0))))"

text \<open>The files whose entries were shown, in the order shown.\<close>

fun shown :: "rv_msg list \<Rightarrow> path list" where
  "shown [] = []"
| "shown (Rv_line (Header _ _ _ p _) # ms) = p # shown ms"
| "shown (_ # ms) = shown ms"

text \<open>A due file with the record the selection loop keeps for it.\<close>

definition due_record :: "store \<Rightarrow> path \<Rightarrow> path \<times> entry" where
  "due_record st p = (p, case load_entry st p of Inr (YMap e) \<Rightarrow> e | _ \<Rightarrow> [])"

text \<open>A complete word record, used by the witnesses.\<close>

definition sample_word :: entry where
  "sample_word = [(''name'', YStr ''ice''), (''type'', YStr ''word''), (''part_of_speech'', YStr ''noun''),
                  (''meaning'', YStr ''frozen water''),
                  (''examples'', YList [YStr ''Ice melts.'', YStr ''Break the ice.''])]"

declare example_lines_def [vocab_defs] display_entry_def [vocab_defs] py_prefix_def [vocab_defs]
  review_main_def [vocab_defs]

subsection \<open>Lemmas\<close>

lemma collect_due_entries_fst:
  "fst (collect_due_entries st now days ps due msgs) =
     due @ map (\<lambda>p. (p, case load_entry st p of Inr (YMap e) \<Rightarrow> e | _ \<Rightarrow> []))
              (filter (due_at st now days) ps)"
proof (induction ps arbitrary: due msgs)
  case Nil
  then show ?case by simp
next
  case (Cons p ps)
  show ?case
  proof (cases "load_entry st p")
    case (Inl x)
    then show ?thesis using Cons.IH by (simp add: due_at_def)
  next
    case (Inr v)
    then show ?thesis
    proof (cases v)
      case (YMap e)
      with Inr show ?thesis using Cons.IH
        by (cases "is_due_for_review now e days") (auto simp: due_at_def as_dict_def)
    qed (use Cons.IH in \<open>simp_all add: due_at_def as_dict_def\<close>)
  qed
qed

lemma shown_append [simp]: "shown (xs @ ys) = shown xs @ shown ys"
  by (induction xs rule: shown.induct) auto

lemma shown_examples [simp]:
  "shown (map (Rv_line \<circ> (\<lambda>(i, x). Example i x)) zs) = []"
  by (induction zs) auto

lemma shown_collect_due_entries:
  "shown (snd (collect_due_entries st now days ps due msgs)) = shown msgs"
  by (induction ps arbitrary: due msgs) (auto split: sum.splits)

lemma is_promoted_type:
  "is_promoted e \<Longrightarrow>
     dict_get e ''type'' = YStr ''word'' \<or> dict_get e ''type'' = YStr ''idiom''
     \<or> dict_get e ''type'' = YStr ''terminology''"
  by (auto simp: is_promoted_def Let_def split: if_splits)

lemma is_promoted_examples:
  "is_promoted e \<Longrightarrow> dict_get e ''type'' = YStr ''word'' \<or> dict_get e ''type'' = YStr ''idiom''
   \<Longrightarrow> nonempty_list (dict_get e ''examples'')"
  by (auto simp: promoted_simps Let_def)

lemma dict_get_default_present: "dict_get e k \<noteq> YNone \<Longrightarrow> dict_get_default e k d = dict_get e k"
  by (simp add: dict_get_def dict_get_default_def split: option.splits)

lemma example_lines_list:
  "dict_get e ''examples'' = YList xs \<Longrightarrow>
     example_lines e = Inr (map (\<lambda>(i, x). Example i x) (zip [1..<length xs + 1] xs))"
  by (simp add: example_lines_def dict_get_default_present)

lemma display_entry_promoted:
  assumes "is_promoted e"
  shows "\<exists>ls. display_entry p e i n =
           Inr (Header i n (dict_get e ''name'') p (dict_get e ''type'') # ls)
         \<and> shown (map Rv_line ls) = []"
proof -
  obtain v where nm: "map_of e ''name'' = Some v" using is_promoted_has_name [OF assms] by blast
  have ty: "dict_get e ''type'' \<noteq> YNone" using is_promoted_type [OF assms] by auto
  have n: "dict_index e ''name'' = Inr (dict_get e ''name'')" using nm by (simp add: dict_index_def dict_get_def)
  have hd: "dict_get_default e ''type'' (YStr ''unknown'') = dict_get e ''type''"
    using ty by (rule dict_get_default_present)
  consider "dict_get e ''type'' = YStr ''word'' \<or> dict_get e ''type'' = YStr ''idiom''"
    | "dict_get e ''type'' = YStr ''terminology''"
    using is_promoted_type [OF assms] by blast
  then show ?thesis
  proof cases
    case 1
    then obtain xs where "dict_get e ''examples'' = YList xs"
      using is_promoted_examples [OF assms] by (cases "dict_get e ''examples''") (auto simp: nonempty_list_def)
    then have "example_lines e = Inr (map (\<lambda>(i, x). Example i x) (zip [1..<length xs + 1] xs))"
      by (rule example_lines_list)
    then show ?thesis using 1 n hd by (auto simp: display_entry_def Let_def)
  next
    case 2
    then show ?thesis using n hd by (simp add: display_entry_def Let_def)
  qed
qed

lemma display_all_promoted:
  assumes "list_all (\<lambda>pe. is_promoted (snd pe)) es"
  shows "snd (display_all es i n) = None \<and> shown (map Rv_line (fst (display_all es i n))) = map fst es"
  using assms
proof (induction es arbitrary: i)
  case Nil
  then show ?case by simp
next
  case (Cons pe es)
  obtain p e where pe: "pe = (p, e)" by (cases pe)
  have pr: "is_promoted e" using Cons.prems pe by simp
  obtain ls where d: "display_entry p e i n =
      Inr (Header i n (dict_get e ''name'') p (dict_get e ''type'') # ls)" and s: "shown (map Rv_line ls) = []"
    using display_entry_promoted [OF pr] by blast
  have ih: "snd (display_all es (Suc i) n) = None \<and> shown (map Rv_line (fst (display_all es (Suc i) n))) = map fst es"
    using Cons.IH Cons.prems by simp
  show ?case using d s ih pe by (auto split: prod.splits)
qed

lemma py_prefix_short: "int (length xs) \<le> l \<Longrightarrow> py_prefix l xs = xs"
  by (auto simp: py_prefix_def)

lemma py_prefix_map: "py_prefix l (map f xs) = map f (py_prefix l xs)"
  by (simp add: py_prefix_def take_map)

lemma py_prefix_Nil [simp]: "py_prefix l [] = []"
  by (simp add: py_prefix_def)

lemma set_py_prefix: "set (py_prefix l xs) \<subseteq> set xs"
  by (auto simp: py_prefix_def dest: in_set_takeD)

lemma due_records_promoted:
  "list_all (\<lambda>pe. is_promoted (snd pe)) (map (due_record st) (filter (due_at st now days) ps))"
  by (auto simp: list_all_iff due_record_def dest!: due_at_loads)

lemma review_selection:
  obtains msgs0 where
    "collect_due_entries st now days ps [] [] = (map (due_record st) (filter (due_at st now days) ps), msgs0)"
    and "shown msgs0 = []"
proof -
  obtain due0 msgs0 where c: "collect_due_entries st now days ps [] [] = (due0, msgs0)"
    by (cases "collect_due_entries st now days ps [] []")
  have "due0 = map (due_record st) (filter (due_at st now days) ps)"
    using collect_due_entries_fst [of st now days ps "[]" "[]"] c by (simp add: due_record_def)
  moreover have "shown msgs0 = []" using shown_collect_due_entries [of st now days ps "[]" "[]"] c by simp
  ultimately show ?thesis using c that by blast
qed

lemma review_main_shown:
  assumes "review_main st now days limit show_all = (msgs, out)"
  shows "out = Exit 0 \<and> shown msgs =
    (if show_all then filter (due_at st now days) (get_all_entries st)
     else py_prefix limit (filter (due_at st now days) (get_all_entries st)))"
proof (cases "get_all_entries st = []")
  case True
  then have "msgs = [No_entries_found]" and "out = Exit 0" using assms by (auto simp: review_main_def)
  then show ?thesis using True by simp
next
  case False
  define D where "D = filter (due_at st now days) (get_all_entries st)"
  define sel where "sel = (if show_all then map (due_record st) D else py_prefix limit (map (due_record st) D))"
  obtain msgs0 where c: "collect_due_entries st now days (get_all_entries st) [] [] = (map (due_record st) D, msgs0)"
    and s0: "shown msgs0 = []"
    using review_selection unfolding D_def by blast
  have sel_eq: "(if \<not> show_all \<and> int (length (map (due_record st) D)) > limit
                 then py_prefix limit (map (due_record st) D) else map (due_record st) D) = sel"
    by (auto simp: sel_def py_prefix_short)
  have fs: "map fst sel = (if show_all then D else py_prefix limit D)"
    by (simp add: sel_def py_prefix_map [symmetric] due_record_def comp_def)
  have all: "list_all (\<lambda>pe. is_promoted (snd pe)) (map (due_record st) D)"
    using due_records_promoted unfolding D_def .
  have "set sel \<subseteq> set (map (due_record st) D)"
    unfolding sel_def using set_py_prefix [of limit "map (due_record st) D"] by (cases show_all) auto
  then have pr: "list_all (\<lambda>pe. is_promoted (snd pe)) sel"
    using all by (auto simp: list_all_iff)
  have r: "review_main st now days limit show_all =
     (if sel = [] then (msgs0 @ [Rv_no_entries_due days], Exit 0)
      else (case display_all sel 1 (length sel) of
              (ls, Some x) \<Rightarrow> (msgs0 @ Rv_found_due (length sel) # map Rv_line ls, Crash x)
            | (ls, None) \<Rightarrow> (msgs0 @ Rv_found_due (length sel) # map Rv_line ls @ [Rv_guidance], Exit 0)))"
    using False c sel_eq by (simp add: review_main_def Let_def)
  show ?thesis
  proof (cases "sel = []")
    case True
    then show ?thesis using assms r s0 fs by (auto simp: D_def)
  next
    case nonempty: False
    obtain ls where d: "display_all sel 1 (length sel) = (ls, None)" and sl: "shown (map Rv_line ls) = map fst sel"
      using display_all_promoted [OF pr, of 1 "length sel"] by (cases "display_all sel 1 (length sel)") auto
    show ?thesis using assms r nonempty d sl s0 fs by (auto simp: D_def)
  qed
qed

lemma is_promoted_word_fields:
  assumes "is_promoted e" and "dict_get e ''type'' = YStr ''word''"
  shows "dict_get e ''part_of_speech'' \<noteq> YNone \<and> dict_get e ''meaning'' \<noteq> YNone"
  using assms by (auto simp: promoted_simps Let_def present_def)

text \<open>C29: With a non-negative \<^verbatim>\<open>--limit\<close>, \<^verbatim>\<open>review.py\<close> shows the first
  \<open>limit\<close> due entries in the order of \<^verbatim>\<open>get_all_entries\<close> (all of them with
  \<^verbatim>\<open>--all\<close>), one header per entry, and exits 0.\<close>

theorem review_shows_due:
  assumes "review_main st now days limit show_all = (msgs, out)" and "0 \<le> limit"
  shows "out = Exit 0 \<and> shown msgs =
    (if show_all then filter (due_at st now days) (get_all_entries st)
     else take (nat limit) (filter (due_at st now days) (get_all_entries st)))"
  using review_main_shown [OF assms(1)] assms(2) by (simp add: py_prefix_def)

text \<open>C30: The review path and the batch mode of \<^verbatim>\<open>mark_reviewed.py\<close> select
  the same files, in the same order: what the review shows (without a limit) is
  what a batch run marks.\<close>

theorem review_selection_eq_batch:
  "map fst (fst (collect_due_entries st now days ps [] [])) = fst (collect_due_paths st now days ps [] [])"
  by (simp add: collect_due_entries_fst collect_due_paths_fst comp_def)

text \<open>C31: \<^verbatim>\<open>review.py\<close> always exits 0: every entry it displays is promoted,
  so it has a \<^verbatim>\<open>name\<close> and, for words and idioms, a list of examples, and the
  display raises nothing.\<close>

theorem review_never_crashes: "snd (review_main st now days limit show_all) = Exit 0"
  using review_main_shown [of st now days limit show_all "fst (review_main st now days limit show_all)"]
  by simp

text \<open>C32: \<^verbatim>\<open>--limit 0\<close> truncates the due list to nothing, and the command then
  reports that no entries are due, even when some are.\<close>

theorem review_limit_zero:
  assumes "get_all_entries st \<noteq> []"
  shows "\<exists>msgs0. review_main st now days 0 False = (msgs0 @ [Rv_no_entries_due days], Exit 0)"
proof -
  obtain msgs0 where c: "collect_due_entries st now days (get_all_entries st) [] [] =
      (map (due_record st) (filter (due_at st now days) (get_all_entries st)), msgs0)"
    using review_selection by blast
  then show ?thesis using assms by (simp add: review_main_def py_prefix_def Let_def)
qed

text \<open>C33: A negative \<^verbatim>\<open>--limit\<close> \<open>-k\<close> is not rejected: it is a Python slice
  bound, and the command shows all due entries but the last \<open>k\<close>.\<close>

theorem review_negative_limit:
  assumes "review_main st now days limit False = (msgs, out)" and "limit < 0"
  shows "shown msgs = take (length (filter (due_at st now days) (get_all_entries st)) - nat (- limit))
                           (filter (due_at st now days) (get_all_entries st))"
  using review_main_shown [OF assms(1)] assms(2) by (simp add: py_prefix_def)

text \<open>C34: For a promoted word, \<^verbatim>\<open>display_entry\<close> prints the header with the
  index, the total, the name, the file and the type, then the part of speech, the
  meaning, and the examples numbered from 1 in their order.\<close>

theorem display_word:
  assumes "is_promoted e" and "dict_get e ''type'' = YStr ''word''"
    and "dict_get e ''examples'' = YList xs"
  shows "display_entry p e i n =
    Inr ([Header i n (dict_get e ''name'') p (YStr ''word''),
          Field ''Part of Speech'' (dict_get e ''part_of_speech''),
          Field ''Meaning'' (dict_get e ''meaning'')]
         @ map (\<lambda>(k, x). Example k x) (zip [1..<length xs + 1] xs))"
proof -
  obtain v where nm: "map_of e ''name'' = Some v" using is_promoted_has_name [OF assms(1)] by blast
  have n: "dict_index e ''name'' = Inr (dict_get e ''name'')" using nm by (simp add: dict_index_def dict_get_def)
  have f: "dict_get e ''part_of_speech'' \<noteq> YNone" "dict_get e ''meaning'' \<noteq> YNone"
    using is_promoted_word_fields [OF assms(1,2)] by auto
  show ?thesis
    using n f assms(2) example_lines_list [OF assms(3)]
    by (simp add: display_entry_def Let_def dict_get_default_present)
qed

subsection \<open>Witnesses\<close>

lemma sample_store_entries:
  "get_all_entries sample_store = [(''words'', ''ice.yaml''), (''idioms'', ''spill-the-beans.yaml'')]"
  by code_simp

lemma sample_store_due_list:
  "filter (due_at sample_store (sample_dt 1) 7) (get_all_entries sample_store) = [(''idioms'', ''spill-the-beans.yaml'')]"
  using sample_store_due by (simp add: sample_store_entries)

lemma sample_store_nonempty: "get_all_entries sample_store \<noteq> []"
  using sample_store_due by auto

lemma review_shows_due_witness:
  "\<exists>msgs. review_main sample_store (sample_dt 1) 7 5 False = (msgs, Exit 0)
          \<and> shown msgs = [(''idioms'', ''spill-the-beans.yaml'')]"
proof -
  obtain msgs out where r: "review_main sample_store (sample_dt 1) 7 5 False = (msgs, out)"
    by (cases "review_main sample_store (sample_dt 1) 7 5 False")
  show ?thesis using review_shows_due [OF r] r sample_store_due_list by simp
qed

lemma review_limit_zero_witness:
  "filter (due_at sample_store (sample_dt 1) 7) (get_all_entries sample_store) \<noteq> []
   \<and> (\<exists>msgs0. review_main sample_store (sample_dt 1) 7 0 False = (msgs0 @ [Rv_no_entries_due 7], Exit 0))"
  using review_limit_zero [OF sample_store_nonempty] sample_store_due_list by simp

lemma review_negative_limit_witness:
  "\<exists>msgs out. review_main sample_store (sample_dt 1) 7 (-1) False = (msgs, out) \<and> shown msgs = []
     \<and> filter (due_at sample_store (sample_dt 1) 7) (get_all_entries sample_store) \<noteq> []"
proof -
  obtain msgs out where r: "review_main sample_store (sample_dt 1) 7 (-1) False = (msgs, out)"
    by (cases "review_main sample_store (sample_dt 1) 7 (-1) False")
  show ?thesis using review_negative_limit [OF r] r sample_store_due_list by simp
qed

lemma display_word_witness:
  "display_entry (''words'', ''ice.yaml'') sample_word 1 2 =
     Inr [Header 1 2 (YStr ''ice'') (''words'', ''ice.yaml'') (YStr ''word''),
          Field ''Part of Speech'' (YStr ''noun''), Field ''Meaning'' (YStr ''frozen water''),
          Example 1 (YStr ''Ice melts.''), Example 2 (YStr ''Break the ice.'')]"
proof -
  have p: "is_promoted sample_word"
    by (simp add: sample_word_def promoted_simps present_def dict_get_def nonempty_list_def)
  have t: "dict_get sample_word ''type'' = YStr ''word''" by (simp add: sample_word_def dict_get_def)
  have x: "dict_get sample_word ''examples'' = YList [YStr ''Ice melts.'', YStr ''Break the ice.'']"
    by (simp add: sample_word_def dict_get_def)
  show ?thesis using display_word [OF p t x, of "(''words'', ''ice.yaml'')" 1 2]
    by (simp add: sample_word_def dict_get_def upt_rec)
qed

end
