(* ===== verification/Status.thy ===== *)
theory Status
  imports Review
begin

text \<open>
  The status report, \<^verbatim>\<open>src/status.py\<close>: \<^verbatim>\<open>format_date\<close>, the classification
  loop of \<^verbatim>\<open>main\<close> (type filter, then due, promoted, stub in that order, with
  its exception handler), the list of missing fields printed for a stub, the
  three sections with the \<^verbatim>\<open>--status\<close> filter, and the closing summary. The
  lemmas show that the buckets partition the files that load, what a fresh stub
  is reported to miss, which records make the report crash, and that the report
  restricted to due or promoted entries never does.
\<close>

text \<open>What \<^verbatim>\<open>format_date\<close> returns: \<^verbatim>\<open>'Never'\<close>, the date part
  \<^verbatim>\<open>%Y-%m-%d\<close> of a parsed timestamp, or \<^verbatim>\<open>str(date_str)\<close> of any value the
  parser refuses.\<close>

datatype fdate = FNever | FYmd nat nat nat | FRaw yval

definition format_date :: "yval \<Rightarrow> fdate" where
  "format_date v =
     (case v of
        YNone \<Rightarrow> FNever
      | YStr s \<Rightarrow> (case fromisoformat s of Inl _ \<Rightarrow> FRaw v | Inr dt \<Rightarrow> FYmd (year dt) (month dt) (day dt))
      | _ \<Rightarrow> FRaw v)"

text \<open>What \<^verbatim>\<open>status.py\<close> prints.\<close>

datatype st_msg =
    St_no_entries
  | St_could_not_load path pyexc
  | St_total nat int
  | St_stubs nat
  | St_stub_line yval yval path "string list"
  | St_due nat
  | St_promoted nat
  | St_dated_line yval yval fdate
  | St_none
  | St_next_edit nat
  | St_next_review nat
  | St_all_up_to_date

text \<open>The bucket a file goes to.\<close>

datatype bucket = BStub | BPromoted | BDue

text \<open>The classification loop: the three lists \<^verbatim>\<open>stubs\<close>,
  \<^verbatim>\<open>promoted_entries\<close>, \<^verbatim>\<open>due_for_review\<close> and the warnings. A record that is
  no mapping fails at \<^verbatim>\<open>entry.get\<close> (in the type filter, or inside
  \<^verbatim>\<open>is_due_for_review\<close>) and is reported like a file that does not load.\<close>

fun classify ::
  "store \<Rightarrow> datetime \<Rightarrow> int \<Rightarrow> string option \<Rightarrow> path list
   \<Rightarrow> (path \<times> entry) list \<Rightarrow> (path \<times> entry) list \<Rightarrow> (path \<times> entry) list \<Rightarrow> st_msg list
   \<Rightarrow> (path \<times> entry) list \<times> (path \<times> entry) list \<times> (path \<times> entry) list \<times> st_msg list" where
  "classify st now days tyf [] s p d msgs = (s, p, d, msgs)"
| "classify st now days tyf (q # qs) s p d msgs =
     (case load_entry st q of
        Inl x \<Rightarrow> classify st now days tyf qs s p d (msgs @ [St_could_not_load q x])
      | Inr v \<Rightarrow>
          (case as_dict v of
             Inl x \<Rightarrow> classify st now days tyf qs s p d (msgs @ [St_could_not_load q x])
           | Inr e \<Rightarrow>
               (if tyf \<noteq> None \<and> dict_get e ''type'' \<noteq> opt_str tyf then classify st now days tyf qs s p d msgs
                else
                  (case is_due_for_review now e days of
                     Inl x \<Rightarrow> classify st now days tyf qs s p d (msgs @ [St_could_not_load q x])
                   | Inr True \<Rightarrow> classify st now days tyf qs s p (d @ [(q, e)]) msgs
                   | Inr False \<Rightarrow>
                       (if is_promoted e then classify st now days tyf qs s (p @ [(q, e)]) d msgs
                        else classify st now days tyf qs (s @ [(q, e)]) p d msgs)))))"

text \<open>\<^verbatim>\<open>if not entry.get(f): missing.append(f)\<close>.\<close>

definition missing_if_falsy :: "entry \<Rightarrow> string \<Rightarrow> string list" where
  "missing_if_falsy e f = (if py_truthy (dict_get e f) then [] else [f])"

text \<open>\<^verbatim>\<open>not entry.get('examples') or len(entry.get('examples', [])) == 0\<close>:
  \<^verbatim>\<open>len\<close> raises on a true value without a length.\<close>

definition examples_missing :: "entry \<Rightarrow> pyexc + bool" where
  "examples_missing e =
     (if \<not> py_truthy (dict_get e ''examples'') then Inr True
      else (case py_len (dict_get_default e ''examples'' (YList [])) of
              Inl x \<Rightarrow> Inl x
            | Inr n \<Rightarrow> Inr (n = 0)))"

text \<open>The list \<^verbatim>\<open>missing\<close> computed for a stub.\<close>

definition missing_fields :: "entry \<Rightarrow> pyexc + string list" where
  "missing_fields e =
     (let t = dict_get e ''type'' in
      if t = YStr ''word'' then
        (case examples_missing e of
           Inl x \<Rightarrow> Inl x
         | Inr b \<Rightarrow> Inr (missing_if_falsy e ''part_of_speech'' @ missing_if_falsy e ''meaning''
                         @ (if b then [''examples''] else [])))
      else if t = YStr ''idiom'' then
        (case examples_missing e of
           Inl x \<Rightarrow> Inl x
         | Inr b \<Rightarrow> Inr (missing_if_falsy e ''meaning'' @ (if b then [''examples''] else [])))
      else if t = YStr ''terminology'' then
        Inr (missing_if_falsy e ''context'' @ missing_if_falsy e ''meaning'' @ missing_if_falsy e ''example'')
      else Inr [])"

text \<open>The loop over the stubs: the lines printed, and the exception that ends
  it (from \<^verbatim>\<open>len\<close> or from \<^verbatim>\<open>entry['name']\<close>), if any.\<close>

fun show_stubs :: "(path \<times> entry) list \<Rightarrow> st_msg list \<times> pyexc option" where
  "show_stubs [] = ([], None)"
| "show_stubs ((q, e) # es) =
     (case missing_fields e of
        Inl x \<Rightarrow> ([], Some x)
      | Inr ms \<Rightarrow>
          (case dict_index e ''name'' of
             Inl x \<Rightarrow> ([], Some x)
           | Inr nm \<Rightarrow>
               (let (rest, r) = show_stubs es
                in (St_stub_line nm (dict_get_default e ''type'' (YStr ''unknown'')) q ms # rest, r))))"

text \<open>The loops over the due and the promoted entries.\<close>

fun show_dated :: "(path \<times> entry) list \<Rightarrow> st_msg list \<times> pyexc option" where
  "show_dated [] = ([], None)"
| "show_dated ((q, e) # es) =
     (case dict_index e ''name'' of
        Inl x \<Rightarrow> ([], Some x)
      | Inr nm \<Rightarrow>
          (let (rest, r) = show_dated es
           in (St_dated_line nm (dict_get_default e ''type'' (YStr ''unknown''))
                 (format_date (dict_get e ''last_reviewed'')) # rest, r)))"

text \<open>One section: printed when the \<^verbatim>\<open>--status\<close> filter allows it, with
  \<^verbatim>\<open>None\<close> for an empty bucket.\<close>

definition st_section ::
  "bool \<Rightarrow> st_msg \<Rightarrow> (path \<times> entry) list \<Rightarrow> st_msg list \<times> pyexc option \<Rightarrow> st_msg list \<times> pyexc option" where
  "st_section on hdr es body =
     (if \<not> on then ([], None)
      else if es = [] then ([hdr, St_none], None)
      else (case body of (ls, r) \<Rightarrow> (hdr # ls, r)))"

text \<open>The closing summary.\<close>

definition next_steps :: "(path \<times> entry) list \<Rightarrow> (path \<times> entry) list \<Rightarrow> st_msg list" where
  "next_steps s d =
     (if s \<noteq> [] then [St_next_edit (length s)] else [])
     @ (if d \<noteq> [] then [St_next_review (length d)] else [])
     @ (if s = [] \<and> d = [] then [St_all_up_to_date] else [])"

text \<open>\<^verbatim>\<open>status.main\<close> with its parsed arguments \<^verbatim>\<open>--days\<close>, \<^verbatim>\<open>--type\<close> and
  \<^verbatim>\<open>--status\<close>.\<close>

definition status_main ::
  "store \<Rightarrow> datetime \<Rightarrow> int \<Rightarrow> string option \<Rightarrow> string option \<Rightarrow> st_msg list \<times> outcome" where
  "status_main st now days tyf stf =
     (let ps = get_all_entries st in
      if ps = [] then ([St_no_entries], Exit 0)
      else
        (case classify st now days tyf ps [] [] [] [] of
           (s, p, d, msgs) \<Rightarrow>
             (let m0 = msgs @ [St_total (length s + length p + length d) days] in
              case st_section (stf = None \<or> stf = Some ''stub'') (St_stubs (length s)) s (show_stubs s) of
                (l1, Some x) \<Rightarrow> (m0 @ l1, Crash x)
              | (l1, None) \<Rightarrow>
                  (case st_section (stf = None \<or> stf = Some ''due'') (St_due (length d)) d (show_dated d) of
                     (l2, Some x) \<Rightarrow> (m0 @ l1 @ l2, Crash x)
                   | (l2, None) \<Rightarrow>
                       (case st_section (stf = None \<or> stf = Some ''promoted'') (St_promoted (length p)) p
                               (show_dated p) of
                          (l3, Some x) \<Rightarrow> (m0 @ l1 @ l2 @ l3, Crash x)
                        | (l3, None) \<Rightarrow> (m0 @ l1 @ l2 @ l3 @ next_steps s d, Exit 0))))))"

text \<open>The bucket of one file, read off the code's conditions: \<open>None\<close> when the
  file is skipped by the type filter or reported as not loadable.\<close>

definition bucket_of :: "store \<Rightarrow> datetime \<Rightarrow> int \<Rightarrow> string option \<Rightarrow> path \<Rightarrow> bucket option" where
  "bucket_of st now days tyf q =
     (case load_entry st q of
        Inr (YMap e) \<Rightarrow>
          (if tyf \<noteq> None \<and> dict_get e ''type'' \<noteq> opt_str tyf then None
           else (case is_due_for_review now e days of
                   Inr True \<Rightarrow> Some BDue
                 | Inr False \<Rightarrow> Some (if is_promoted e then BPromoted else BStub)
                 | Inl _ \<Rightarrow> None))
      | _ \<Rightarrow> None)"

text \<open>A word record whose examples are one string instead of a list.\<close>

definition string_examples_word :: entry where
  "string_examples_word =
     [(''name'', YStr ''ice''), (''type'', YStr ''word''), (''part_of_speech'', YStr ''noun''),
      (''meaning'', YStr ''frozen water''), (''examples'', YStr ''Break the ice.'')]"

declare format_date_def [vocab_defs] missing_if_falsy_def [vocab_defs] examples_missing_def [vocab_defs]
  missing_fields_def [vocab_defs] st_section_def [vocab_defs] next_steps_def [vocab_defs]
  status_main_def [vocab_defs]

subsection \<open>Lemmas\<close>

lemma due_record_load: "load_entry st q = Inr (YMap e) \<Longrightarrow> due_record st q = (q, e)"
  by (simp add: due_record_def)

lemma classify_Cons_kept:
  assumes "load_entry st q = Inr (YMap e)" and "\<not> (tyf \<noteq> None \<and> dict_get e ''type'' \<noteq> opt_str tyf)"
  shows "classify st now days tyf (q # qs) s p d msgs =
     (case is_due_for_review now e days of
        Inl x \<Rightarrow> classify st now days tyf qs s p d (msgs @ [St_could_not_load q x])
      | Inr True \<Rightarrow> classify st now days tyf qs s p (d @ [(q, e)]) msgs
      | Inr False \<Rightarrow>
          (if is_promoted e then classify st now days tyf qs s (p @ [(q, e)]) d msgs
           else classify st now days tyf qs (s @ [(q, e)]) p d msgs))"
  by (simp only: classify.simps(2) assms(1) as_dict_def sum.case yval.case if_not_P [OF assms(2)])

lemma classify_fst:
  "classify st now days tyf qs s p d msgs = (s', p', d', msgs') \<Longrightarrow>
     s' = s @ map (due_record st) (filter (\<lambda>q. bucket_of st now days tyf q = Some BStub) qs)
   \<and> p' = p @ map (due_record st) (filter (\<lambda>q. bucket_of st now days tyf q = Some BPromoted) qs)
   \<and> d' = d @ map (due_record st) (filter (\<lambda>q. bucket_of st now days tyf q = Some BDue) qs)"
proof (induction qs arbitrary: s p d msgs)
  case Nil
  then show ?case by simp
next
  case (Cons q qs)
  show ?case
  proof (cases "bucket_of st now days tyf q")
    case None
    then obtain m where "classify st now days tyf qs s p d m = (s', p', d', msgs')"
      using Cons.prems
      by (auto simp: bucket_of_def as_dict_def split: sum.splits yval.splits if_splits bool.splits)
    from Cons.IH [OF this] show ?thesis using None by simp
  next
    case (Some b)
    then obtain e where l: "load_entry st q = Inr (YMap e)"
      and f: "\<not> (tyf \<noteq> None \<and> dict_get e ''type'' \<noteq> opt_str tyf)"
      by (auto simp: bucket_of_def split: sum.splits yval.splits if_splits)
    show ?thesis
    proof (cases b)
      case BStub
      then have "is_due_for_review now e days = Inr False" "\<not> is_promoted e"
        using Some l f by (auto simp: bucket_of_def split: sum.splits bool.splits if_splits)
      then have "classify st now days tyf qs (s @ [(q, e)]) p d msgs = (s', p', d', msgs')"
        using Cons.prems classify_Cons_kept [OF l f] by simp
      from Cons.IH [OF this] show ?thesis using Some BStub due_record_load [OF l] by simp
    next
      case BPromoted
      then have "is_due_for_review now e days = Inr False" "is_promoted e"
        using Some l f by (auto simp: bucket_of_def split: sum.splits bool.splits if_splits)
      then have "classify st now days tyf qs s (p @ [(q, e)]) d msgs = (s', p', d', msgs')"
        using Cons.prems classify_Cons_kept [OF l f] by simp
      from Cons.IH [OF this] show ?thesis using Some BPromoted due_record_load [OF l] by simp
    next
      case BDue
      then have "is_due_for_review now e days = Inr True"
        using Some l f by (auto simp: bucket_of_def split: sum.splits bool.splits if_splits)
      then have "classify st now days tyf qs s p (d @ [(q, e)]) msgs = (s', p', d', msgs')"
        using Cons.prems classify_Cons_kept [OF l f] by simp
      from Cons.IH [OF this] show ?thesis using Some BDue due_record_load [OF l] by simp
    qed
  qed
qed

lemma bucket_of_Some:
  assumes "bucket_of st now days tyf q = Some b"
  shows "\<exists>e. load_entry st q = Inr (YMap e) \<and> due_record st q = (q, e)
           \<and> (b = BDue \<longleftrightarrow> is_due_for_review now e days = Inr True)
           \<and> (b = BPromoted \<longleftrightarrow> is_due_for_review now e days = Inr False \<and> is_promoted e)
           \<and> (b = BStub \<longleftrightarrow> is_due_for_review now e days = Inr False \<and> \<not> is_promoted e)"
  using assms
  by (auto simp: bucket_of_def due_record_def split: sum.splits yval.splits if_splits bool.splits)

lemma bucket_records:
  assumes "(q, e) \<in> set (map (due_record st) (filter (\<lambda>q. bucket_of st now days tyf q = Some b) ps))"
  shows "load_entry st q = Inr (YMap e)
           \<and> (b = BDue \<longleftrightarrow> is_due_for_review now e days = Inr True)
           \<and> (b = BPromoted \<longleftrightarrow> is_due_for_review now e days = Inr False \<and> is_promoted e)
           \<and> (b = BStub \<longleftrightarrow> is_due_for_review now e days = Inr False \<and> \<not> is_promoted e)"
proof -
  obtain q' where q': "q' \<in> set ps" "bucket_of st now days tyf q' = Some b" "due_record st q' = (q, e)"
    using assms by auto
  show ?thesis using bucket_of_Some [OF q'(2)] q'(3) by auto
qed

lemma show_dated_named:
  "list_all (\<lambda>qe. map_of (snd qe) ''name'' \<noteq> None) es \<Longrightarrow> snd (show_dated es) = None"
  by (induction es rule: show_dated.induct) (auto simp: dict_index_def split: option.splits prod.splits)

lemma show_stubs_nameless:
  "(q, e) \<in> set es \<Longrightarrow> map_of e ''name'' = None \<Longrightarrow> snd (show_stubs es) \<noteq> None"
  by (induction es rule: show_stubs.induct)
     (auto simp: dict_index_def split: sum.splits option.splits prod.splits)

lemma classify_promoted:
  assumes "classify st now days tyf ps [] [] [] [] = (s, p, d, msgs)"
  shows "list_all (\<lambda>(q, e). is_promoted e) d \<and> list_all (\<lambda>(q, e). is_promoted e) p"
proof -
  have c: "p = map (due_record st) (filter (\<lambda>q. bucket_of st now days tyf q = Some BPromoted) ps)"
    "d = map (due_record st) (filter (\<lambda>q. bucket_of st now days tyf q = Some BDue) ps)"
    using classify_fst [OF assms] by simp_all
  have "list_all (\<lambda>(q, e). is_promoted e) d"
    unfolding c(2) list_all_iff by (clarify, drule bucket_records, auto intro: is_due_True_promoted)
  moreover have "list_all (\<lambda>(q, e). is_promoted e) p"
    unfolding c(1) list_all_iff by (clarify, drule bucket_records, auto)
  ultimately show ?thesis by blast
qed

lemma promoted_named:
  "list_all (\<lambda>(q, e). is_promoted e) es \<Longrightarrow> list_all (\<lambda>qe. map_of (snd qe) ''name'' \<noteq> None) es"
  using is_promoted_has_name by (fastforce simp: list_all_iff)

lemma missing_word_stub:
  "missing_fields (create_word_stub uid now name ex) =
     Inr ([''part_of_speech'', ''meaning''] @ (if example_list ex = [] then [''examples''] else []))"
  by (simp add: missing_fields_def create_word_stub_def examples_missing_def missing_if_falsy_def
      dict_get_def dict_get_default_def)

lemma missing_idiom_stub:
  "missing_fields (create_idiom_stub uid now name ex) =
     Inr ([''meaning''] @ (if example_list ex = [] then [''examples''] else []))"
  by (simp add: missing_fields_def create_idiom_stub_def examples_missing_def missing_if_falsy_def
      dict_get_def dict_get_default_def)

lemma missing_terminology_stub:
  "c \<noteq> [] \<Longrightarrow> missing_fields (create_terminology_stub uid now name c ex) =
     Inr ([''meaning''] @ (if py_truthy (opt_str ex) then [] else [''example'']))"
  by (simp add: missing_fields_def create_terminology_stub_def missing_if_falsy_def dict_get_def)

lemma example_list_empty: "example_list ex = [] \<longleftrightarrow> ex = None \<or> ex = Some []"
  by (simp add: example_list_def split: option.splits)

lemma opt_str_falsy: "\<not> py_truthy (opt_str ex) \<longleftrightarrow> ex = None \<or> ex = Some []"
  by (simp add: opt_str_def split: option.splits)

text \<open>C35: The report partitions the record files it can load (and that pass the
  type filter) into exactly one bucket each, keeping the order of the scan: due
  first (a promoted entry that is due is never listed as promoted), then
  promoted (complete, not due), then stub (incomplete).\<close>

theorem status_partition:
  assumes "classify st now days tyf ps [] [] [] [] = (s, p, d, msgs)"
  shows "map fst d = filter (\<lambda>q. bucket_of st now days tyf q = Some BDue) ps
    \<and> map fst p = filter (\<lambda>q. bucket_of st now days tyf q = Some BPromoted) ps
    \<and> map fst s = filter (\<lambda>q. bucket_of st now days tyf q = Some BStub) ps
    \<and> list_all (\<lambda>(q, e). is_promoted e \<and> is_due_for_review now e days = Inr True) d
    \<and> list_all (\<lambda>(q, e). is_promoted e \<and> is_due_for_review now e days = Inr False) p
    \<and> list_all (\<lambda>(q, e). \<not> is_promoted e) s"
proof -
  have c: "s = map (due_record st) (filter (\<lambda>q. bucket_of st now days tyf q = Some BStub) ps)"
    "p = map (due_record st) (filter (\<lambda>q. bucket_of st now days tyf q = Some BPromoted) ps)"
    "d = map (due_record st) (filter (\<lambda>q. bucket_of st now days tyf q = Some BDue) ps)"
    using classify_fst [OF assms] by simp_all
  have f: "map fst (map (due_record st) qs) = qs" for qs by (induction qs) (simp_all add: due_record_def)
  have "list_all (\<lambda>(q, e). is_promoted e \<and> is_due_for_review now e days = Inr True) d"
    unfolding c(3) list_all_iff by (clarify, drule bucket_records, auto intro: is_due_True_promoted)
  moreover have "list_all (\<lambda>(q, e). is_promoted e \<and> is_due_for_review now e days = Inr False) p"
    unfolding c(2) list_all_iff by (clarify, drule bucket_records, auto)
  moreover have "list_all (\<lambda>(q, e). \<not> is_promoted e) s"
    unfolding c(1) list_all_iff by (clarify, drule bucket_records, auto)
  ultimately show ?thesis unfolding c f by blast
qed

text \<open>C36: A freshly created stub is reported as missing exactly the required
  fields the command line did not supply: a word its part of speech and meaning,
  an idiom or a terminology its meaning, and the examples (or, for a
  terminology, the example) when \<^verbatim>\<open>--example\<close> was absent or empty.\<close>

theorem fresh_stub_missing:
  assumes "create_stub uid now ty name ex ctx = Inr e"
  shows "missing_fields e =
    Inr ((if ty = Word then [''part_of_speech'', ''meaning''] else [''meaning''])
         @ (if ex = None \<or> ex = Some [] then [if ty = Terminology then ''example'' else ''examples''] else []))"
proof (cases ty)
  case Word
  then have "e = create_word_stub uid now name ex" using assms by (simp add: create_stub_def)
  then show ?thesis using Word by (simp add: missing_word_stub example_list_empty)
next
  case Idiom
  then have "e = create_idiom_stub uid now name ex" using assms by (simp add: create_stub_def)
  then show ?thesis using Idiom by (simp add: missing_idiom_stub example_list_empty)
next
  case Terminology
  then obtain c where "ctx = Some c" "c \<noteq> []" "e = create_terminology_stub uid now name c ex"
    using assms by (auto simp: create_stub_def split: option.splits if_splits)
  then show ?thesis using Terminology missing_terminology_stub [of c] opt_str_falsy [of ex] by auto
qed

text \<open>C37: A stub without a \<^verbatim>\<open>name\<close> field makes the report crash when the
  stub section is shown: \<^verbatim>\<open>entry['name']\<close> is read outside the exception
  handler of the scan, although the command is meant to exit 0 always.\<close>

theorem status_nameless_stub_crash:
  assumes "classify st now days tyf (get_all_entries st) [] [] [] [] = (s, p, d, msgs)"
    and "(q, e) \<in> set s" and "map_of e ''name'' = None" and "stf = None \<or> stf = Some ''stub''"
  shows "\<exists>x. snd (status_main st now days tyf stf) = Crash x"
proof -
  have ne: "get_all_entries st \<noteq> []"
    using classify_fst [OF assms(1)] assms(2) by auto
  obtain ls x where sh: "show_stubs s = (ls, Some x)"
    using show_stubs_nameless [OF assms(2,3)] by (cases "show_stubs s") auto
  have "s \<noteq> []" using assms(2) by auto
  then show ?thesis using ne assms(1,4) sh by (auto simp: status_main_def st_section_def)
qed

text \<open>C38: A record can be a stub and still be reported as missing nothing:
  every word whose part of speech and meaning are filled in and whose examples
  are a non-empty string instead of a list is not promoted (examples must be a
  list), so it is listed among the stubs, but it passes every check of the
  missing-field list.\<close>

theorem stub_nothing_missing:
  assumes "dict_get e ''type'' = YStr ''word''" and "py_truthy (dict_get e ''part_of_speech'')"
    and "py_truthy (dict_get e ''meaning'')" and "dict_get e ''examples'' = YStr x" and "x \<noteq> []"
  shows "\<not> is_promoted e \<and> is_due_for_review now e days = Inr False \<and> missing_fields e = Inr []"
proof -
  have np: "\<not> is_promoted e"
    using assms(1,4) by (simp add: promoted_simps Let_def nonempty_list_def)
  have "dict_get_default e ''examples'' (YList []) = YStr x"
    using assms(4) dict_get_default_present [of e "''examples''"] by simp
  then have "examples_missing e = Inr False" using assms(4,5) by (simp add: examples_missing_def)
  then have "missing_fields e = Inr []"
    using assms(1-3) by (simp add: missing_fields_def missing_if_falsy_def)
  with np show ?thesis by (simp add: is_due_for_review_def)
qed

text \<open>C39: The report restricted to due or to promoted entries always exits 0:
  the entries it prints are promoted, so each has a name.\<close>

theorem status_filtered_no_crash:
  assumes "stf = Some ''due'' \<or> stf = Some ''promoted''"
  shows "snd (status_main st now days tyf stf) = Exit 0"
proof (cases "get_all_entries st = []")
  case True
  then show ?thesis by (simp add: status_main_def)
next
  case False
  obtain s p d msgs where c: "classify st now days tyf (get_all_entries st) [] [] [] [] = (s, p, d, msgs)"
    by (cases "classify st now days tyf (get_all_entries st) [] [] [] []") auto
  have "snd (show_dated d) = None" "snd (show_dated p) = None"
    using classify_promoted [OF c] promoted_named show_dated_named by blast+
  then show ?thesis using False c assms
    by (auto simp: status_main_def st_section_def split: prod.splits option.splits)
qed

subsection \<open>Witnesses\<close>

lemma sample_store_buckets:
  "bucket_of sample_store (sample_dt 1) 7 None (''words'', ''ice.yaml'') = Some BStub
   \<and> bucket_of sample_store (sample_dt 1) 7 None (''idioms'', ''spill-the-beans.yaml'') = Some BDue"
proof -
  have i: "load_entry sample_store (''words'', ''ice.yaml'') = Inr (YMap [(''name'', YStr ''ice''), (''type'', YStr ''word'')])"
    by (simp add: load_entry_def read_file_def listing_of_def sample_store_def)
  have n: "\<not> is_promoted [(''name'', YStr ''ice''), (''type'', YStr ''word'')]"
    by (simp add: promoted_simps dict_get_def present_def)
  have d: "is_due_for_review (sample_dt 1) (sample_idiom YNone) 7 = Inr True"
    by (simp add: is_due_promoted_cases sample_idiom_promoted sample_idiom_last_reviewed)
  show ?thesis using i n d sample_spill_load by (simp add: bucket_of_def is_due_for_review_def)
qed

lemma status_partition_witness:
  "\<exists>s p d msgs. classify sample_store (sample_dt 1) 7 None (get_all_entries sample_store) [] [] [] [] = (s, p, d, msgs)
     \<and> map fst d = [(''idioms'', ''spill-the-beans.yaml'')] \<and> p = [] \<and> map fst s = [(''words'', ''ice.yaml'')]"
proof -
  obtain s p d msgs where c:
    "classify sample_store (sample_dt 1) 7 None (get_all_entries sample_store) [] [] [] [] = (s, p, d, msgs)"
    by (cases "classify sample_store (sample_dt 1) 7 None (get_all_entries sample_store) [] [] [] []") auto
  show ?thesis using status_partition [OF c] c sample_store_buckets by (simp add: sample_store_entries)
qed

lemma fresh_stub_missing_witness:
  "create_stub ''0b6f'' (sample_dt 1) Word ''Break the ice'' None None =
     Inr (create_word_stub ''0b6f'' (sample_dt 1) ''Break the ice'' None)
   \<and> missing_fields (create_word_stub ''0b6f'' (sample_dt 1) ''Break the ice'' None) =
     Inr [''part_of_speech'', ''meaning'', ''examples'']"
proof -
  have c: "create_stub ''0b6f'' (sample_dt 1) Word ''Break the ice'' None None =
     Inr (create_word_stub ''0b6f'' (sample_dt 1) ''Break the ice'' None)" by (simp add: create_stub_def)
  show ?thesis using c fresh_stub_missing [OF c] by simp
qed

lemma broken_store_buckets:
  "get_all_entries broken_store = [(''words'', ''blank.yaml''), (''words'', ''noname.yaml'')]
   \<and> bucket_of broken_store (sample_dt 1) 7 None (''words'', ''blank.yaml'') = None
   \<and> bucket_of broken_store (sample_dt 1) 7 None (''words'', ''noname.yaml'') = Some BStub
   \<and> due_record broken_store (''words'', ''noname.yaml'') = ((''words'', ''noname.yaml''), [(''type'', YStr ''word'')])"
proof -
  have g: "get_all_entries broken_store = [(''words'', ''blank.yaml''), (''words'', ''noname.yaml'')]" by code_simp
  have b: "load_entry broken_store (''words'', ''blank.yaml'') = Inr YNone"
    by (simp add: load_entry_def read_file_def listing_of_def broken_store_def)
  have l: "load_entry broken_store (''words'', ''noname.yaml'') = Inr (YMap [(''type'', YStr ''word'')])"
    by (simp add: load_entry_def read_file_def listing_of_def broken_store_def)
  have n: "\<not> is_promoted [(''type'', YStr ''word'')]"
    by (simp add: promoted_simps dict_get_def present_def)
  show ?thesis using g b l n by (simp add: bucket_of_def is_due_for_review_def due_record_def)
qed

lemma status_nameless_stub_crash_witness:
  "\<exists>x. snd (status_main broken_store (sample_dt 1) 7 None None) = Crash x"
proof -
  obtain s p d msgs where c:
    "classify broken_store (sample_dt 1) 7 None (get_all_entries broken_store) [] [] [] [] = (s, p, d, msgs)"
    by (cases "classify broken_store (sample_dt 1) 7 None (get_all_entries broken_store) [] [] [] []") auto
  have "s = [((''words'', ''noname.yaml''), [(''type'', YStr ''word'')])]"
    using classify_fst [OF c] broken_store_buckets by simp
  then have m: "((''words'', ''noname.yaml''), [(''type'', YStr ''word'')]) \<in> set s" by simp
  show ?thesis using status_nameless_stub_crash [OF c m] by simp
qed

lemma status_filtered_no_crash_witness:
  "snd (status_main sample_store (sample_dt 1) 7 None (Some ''due'')) = Exit 0"
  using status_filtered_no_crash [of "Some ''due''" sample_store "sample_dt 1" 7 None] by simp

lemma stub_nothing_missing_witness:
  "\<not> is_promoted string_examples_word \<and> missing_fields string_examples_word = Inr []"
proof -
  have "dict_get string_examples_word ''type'' = YStr ''word''"
    "py_truthy (dict_get string_examples_word ''part_of_speech'')"
    "py_truthy (dict_get string_examples_word ''meaning'')"
    "dict_get string_examples_word ''examples'' = YStr ''Break the ice.''"
    by (simp_all add: string_examples_word_def dict_get_def)
  from stub_nothing_missing [OF this, of "sample_dt 1" 7] show ?thesis by simp
qed

subsection \<open>Status after the other commands\<close>

lemma format_date_isoformat: "dt_valid dt \<Longrightarrow> format_date (YStr (isoformat dt)) = FYmd (year dt) (month dt) (day dt)"
  by (simp add: format_date_def fromisoformat_isoformat)

lemma is_yaml_name_slug: "is_yaml_name (x @ ''.yaml'')"
  by (simp add: is_yaml_name_def)

text \<open>C12: After an entry is marked reviewed at a valid time, the status report
  prints as its ``Last reviewed'' date the calendar date of that time: the
  timestamp \<^verbatim>\<open>mark_reviewed.py\<close> writes is parsed back by
  \<^verbatim>\<open>format_date\<close>, never shown raw.\<close>

theorem status_shows_review_date:
  assumes "mark_as_reviewed st now p = Inr (st', v)" and "dt_valid now"
  shows "\<exists>e'. v = YMap e' \<and> load_entry st' p = Inr v
           \<and> format_date (dict_get e' ''last_reviewed'') = FYmd (year now) (month now) (day now)"
proof -
  obtain e where v: "v = reviewed now (YMap e)"
    and ld: "\<forall>q. load_entry st' q = (if q = p then Inr v else load_entry st q)"
    using mark_as_reviewed_Inr [OF assms(1)] by blast
  have "load_entry st' p = Inr v" using spec [OF ld, of p] by simp
  then show ?thesis using v format_date_isoformat [OF assms(2)] by (simp add: reviewed_def)
qed

text \<open>C15: A record that \<^verbatim>\<open>add_entry.py\<close> has just created is listed by
  \<^verbatim>\<open>status.py\<close> as a stub, whatever the time and interval, in the unfiltered
  report and under \<^verbatim>\<open>--type\<close> of its own category.\<close>

theorem add_entry_then_status_stub:
  assumes "add_entry_main st uid now ty name ex ctx = (st', msgs, Exit 0)"
    and "tyf = None \<or> tyf = Some (category_name ty)"
  shows "stub_path ty name \<in> set (get_all_entries st')
         \<and> bucket_of st' now' days tyf (stub_path ty name) = Some BStub"
proof -
  obtain e where c: "create_stub uid now ty name ex ctx = Inr e"
    and w: "write_file (mkdir_exist_ok st (dir_map ty)) (stub_path ty name) (Doc (YMap e)) = Inr st'"
    using add_entry_main_Exit0 [OF assms(1)] by blast
  have l: "load_entry st' (stub_path ty name) = Inr (YMap e)"
    using read_write_same [OF w] by (simp add: load_entry_def)
  have np: "\<not> is_promoted e" using create_stub_not_promoted [OF c] .
  have t: "dict_get e ''type'' = YStr (category_name ty)"
    using create_stub_fields [OF c] by (simp add: stub_fields_def)
  have "bucket_of st' now' days tyf (stub_path ty name) = Some BStub"
    using l np t assms(2) by (auto simp: bucket_of_def is_due_for_review_def opt_str_def)
  moreover have "stub_path ty name \<in> set (get_all_entries st')"
    using path_exists_write [OF w] dir_map_category_dirs
    by (simp add: mem_get_all_entries stub_path_def is_yaml_name_slug)
  ultimately show ?thesis by blast
qed

lemma status_shows_review_date_witness:
  "\<exists>st' e'. mark_as_reviewed sample_store (sample_dt 1) (''idioms'', ''spill-the-beans.yaml'') = Inr (st', YMap e')
     \<and> format_date (dict_get e' ''last_reviewed'') = FYmd 2024 1 1"
proof -
  obtain st' where m: "mark_as_reviewed sample_store (sample_dt 1) (''idioms'', ''spill-the-beans.yaml'') =
      Inr (st', reviewed (sample_dt 1) (YMap (sample_idiom YNone)))"
    using mark_as_reviewed_dict [OF sample_spill_load] by metis
  have v: "dt_valid (sample_dt 1)" by (simp add: sample_dt_valid)
  show ?thesis using status_shows_review_date [OF m v] m by (auto simp: sample_dt_def)
qed

lemma add_entry_then_status_stub_witness:
  "\<exists>st' msgs. add_entry_main sample_store ''0b6f'' (sample_dt 1) Word ''Break the ice'' None None = (st', msgs, Exit 0)
     \<and> (''words'', ''break-the-ice.yaml'') \<in> set (get_all_entries st')
     \<and> bucket_of st' (sample_dt 2) 7 None (''words'', ''break-the-ice.yaml'') = Some BStub"
proof -
  have c: "create_stub ''0b6f'' (sample_dt 1) Word ''Break the ice'' None None =
      Inr (create_word_stub ''0b6f'' (sample_dt 1) ''Break the ice'' None)" by (simp add: create_stub_def)
  have n: "\<not> path_exists sample_store (stub_path Word ''Break the ice'')" by code_simp
  have p: "stub_path Word ''Break the ice'' = (''words'', ''break-the-ice.yaml'')" by code_simp
  obtain st' where m: "add_entry_main sample_store ''0b6f'' (sample_dt 1) Word ''Break the ice'' None None =
      (st', [Created (stub_path Word ''Break the ice'') ''0b6f''], Exit 0)"
    using add_entry_main_fresh [OF c n] by blast
  show ?thesis using add_entry_then_status_stub [OF m, of None "sample_dt 2" 7] m p by auto
qed

end
