(* ===== verification/Spec2Isabelle.thy ===== *)
theory Spec2Isabelle
  imports Status
begin

text \<open>
  \<^bold>\<open>A verified model of the vocabulary tracker.\<close>

  The program (\<^verbatim>\<open>src/\<close>) keeps one YAML record per vocabulary entry in three
  directories, \<^verbatim>\<open>words/\<close>, \<^verbatim>\<open>idioms/\<close> and \<^verbatim>\<open>terminologies/\<close>, and has four
  command-line entry points that share the library \<^verbatim>\<open>vocab_lib.py\<close>:
  \<^verbatim>\<open>add_entry.py\<close> creates a stub record, \<^verbatim>\<open>mark_reviewed.py\<close> stamps
  \<^verbatim>\<open>last_reviewed\<close> (for named entries, or for every due entry),
  \<^verbatim>\<open>review.py\<close> prints the due entries, \<^verbatim>\<open>status.py\<close> prints the stub, due
  and promoted buckets. An entry's lifecycle (stub, promoted, due) is computed by
  the predicates of \<^verbatim>\<open>vocab_lib.py\<close> from its fields and the clock.

  \<^bold>\<open>Theories.\<close> Each theory opens with a text block on what it holds.
  \<^item> \<open>Vocab_Prelude\<close>: dictionaries as association lists (Python dictionaries
    keep insertion order, and \<open>AList.update\<close> keeps a key's position), the
    exceptions \<open>pyexc\<close> and the process outcome \<open>outcome\<close> (exit status or
    crash), and list lemmas shared by the components.
  \<^item> \<open>DateTime\<close>: the subset of Python's \<^verbatim>\<open>datetime\<close> the scripts use, after
    the reference implementation \<^verbatim>\<open>Lib/datetime.py\<close>: \<open>toordinal\<close>,
    \<open>sub_days\<close> (the \<^verbatim>\<open>.days\<close> of a difference, a floor division of the
    microseconds), \<open>isoformat\<close> and \<open>fromisoformat\<close> (the grammar of Python
    3.7 to 3.10, without time zones). Proved: \<open>fromisoformat\<close> inverts
    \<open>isoformat\<close> on every valid datetime, and \<open>sub_days\<close> is characterised by
    inequalities on the microsecond difference.
  \<^item> \<open>PyValue\<close>: values loaded by \<^verbatim>\<open>yaml.safe_load\<close> (\<open>yval\<close>) and the
    Python operations on them: \<^verbatim>\<open>get\<close>, \<^verbatim>\<open>[]\<close>, item assignment, truth
    value, \<^verbatim>\<open>len\<close>.
  \<^item> \<open>Lifecycle\<close> (\<^verbatim>\<open>vocab_lib.py\<close>: \<^verbatim>\<open>is_promoted_word/idiom/terminology\<close>,
    \<^verbatim>\<open>is_promoted\<close>, \<^verbatim>\<open>is_due_for_review\<close>, \<^verbatim>\<open>get_entry_status\<close>), with the
    current time as the argument \<open>now\<close> and every raise as a left value.
    Proved: promotion is exactly the per-category field table (C1); stubs are
    never due (C2); never-reviewed promoted entries always are (C3); the
    interval boundary is inclusive (C4); bare YAML dates raise (C5); an
    empty string counts as filled in for every field but the examples (C6).
  \<^item> \<open>Slug\<close> (\<^verbatim>\<open>slugify\<close> of \<^verbatim>\<open>add_entry.py\<close> and of \<^verbatim>\<open>mark_reviewed.py\<close>):
    the two copies agree (C7), are idempotent (C8), produce no space, slash or
    upper-case ASCII letter (C9), and map a name, its lower-case form and its
    hyphenated form to one file (C10).
  \<^item> \<open>Store\<close>: the working directory as a \<open>store\<close> record, a list of
    directories each with a listing of file contents (a YAML document or an
    unparsable text), in listing order; \<open>load_entry\<close>, \<open>save_entry\<close>,
    \<open>get_all_entries\<close> (\<^verbatim>\<open>vocab_lib.py\<close>) and \<open>find_entry_by_name\<close>
    (\<^verbatim>\<open>mark_reviewed.py\<close>), with the well-formedness invariant \<open>store_wf\<close>
    (no directory or file twice) and the relation \<open>keeps_records\<close> between
    two stores (every mapping record kept up to its \<^verbatim>\<open>last_reviewed\<close>).
    Proved: the specification of the scan (C14). Load after save holds by the
    construction of the model, since the YAML round trip is assumed, and is not
    claimed as a property of the program.
  \<^item> \<open>AddEntry\<close> (\<^verbatim>\<open>add_entry.py\<close>): the stub constructors with \<^verbatim>\<open>uuid4()\<close>
    and \<^verbatim>\<open>now()\<close> as arguments, the context check, \<^verbatim>\<open>save_entry\<close> with its
    conflict check, and \<open>add_entry_main\<close>, returning the new store, the
    messages and the outcome. Proved: stubs are stubs (C16), the refusals
    leave the store alone with status 1 (C17, C18), a creation writes exactly
    the stub (C19), which the lookup of \<^verbatim>\<open>mark_reviewed.py\<close> then finds
    (C20) unless a word with the same slug shadows it, in every store (C21).
  \<^item> \<open>MarkReviewed\<close> (\<^verbatim>\<open>mark_reviewed.py\<close>): \<open>mark_as_reviewed\<close>, the
    targeted loop \<open>mark_names\<close>, the batch loops \<open>collect_due_paths\<close> and
    \<open>mark_paths\<close>, and \<open>mark_reviewed_main\<close>. An uncaught exception ends a
    loop and is returned with the store as written so far, since earlier writes
    stay on disk. Proved: marking never changes promotion and sets the status
    (C11); targeted marking stamps every resolved name, due or not (C13); the
    update and its frame (C22), marking resets the review clock (C23), unknown
    names (C24), two crashes of the targeted mode
    that contradict ``always exits 0'' (C25, C26), the batch mode marks exactly
    the due entries (C27) and is idempotent (C28).
  \<^item> \<open>Review\<close> (\<^verbatim>\<open>review.py\<close>): \<open>display_entry\<close> as the list of lines it
    prints, the selection loop \<open>collect_due_entries\<close>, the limit \<open>py_prefix\<close>
    with Python slice semantics, and \<open>review_main\<close>, which receives the store
    and returns only messages and an outcome (the path is read-only by its
    type). Proved: it shows the first \<open>limit\<close> due entries (C29), selects what
    the batch mode marks (C30), never crashes (C31), and what \<^verbatim>\<open>--limit 0\<close>
    (C32) and a negative limit (C33) do; the display of a word (C34).
  \<^item> \<open>Status\<close> (\<^verbatim>\<open>status.py\<close>): \<open>format_date\<close>, the classification loop
    \<open>classify\<close>, the missing-field list \<open>missing_fields\<close>, the sections and
    \<open>status_main\<close>. Proved: the buckets partition the loadable records with
    due before promoted before stub (C35), what a fresh stub misses (C36), the
    crash on a stub without a name (C37), a class of stubs reported as missing
    nothing (C38), that the due and promoted views never crash (C39), that a
    marked record's date is shown as the marking date (C12), and that a freshly
    created record is listed as a stub (C15).
  \<^item> This theory: the four entry points as a \<open>command\<close> datatype, one
    invocation as \<open>run_cmd\<close>, a session as \<open>run\<close>; proved that over any
    sequence of invocations every mapping record keeps all its fields except
    \<^verbatim>\<open>last_reviewed\<close> (C40), by lifting the relation \<open>keeps_records\<close>
    from single writes to loops, to one invocation and to a session.

  \<^bold>\<open>Modelling choices.\<close> The clock (\<^verbatim>\<open>datetime.now()\<close>) and
  \<^verbatim>\<open>uuid.uuid4()\<close> are parameters; one run of \<^verbatim>\<open>mark_reviewed.py\<close> uses
  one clock value for all the files it marks, where the code reads the clock per
  file (microseconds apart). Names are byte strings and \<^verbatim>\<open>str.lower\<close>
  is modelled on ASCII letters. Every loop of the scripts is a structurally
  recursive function over a finite list (the directory scan, the names on the
  command line, the due list), so all functions are total and no fuel is
  needed; the one loop of the library that is not structural, the component loop
  \<open>hms_loop\<close> of the time parser of \<open>fromisoformat\<close>, terminates by the
  measure \<open>3 - k\<close> on the component index. \<^verbatim>\<open>yaml.dump\<close> followed by \<^verbatim>\<open>yaml.safe_load\<close> is taken to return
  the dumped value; directory listings are ordered as the model stores them
  (the order of \<^verbatim>\<open>Path.glob\<close> is the file system's). Printed text is
  represented by message constructors carrying the printed values, not by
  strings.

  \<^bold>\<open>Not modelled.\<close> Argument parsing (\<^verbatim>\<open>argparse\<close>: the parsed values are
  the parameters of the \<open>*_main\<close> functions, and invalid command lines never
  reach them), the text layout of the console output, concurrent invocations
  (the spec leaves them unsynchronised), file-system failures other than a
  missing directory, and YAML features the program never writes (floats,
  non-string keys, anchors).
\<close>

text \<open>The four entry points with their parsed arguments.\<close>

datatype command =
    Add_cmd string datetime category string "string option" "string option"
  | Mark_cmd datetime "string list" int
  | Review_cmd datetime int int bool
  | Status_cmd datetime int "string option" "string option"

text \<open>One invocation: the store afterwards and how the process ended.\<close>

definition run_cmd :: "store \<Rightarrow> command \<Rightarrow> store \<times> outcome" where
  "run_cmd st c =
     (case c of
        Add_cmd uid now ty name ex ctx \<Rightarrow>
          (case add_entry_main st uid now ty name ex ctx of (st', _, out) \<Rightarrow> (st', out))
      | Mark_cmd now names days \<Rightarrow>
          (case mark_reviewed_main st now names days of (st', _, out) \<Rightarrow> (st', out))
      | Review_cmd now days limit show_all \<Rightarrow> (st, snd (review_main st now days limit show_all))
      | Status_cmd now days tyf stf \<Rightarrow> (st, snd (status_main st now days tyf stf)))"

text \<open>A session: invocations one after the other, each on the store the
  previous one left.\<close>

fun run :: "store \<Rightarrow> command list \<Rightarrow> store" where
  "run st [] = st"
| "run st (c # cs) = run (fst (run_cmd st c)) cs"

definition sample_session :: "command list" where
  "sample_session =
     [Add_cmd ''0b6f'' (sample_dt 1) Word ''Break the ice'' None None,
      Mark_cmd (sample_dt 2) [] 7,
      Review_cmd (sample_dt 3) 7 20 False,
      Mark_cmd (sample_dt 3) [''no such word''] 7,
      Status_cmd (sample_dt 3) 7 None None]"

subsection \<open>Lemmas\<close>

lemma run_cmd_keeps: "keeps_records st (fst (run_cmd st c))"
proof (cases c)
  case (Add_cmd uid now ty name ex ctx)
  then have "fst (run_cmd st c) = fst (add_entry_main st uid now ty name ex ctx)"
    by (cases "add_entry_main st uid now ty name ex ctx") (simp add: run_cmd_def)
  then show ?thesis using add_entry_main_keeps by simp
next
  case (Mark_cmd now names days)
  then have "fst (run_cmd st c) = fst (mark_reviewed_main st now names days)"
    by (cases "mark_reviewed_main st now names days") (simp add: run_cmd_def)
  then show ?thesis using mark_reviewed_main_keeps by simp
qed (simp_all add: run_cmd_def keeps_records_refl)

lemma run_keeps: "keeps_records st (run st cs)"
proof (induction cs arbitrary: st)
  case Nil
  then show ?case by (simp add: keeps_records_refl)
next
  case (Cons c cs)
  have "keeps_records (fst (run_cmd st c)) (run (fst (run_cmd st c)) cs)" by (rule Cons.IH)
  with run_cmd_keeps show ?case by (simp add: keeps_records_trans [OF run_cmd_keeps])
qed

text \<open>C40: Whatever sequence of commands is run, a record file that holds a
  mapping still holds one afterwards, with the same fields in the same order and
  the same values except \<^verbatim>\<open>last_reviewed\<close>: creation never overwrites an
  existing record (its conflict check guards the only write), and marking changes
  nothing but the review time.\<close>

theorem run_keeps_records:
  assumes "load_entry st q = Inr (YMap e)"
  shows "\<exists>e'. load_entry (run st cs) q = Inr (YMap e')
           \<and> AList.delete ''last_reviewed'' e' = AList.delete ''last_reviewed'' e"
  using run_keeps [of st cs] assms unfolding keeps_records_def by blast

subsection \<open>Witnesses\<close>

lemma run_keeps_records_witness:
  "\<exists>e'. load_entry (run sample_store sample_session) (''idioms'', ''spill-the-beans.yaml'') = Inr (YMap e')
     \<and> AList.delete ''last_reviewed'' e' = AList.delete ''last_reviewed'' (sample_idiom YNone)"
  using run_keeps_records [OF sample_spill_load, of sample_session] .

end
